(* ===== verification/PyPrelude.thy ===== *)
theory PyPrelude
  imports Main
begin

text \<open>
  Shared vocabulary of the development: the Python values that \<open>src/PDA.py\<close> works on.

  \<^item> A Python \<open>str\<close> is a sequence of Unicode code points, so it is modelled as
    \<open>pystr = nat list\<close> (one \<open>nat\<close> per code point). Isabelle's \<open>char\<close> is a byte and
    cannot hold the code point U+03B5 (\<open>\<epsilon>\<close>) that the source compares with; ASCII literals
    are written \<open>py ''...''\<close>.
  \<^item> The methods of \<open>str\<close> used by the source: \<open>strip()\<close>, \<open>startswith\<close>, the
    operator \<open>in\<close>, \<open>find\<close>, \<open>rfind\<close>, \<open>split(sep)\<close>, \<open>lower()\<close>,
    \<open>upper()\<close> and slicing.
  \<^item> A Python \<open>dict\<close> keeps its keys in insertion order, and the validator raises the
    error of the first offending key in that order; so a dict is an association list with
    distinct keys, \<open>map_of\<close> reads it and \<open>dict_set\<close> writes it (an existing key keeps
    its position, a new key goes last).
  \<^item> A \<open>for\<close> loop that raises on the first offending element is \<open>for_each\<close>.
\<close>

named_theorems pystr_simps "evaluation rules for the Python string helpers"

type_synonym pystr = "nat list"

definition py :: "string \<Rightarrow> pystr" where
  "py s = map of_char s"

section \<open>Whitespace and strip()\<close>

text \<open>
  \<open>str.strip()\<close> with no argument removes the code points for which \<open>str.isspace()\<close>
  holds, from both ends.
\<close>

definition py_isspace :: "nat \<Rightarrow> bool" where
  "py_isspace c \<longleftrightarrow>
     (9 \<le> c \<and> c \<le> 13) \<or> (28 \<le> c \<and> c \<le> 32) \<or> c = 133 \<or> c = 160 \<or> c = 5760 \<or>
     (8192 \<le> c \<and> c \<le> 8202) \<or> c = 8232 \<or> c = 8233 \<or> c = 8239 \<or> c = 8287 \<or> c = 12288"

definition py_strip :: "pystr \<Rightarrow> pystr" where
  "py_strip s = rev (dropWhile py_isspace (rev (dropWhile py_isspace s)))"

section \<open>Substrings: in, startswith, find, rfind\<close>

definition occurs_at :: "pystr \<Rightarrow> pystr \<Rightarrow> nat \<Rightarrow> bool" where
  "occurs_at sub s i \<longleftrightarrow> take (length sub) (drop i s) = sub"

text \<open>\<open>s.find(sub)\<close>: the least index of an occurrence, \<open>-1\<close> (here \<open>None\<close>) if none.\<close>

definition py_find :: "pystr \<Rightarrow> pystr \<Rightarrow> nat option" where
  "py_find s sub = find (occurs_at sub s) [0..<Suc (length s)]"

text \<open>\<open>s.rfind(sub)\<close>: the greatest index of an occurrence.\<close>

definition py_rfind :: "pystr \<Rightarrow> pystr \<Rightarrow> nat option" where
  "py_rfind s sub = find (occurs_at sub s) (rev [0..<Suc (length s)])"

text \<open>\<open>sub in s\<close>.\<close>

definition py_in :: "pystr \<Rightarrow> pystr \<Rightarrow> bool" where
  "py_in sub s \<longleftrightarrow> py_find s sub \<noteq> None"

definition py_startswith :: "pystr \<Rightarrow> pystr \<Rightarrow> bool" where
  "py_startswith s p \<longleftrightarrow> take (length p) s = p"

section \<open>split(sep) and join\<close>

text \<open>
  \<open>s.split(sep)\<close> for a non-empty separator cuts at the leftmost occurrence and goes on
  with the rest. Python raises \<open>ValueError\<close> on an empty separator; every caller in
  the source guards against it, and the model returns \<open>[s]\<close> there.
\<close>

function py_split :: "pystr \<Rightarrow> pystr \<Rightarrow> pystr list" where
  "py_split s sep =
     (if sep = [] then [s]
      else case py_find s sep of
             None \<Rightarrow> [s]
           | Some i \<Rightarrow> take i s # py_split (drop (i + length sep) s) sep)"
  by pat_completeness auto

termination py_split
proof (relation "measure (\<lambda>(s, sep). length s)")
  fix s sep :: pystr and i
  assume ne: "\<not> sep = []" and "py_find s sep = Some i"
  then have "take (length sep) (drop i s) = sep"
    by (auto simp: py_find_def find_Some_iff occurs_at_def simp del: upt_Suc)
  then have "length sep \<le> length s - i"
    by (metis length_take length_drop min.bounded_iff order_refl)
  with ne show "((drop (i + length sep) s, sep), s, sep) \<in> measure (\<lambda>(s, sep). length s)"
    by (cases sep) auto
qed auto

fun py_join :: "pystr \<Rightarrow> pystr list \<Rightarrow> pystr" where
  "py_join sep [] = []"
| "py_join sep [x] = x"
| "py_join sep (x # xs) = x @ sep @ py_join sep xs"

section \<open>lower()\<close>

text \<open>
  \<open>str.lower()\<close> on the code points whose lower-case form contains an ASCII letter:
  A--Z, U+0130 (to \<open>i\<close> followed by U+0307) and the Kelvin sign U+212A (to \<open>k\<close>).
  Every other code point is left unchanged; Python maps some of them to other non-ASCII
  code points, which changes no comparison of the result with an ASCII string, the only
  use the source makes of it (\<open>symbol.lower() == "epsilon"\<close>).
\<close>

fun py_lower_cp :: "nat \<Rightarrow> pystr" where
  "py_lower_cp c =
     (if 65 \<le> c \<and> c \<le> 90 then [c + 32]
      else if c = 304 then [105, 775]
      else if c = 8490 then [107]
      else [c])"

definition py_lower :: "pystr \<Rightarrow> pystr" where
  "py_lower s = concat (map py_lower_cp s)"

text \<open>
  \<open>str.upper()\<close> in the same way: a--z, and the code points whose upper-case form is
  made of ASCII letters only: U+00DF (\<open>SS\<close>), U+0131 (\<open>I\<close>), U+017F (\<open>S\<close>) and the
  Latin ligatures U+FB00--U+FB06. Every other code point is left unchanged; Python maps
  some of them to strings holding a non-ASCII code point, which again changes no
  comparison with an ASCII string (\<open>s.upper() == "SPACE"\<close> in \<open>emulatePDA.py\<close>).
\<close>

fun py_upper_cp :: "nat \<Rightarrow> pystr" where
  "py_upper_cp c =
     (if 97 \<le> c \<and> c \<le> 122 then [c - 32]
      else if c = 223 then [83, 83]
      else if c = 305 then [73]
      else if c = 383 then [83]
      else if c = 64256 then [70, 70]
      else if c = 64257 then [70, 73]
      else if c = 64258 then [70, 76]
      else if c = 64259 then [70, 70, 73]
      else if c = 64260 then [70, 70, 76]
      else if c = 64261 \<or> c = 64262 then [83, 84]
      else [c])"

definition py_upper :: "pystr \<Rightarrow> pystr" where
  "py_upper s = concat (map py_upper_cp s)"

section \<open>Insertion-ordered dictionaries\<close>

type_synonym ('k, 'v) pydict = "('k \<times> 'v) list"

text \<open>\<open>d[k] = v\<close>: overwrite in place, or append a new key.\<close>

fun dict_set :: "'k \<Rightarrow> 'v \<Rightarrow> ('k, 'v) pydict \<Rightarrow> ('k, 'v) pydict" where
  "dict_set k v [] = [(k, v)]"
| "dict_set k v ((a, b) # ps) = (if a = k then (k, v) # ps else (a, b) # dict_set k v ps)"

text \<open>\<open>d.get(k, {})\<close> for a dict whose values are dicts.\<close>

definition dict_get_or_empty :: "('k, ('a, 'b) pydict) pydict \<Rightarrow> 'k \<Rightarrow> ('a, 'b) pydict" where
  "dict_get_or_empty d k = (case map_of d k of None \<Rightarrow> [] | Some e \<Rightarrow> e)"

section \<open>A for loop that stops at the first raise\<close>

fun for_each :: "('a \<Rightarrow> 'e + unit) \<Rightarrow> 'a list \<Rightarrow> 'e + unit" where
  "for_each f [] = Inr ()"
| "for_each f (x # xs) = (case f x of Inl e \<Rightarrow> Inl e | Inr _ \<Rightarrow> for_each f xs)"

section \<open>Text files: read() and readlines()\<close>

text \<open>
  A file opened in text mode translates \<open>\r\n\<close> and a lone \<open>\r\<close> to \<open>\n\<close>
  (universal newlines). \<open>read()\<close> returns the translated text; \<open>readlines()\<close> splits it
  after each \<open>\n\<close>, keeping the \<open>\n\<close>, with a last line without one if the text does not
  end in a newline.
\<close>

fun py_newlines :: "pystr \<Rightarrow> pystr" where
  "py_newlines [] = []"
| "py_newlines (c # r) =
     (if c = 13 then 10 # py_newlines (if r \<noteq> [] \<and> hd r = 10 then tl r else r)
      else c # py_newlines r)"

fun split_keep_nl :: "pystr \<Rightarrow> pystr \<Rightarrow> pystr list" where
  "split_keep_nl cur [] = (if cur = [] then [] else [cur])"
| "split_keep_nl cur (c # r) =
     (if c = 10 then (cur @ [10]) # split_keep_nl [] r else split_keep_nl (cur @ [c]) r)"

definition py_readlines :: "pystr \<Rightarrow> pystr list" where
  "py_readlines text = split_keep_nl [] (py_newlines text)"

section \<open>Lemmas\<close>

declare py_def [pystr_simps] py_isspace_def [pystr_simps] py_strip_def [pystr_simps]
  occurs_at_def [pystr_simps] py_find_def [pystr_simps] py_rfind_def [pystr_simps]
  py_in_def [pystr_simps] py_startswith_def [pystr_simps] py_lower_def [pystr_simps]
  py_split.simps [pystr_simps]

declare py_split.simps [simp del]

subsection \<open>find and rfind\<close>

lemma occurs_at_len: "occurs_at sub s i \<Longrightarrow> sub \<noteq> [] \<Longrightarrow> i + length sub \<le> length s"
proof -
  assume occ: "occurs_at sub s i" and ne: "sub \<noteq> []"
  from occ have "length (take (length sub) (drop i s)) = length sub"
    by (simp add: occurs_at_def)
  then have "length sub \<le> length s - i"
    by (simp add: min_def split: if_splits)
  with ne show ?thesis by (cases sub) auto
qed

lemma py_find_Some_iff:
  "py_find s sub = Some i \<longleftrightarrow>
     i \<le> length s \<and> occurs_at sub s i \<and> (\<forall>j<i. \<not> occurs_at sub s j)"
proof -
  have nth: "k < Suc (length s) \<Longrightarrow> [0..<Suc (length s)] ! k = k" for k
    by (simp del: upt_Suc)
  show ?thesis
  proof
    assume "py_find s sub = Some i"
    then obtain k where k: "k < Suc (length s)" "occurs_at sub s ([0..<Suc (length s)] ! k)"
      "i = [0..<Suc (length s)] ! k"
      and before: "\<forall>j<k. \<not> occurs_at sub s ([0..<Suc (length s)] ! j)"
      unfolding py_find_def find_Some_iff by (auto simp del: upt_Suc)
    have "\<not> occurs_at sub s j" if "j < i" for j
      using that k before nth by (metis less_trans)
    with k nth show "i \<le> length s \<and> occurs_at sub s i \<and> (\<forall>j<i. \<not> occurs_at sub s j)"
      by auto
  next
    assume r: "i \<le> length s \<and> occurs_at sub s i \<and> (\<forall>j<i. \<not> occurs_at sub s j)"
    then have "i < length [0..<Suc (length s)] \<and> occurs_at sub s ([0..<Suc (length s)] ! i) \<and>
        i = [0..<Suc (length s)] ! i \<and> (\<forall>j<i. \<not> occurs_at sub s ([0..<Suc (length s)] ! j))"
      using nth by (simp del: upt_Suc)
    then show "py_find s sub = Some i"
      unfolding py_find_def find_Some_iff by blast
  qed
qed

lemma py_find_None_iff: "py_find s sub = None \<longleftrightarrow> (\<forall>i\<le>length s. \<not> occurs_at sub s i)"
  by (auto simp: py_find_def find_None_iff simp del: upt_Suc)

lemma py_rfind_Some_iff:
  "py_rfind s sub = Some i \<longleftrightarrow>
     i \<le> length s \<and> occurs_at sub s i \<and> (\<forall>j. i < j \<and> j \<le> length s \<longrightarrow> \<not> occurs_at sub s j)"
proof -
  let ?xs = "rev [0..<Suc (length s)]"
  have nth: "k < Suc (length s) \<Longrightarrow> ?xs ! k = length s - k" for k
    by (simp add: rev_nth del: upt_Suc)
  show ?thesis
  proof
    assume "py_rfind s sub = Some i"
    then obtain k where k: "k < Suc (length s)" "occurs_at sub s (?xs ! k)" "i = ?xs ! k"
      and before: "\<forall>j<k. \<not> occurs_at sub s (?xs ! j)"
      by (auto simp: py_rfind_def find_Some_iff simp del: upt_Suc)
    have "\<not> occurs_at sub s j" if "i < j" "j \<le> length s" for j
    proof -
      have "length s - j < k" "?xs ! (length s - j) = j"
        using that k nth by auto
      then show ?thesis using before by metis
    qed
    with k nth show "i \<le> length s \<and> occurs_at sub s i \<and>
        (\<forall>j. i < j \<and> j \<le> length s \<longrightarrow> \<not> occurs_at sub s j)" by auto
  next
    assume r: "i \<le> length s \<and> occurs_at sub s i \<and>
        (\<forall>j. i < j \<and> j \<le> length s \<longrightarrow> \<not> occurs_at sub s j)"
    have "length s - i < Suc (length s)" "?xs ! (length s - i) = i"
      using r nth by auto
    moreover have "\<forall>j < length s - i. \<not> occurs_at sub s (?xs ! j)"
      using r nth by auto
    ultimately show "py_rfind s sub = Some i"
      using r unfolding py_rfind_def find_Some_iff
      by (intro exI [of _ "length s - i"]) (simp del: upt_Suc)
  qed
qed

lemma py_rfind_None_iff: "py_rfind s sub = None \<longleftrightarrow> py_find s sub = None"
  by (auto simp: py_rfind_def py_find_def find_None_iff simp del: upt_Suc)

lemma py_in_iff: "py_in sub s \<longleftrightarrow> (\<exists>i\<le>length s. occurs_at sub s i)"
  by (auto simp: py_in_def py_find_None_iff)

lemma occurs_at_single: "occurs_at [c] s i \<longleftrightarrow> i < length s \<and> s ! i = c"
proof (cases "i < length s")
  case True
  then have "drop i s = s ! i # drop (Suc i) s"
    by (simp add: Cons_nth_drop_Suc)
  with True show ?thesis by (simp add: occurs_at_def)
next
  case False
  then show ?thesis by (simp add: occurs_at_def)
qed

lemma py_in_single [simp]: "py_in [c] s \<longleftrightarrow> c \<in> set s"
  unfolding py_in_iff occurs_at_single in_set_conv_nth by (metis less_imp_le_nat)

lemma py_find_le_rfind:
  "py_find s sub = Some i \<Longrightarrow> py_rfind s sub = Some j \<Longrightarrow> i \<le> j"
  by (meson not_le py_find_Some_iff py_rfind_Some_iff)

subsection \<open>split and join\<close>

lemma py_split_not_Nil [simp]: "py_split s sep \<noteq> []"
  by (subst py_split.simps) (auto split: option.splits)

lemma py_join_Cons: "py_join sep (x # xs) = (if xs = [] then x else x @ sep @ py_join sep xs)"
  by (cases xs) auto

lemma occurs_at_split:
  "occurs_at sub s i \<Longrightarrow> i + length sub \<le> length s \<Longrightarrow>
   s = take i s @ sub @ drop (i + length sub) s"
  unfolding occurs_at_def by (metis append_take_drop_id drop_drop add.commute)

text \<open>Round trip: joining the pieces with the separator gives the string back.\<close>

lemma py_join_py_split: "py_join sep (py_split s sep) = s"
proof (induction s sep rule: py_split.induct)
  case (1 s sep)
  show ?case
  proof (cases "sep = []")
    case True
    then show ?thesis by (simp add: py_split.simps)
  next
    case ne: False
    show ?thesis
    proof (cases "py_find s sep")
      case None
      with ne show ?thesis by (simp add: py_split.simps)
    next
      case (Some i)
      then have occ: "occurs_at sep s i" by (simp add: py_find_Some_iff)
      from occ ne have len: "i + length sep \<le> length s" by (rule occurs_at_len)
      from "1.IH" [OF ne Some]
      have IH: "py_join sep (py_split (drop (i + length sep) s) sep) = drop (i + length sep) s" .
      have "py_split s sep = take i s # py_split (drop (i + length sep) s) sep"
        using ne Some by (simp add: py_split.simps)
      then show ?thesis
        using IH occurs_at_split [OF occ len] by (simp add: py_join_Cons)
    qed
  qed
qed

lemma count_list_take_find:
  "py_find s [c] = Some i \<Longrightarrow> s = take i s @ c # drop (Suc i) s \<and> c \<notin> set (take i s)"
proof -
  assume f: "py_find s [c] = Some i"
  then have "i < length s" "s ! i = c" and none: "\<forall>j<i. s ! j \<noteq> c"
    by (auto simp: py_find_Some_iff occurs_at_single)
  then show ?thesis
    by (auto simp: id_take_nth_drop [symmetric] in_set_conv_nth)
qed

text \<open>Splitting on one character gives one piece more than there are occurrences.\<close>

lemma length_py_split_single: "length (py_split s [c]) = Suc (count_list s c)"
proof (induction s "[c]" rule: py_split.induct)
  case (1 s)
  show ?case
  proof (cases "py_find s [c]")
    case None
    then have "c \<notin> set s"
      using py_in_single [of c s] by (simp add: py_in_def)
    with None show ?thesis by (simp add: py_split.simps)
  next
    case (Some i)
    from count_list_take_find [OF Some]
    have s: "s = take i s @ c # drop (Suc i) s" and nc: "c \<notin> set (take i s)" by auto
    have "count_list s c = Suc (count_list (drop (Suc i) s) c)"
      by (subst s) (simp add: nc)
    with "1" [OF _ Some] Some show ?thesis by (simp add: py_split.simps)
  qed
qed

subsection \<open>strip\<close>

lemma py_strip_Nil_iff: "py_strip s = [] \<longleftrightarrow> (\<forall>c\<in>set s. py_isspace c)"
proof -
  have "(\<forall>x\<in>set (dropWhile py_isspace s). py_isspace x) \<longleftrightarrow> dropWhile py_isspace s = []"
  proof (cases "dropWhile py_isspace s")
    case (Cons x xs)
    then have "\<not> py_isspace x"
      using hd_dropWhile [of py_isspace s] by simp
    with Cons show ?thesis by simp
  qed (auto dest: set_dropWhileD)
  then show ?thesis by (auto simp: py_strip_def dest: set_dropWhileD)
qed

lemma py_strip_prefix: "\<exists>t. dropWhile py_isspace s = py_strip s @ t"
proof -
  let ?d = "dropWhile py_isspace s"
  have "rev ?d = takeWhile py_isspace (rev ?d) @ dropWhile py_isspace (rev ?d)"
    by simp
  then have "?d = py_strip s @ rev (takeWhile py_isspace (rev ?d))"
    unfolding py_strip_def by (metis rev_append rev_rev_ident)
  then show ?thesis by blast
qed

lemma py_strip_hd: "py_strip s \<noteq> [] \<Longrightarrow> \<not> py_isspace (hd (py_strip s))"
proof -
  assume ne: "py_strip s \<noteq> []"
  obtain t where d: "dropWhile py_isspace s = py_strip s @ t"
    using py_strip_prefix by blast
  with ne have "dropWhile py_isspace s \<noteq> []" "hd (dropWhile py_isspace s) = hd (py_strip s)"
    by auto
  then show ?thesis
    using hd_dropWhile [of py_isspace s] by simp
qed

subsection \<open>Dictionaries\<close>

lemma map_of_dict_set [simp]: "map_of (dict_set k v d) = (map_of d)(k \<mapsto> v)"
  by (induction d) (auto simp: fun_eq_iff)

lemma keys_dict_set:
  "map fst (dict_set k v d) = (if k \<in> set (map fst d) then map fst d else map fst d @ [k])"
  by (induction d) force+

lemma distinct_dict_set [simp]:
  "distinct (map fst d) \<Longrightarrow> distinct (map fst (dict_set k v d))"
  by (simp add: keys_dict_set)

lemma set_dict_set: "x \<in> set (dict_set k v d) \<Longrightarrow> x = (k, v) \<or> x \<in> set d"
  by (induction d) (auto split: if_splits)

lemma dom_map_of_dict_set [simp]: "set (map fst (dict_set k v d)) = insert k (set (map fst d))"
  by (auto simp: keys_dict_set)

subsection \<open>for loops that raise\<close>

lemma list_all_dict_set: "list_all P d \<Longrightarrow> P (k, v) \<Longrightarrow> list_all P (dict_set k v d)"
  by (induction k v d rule: dict_set.induct) auto

lemma dict_get_or_empty_prop:
  "list_all (\<lambda>(k, v). Q v) d \<Longrightarrow> Q [] \<Longrightarrow> Q (dict_get_or_empty d k)"
  by (auto simp: dict_get_or_empty_def list_all_iff split: option.splits dest!: map_of_SomeD)

lemma for_each_Inr_iff: "for_each f xs = Inr u \<longleftrightarrow> (\<forall>x\<in>set xs. f x = Inr ())"
  by (induction xs) (auto split: sum.splits)

lemma for_each_Inl: "for_each f xs = Inl e \<Longrightarrow> \<exists>x\<in>set xs. f x = Inl e"
  by (induction xs) (auto split: sum.splits)

lemma for_each_append:
  "for_each f (xs @ ys) = (case for_each f xs of Inl e \<Rightarrow> Inl e | Inr _ \<Rightarrow> for_each f ys)"
  by (induction xs) (auto split: sum.splits)

lemma for_each_Inl_split:
  "for_each f xs = Inl e \<Longrightarrow>
   \<exists>ys x zs. xs = ys @ x # zs \<and> (\<forall>y\<in>set ys. f y = Inr ()) \<and> f x = Inl e"
proof (induction xs)
  case Nil
  then show ?case by simp
next
  case (Cons x xs)
  show ?case
  proof (cases "f x")
    case (Inl e')
    with Cons.prems show ?thesis by (intro exI [of _ "[]"]) auto
  next
    case (Inr u)
    with Cons.prems obtain ys y zs where "xs = ys @ y # zs" "\<forall>y\<in>set ys. f y = Inr ()" "f y = Inl e"
      using Cons.IH by auto
    with Inr show ?thesis by (intro exI [of _ "x # ys"]) auto
  qed
qed

lemma py_strip_infix: "\<exists>p q. s = p @ py_strip s @ q"
proof -
  obtain t where "dropWhile py_isspace s = py_strip s @ t"
    using py_strip_prefix by blast
  then have "s = takeWhile py_isspace s @ py_strip s @ t"
    by (metis takeWhile_dropWhile_id)
  then show ?thesis by blast
qed

lemma set_py_strip: "set (py_strip s) \<subseteq> set s"
  using py_strip_infix [of s] by (metis Un_iff set_append subsetI)

lemma py_strip_not_Nil: "s \<noteq> [] \<Longrightarrow> \<not> py_isspace (hd s) \<Longrightarrow> py_strip s \<noteq> []"
  by (cases s) (auto simp: py_strip_Nil_iff)

lemma occurs_at_append_left:
  "occurs_at sub s i \<Longrightarrow> i + length sub \<le> length s \<Longrightarrow> occurs_at sub (p @ s @ q) (length p + i)"
  by (simp add: occurs_at_def)

lemma py_in_infix: "py_in sub s \<Longrightarrow> py_in sub (p @ s @ q)"
proof -
  assume "py_in sub s"
  then obtain i where i: "i \<le> length s" "occurs_at sub s i" by (auto simp: py_in_iff)
  have len: "i + length sub \<le> length s"
  proof -
    have "length (take (length sub) (drop i s)) = length sub"
      using i(2) by (simp add: occurs_at_def)
    with i(1) show ?thesis by (simp add: min_def split: if_splits)
  qed
  from occurs_at_append_left [OF i(2) len, of p q]
  show "py_in sub (p @ s @ q)"
    using len by (auto simp: py_in_iff intro!: exI [of _ "length p + i"])
qed

lemma py_in_py_strip: "py_in sub (py_strip s) \<Longrightarrow> py_in sub s"
  by (metis py_in_infix py_strip_infix)

lemma py_in_take: "py_in sub (take i s) \<Longrightarrow> py_in sub s"
  by (metis append_Nil append_take_drop_id py_in_infix)

lemma concat_split_keep_nl: "concat (split_keep_nl cur s) = cur @ s"
  by (induction cur s rule: split_keep_nl.induct) auto

lemma concat_py_readlines: "concat (py_readlines text) = py_newlines text"
  by (simp add: py_readlines_def concat_split_keep_nl)

end
