(* ===== verification/PDA_Types.thy ===== *)
theory PDA_Types
  imports PyPrelude
begin

text \<open>
  The data of \<open>src/PDA.py\<close>: its exception classes (lines 2--31) together with the two
  built-in exceptions the source can raise (\<open>ValueError\<close> from unpacking a rule line,
  \<open>IndexError\<close> from \<open>line[0]\<close>, \<open>TypeError\<close> from unpacking a \<open>bool\<close> as an
  automaton in \<open>runPDA\<close>), the rule entries and the nested rules dictionary
  built by \<open>parseFile\<close> (lines 162--188), and the six-tuple
  \<open>PDA = states, sigma, stackSigma, rules, start, accept\<close> (line 199). The flat
  transition mapping of the specification is \<open>transitions\<close>, and
  \<open>map_of_transitions\<close> shows that the nested lookup implements it.
\<close>

section \<open>Exceptions\<close>

text \<open>
  Each constructor is one exception class; its arguments are the data its message names
  (which alphabet, which role a state plays, the offending state or symbol).
\<close>

datatype alphabet_kind = InputAlphabet | StackAlphabet

datatype state_role = StartState | AcceptState | SourceState | DestinationState

datatype pda_error =
    PDAError
  | UndefinedStartStateError
  | UndefinedAcceptStatesError
  | UndefinedAlphabetError alphabet_kind
  | InvalidStateError state_role pystr
  | InvalidSymbolError alphabet_kind pystr
  | EpsilonTransitionError alphabet_kind
  | InputStringError
  | ValueError nat
  | IndexError
  | TypeError

text \<open>\<open>isinstance(e, PDAError)\<close>: the subclasses of \<open>PDAError\<close> (lines 6--27).\<close>

fun is_PDAError :: "pda_error \<Rightarrow> bool" where
  "is_PDAError InputStringError = False"
| "is_PDAError (ValueError _) = False"
| "is_PDAError IndexError = False"
| "is_PDAError TypeError = False"
| "is_PDAError _ = True"

section \<open>Rules and automata\<close>

text \<open>A rule entry, the dict \<open>{"push": pushSymbol, "nextState": destinationState}\<close>.\<close>

record rule_entry =
  push :: pystr
  nextState :: pystr

text \<open>\<open>rules[sourceState][symbol][popSymbol]\<close>: three nested insertion-ordered dicts.\<close>

type_synonym rules_dict = "(pystr, (pystr, (pystr, rule_entry) pydict) pydict) pydict"

record pda =
  states :: "pystr list"
  sigma :: "pystr list"
  stackSigma :: "pystr list"
  rules :: rules_dict
  start :: pystr
  accept :: "pystr list"

text \<open>
  The spellings of the empty symbol. The parser stores every epsilon as \<open>"epsilon"\<close>
  (lines 168--183); the validator accepts either spelling (line 250).
\<close>

definition eps :: pystr where
  "eps = py ''epsilon''"

definition eps_glyph :: pystr where
  "eps_glyph = [949]"

definition epsilon_names :: "pystr list" where
  "epsilon_names = [eps, eps_glyph]"

text \<open>\<open>"None"\<close>, the sentinel of \<open>start\<close> and \<open>currentSection\<close> (lines 64, 70).\<close>

definition none_str :: pystr where
  "none_str = py ''None''"

section \<open>The flat transition relation of the specification\<close>

text \<open>
  The specification describes the rules as one mapping from a key
  \<open>(source, input, pop)\<close> to an entry. \<open>transitions\<close> flattens the nested dicts in
  their iteration order; \<open>flat_source\<close> is the part of one source state.
\<close>

definition flat_source :: "pystr \<Rightarrow> (pystr, (pystr, rule_entry) pydict) pydict \<Rightarrow>
    ((pystr \<times> pystr \<times> pystr) \<times> rule_entry) list" where
  "flat_source s syms = concat (map (\<lambda>(a, pops). map (\<lambda>(z, e). ((s, a, z), e)) pops) syms)"

definition transitions :: "rules_dict \<Rightarrow> ((pystr \<times> pystr \<times> pystr) \<times> rule_entry) list" where
  "transitions R = concat (map (\<lambda>(s, syms). flat_source s syms) R)"

text \<open>
  Every dict of the nested rules has distinct keys: true of every dict Python builds,
  and kept by \<open>dict_set\<close>.
\<close>

definition rules_wf :: "rules_dict \<Rightarrow> bool" where
  "rules_wf R \<longleftrightarrow>
     distinct (map fst R) \<and>
     list_all (\<lambda>(s, syms). distinct (map fst syms) \<and>
                 list_all (\<lambda>(a, pops). distinct (map fst pops)) syms) R"

text \<open>\<open>rules[q][a][z]\<close>, read through the three dicts; \<open>None\<close> where a key is missing.\<close>

definition rule_lookup :: "rules_dict \<Rightarrow> pystr \<Rightarrow> pystr \<Rightarrow> pystr \<Rightarrow> rule_entry option" where
  "rule_lookup R q a z =
     (case map_of R q of None \<Rightarrow> None
      | Some syms \<Rightarrow> (case map_of syms a of None \<Rightarrow> None
                      | Some pops \<Rightarrow> map_of pops z))"

section \<open>Lemmas\<close>

lemma eps_ne_glyph [simp]: "eps \<noteq> eps_glyph" "eps_glyph \<noteq> eps"
  by (simp_all add: eps_def eps_glyph_def py_def)

lemma eps_ne_none [simp]: "eps \<noteq> none_str" "eps_glyph \<noteq> none_str"
  by (simp_all add: eps_def eps_glyph_def none_str_def py_def)

lemma in_epsilon_names [simp]: "x \<in> set epsilon_names \<longleftrightarrow> x = eps \<or> x = eps_glyph"
  by (simp add: epsilon_names_def)

lemma set_flat_source:
  "((s', a, z), e) \<in> set (flat_source s syms) \<longleftrightarrow>
   s' = s \<and> (\<exists>pops. (a, pops) \<in> set syms \<and> (z, e) \<in> set pops)"
  by (auto simp: flat_source_def) force

lemma set_transitions:
  "((s, a, z), e) \<in> set (transitions R) \<longleftrightarrow>
   (\<exists>syms pops. (s, syms) \<in> set R \<and> (a, pops) \<in> set syms \<and> (z, e) \<in> set pops)"
  by (auto simp: transitions_def set_flat_source)

lemma transitions_Cons: "transitions ((s, syms) # R) = flat_source s syms @ transitions R"
  by (simp add: transitions_def)

lemma flat_source_Cons:
  "flat_source s ((a, pops) # syms) = map (\<lambda>(z, e). ((s, a, z), e)) pops @ flat_source s syms"
  by (simp add: flat_source_def)

lemma map_of_flat_pops:
  "map_of (map (\<lambda>(z, e). ((s, a, z), e)) pops) (q, b, y) =
   (if q = s \<and> b = a then map_of pops y else None)"
  by (induction pops) auto

lemma map_of_flat_source:
  "distinct (map fst syms) \<Longrightarrow>
   map_of (flat_source s syms) (q, b, y) =
   (if q = s then (case map_of syms b of None \<Rightarrow> None | Some pops \<Rightarrow> map_of pops y) else None)"
proof (induction syms)
  case Nil
  then show ?case by (simp add: flat_source_def)
next
  case (Cons ap syms)
  obtain a pops where ap: "ap = (a, pops)" by (cases ap)
  have nin: "a \<notin> set (map fst syms)" and d: "distinct (map fst syms)"
    using Cons.prems by (auto simp: ap)
  have na: "map_of syms a = None"
    using nin by (simp add: map_of_eq_None_iff)
  have "map_of (flat_source s (ap # syms)) (q, b, y) =
     (case map_of (map (\<lambda>(z, e). ((s, a, z), e)) pops) (q, b, y) of
        None \<Rightarrow> map_of (flat_source s syms) (q, b, y) | Some v \<Rightarrow> Some v)"
    by (simp only: ap flat_source_Cons map_of_append map_add_def)
  also have "\<dots> = (if q = s then (case map_of (ap # syms) b of None \<Rightarrow> None
                        | Some pops \<Rightarrow> map_of pops y) else None)"
    using na Cons.IH [OF d] by (cases "q = s"; cases "b = a")
      (simp_all add: map_of_flat_pops ap split: option.splits)
  finally show ?case .
qed

text \<open>
  Refinement of the nested dicts by the flat mapping of the specification: where every
  dict has distinct keys, looking a key up level by level is looking it up in the
  flattened list.
\<close>

lemma map_of_transitions:
  "rules_wf R \<Longrightarrow> map_of (transitions R) (q, a, z) = rule_lookup R q a z"
proof (induction R)
  case Nil
  then show ?case by (simp add: transitions_def rule_lookup_def)
next
  case (Cons sp R)
  obtain s syms where sp: "sp = (s, syms)" by (cases sp)
  have wf: "rules_wf R" "s \<notin> set (map fst R)" "distinct (map fst syms)"
    using Cons.prems by (auto simp: rules_wf_def sp)
  have none: "map_of (transitions R) (s, a, z) = None"
    using wf(2) by (force simp: map_of_eq_None_iff set_transitions)
  have split: "map_of (transitions ((s, syms) # R)) (q, a, z) =
     (case map_of (flat_source s syms) (q, a, z) of
        None \<Rightarrow> map_of (transitions R) (q, a, z) | Some v \<Rightarrow> Some v)"
    by (simp only: transitions_Cons map_of_append map_add_def)
  show ?case
  proof (cases "q = s")
    case True
    with split wf(3) none show ?thesis
      by (simp add: map_of_flat_source rule_lookup_def sp split: option.splits)
  next
    case False
    with split Cons.IH wf(1,3) show ?thesis
      by (simp add: map_of_flat_source rule_lookup_def sp)
  qed
qed

end
