(* ===== verification/Validator.thy ===== *)
theory Validator
  imports PDA_Types
begin

text \<open>
  The structural validator \<open>isPDAValid\<close> (\<open>src/PDA.py\<close>, lines 213--276). It either
  returns \<open>True\<close> or raises; the \<open>return False\<close> after each \<open>raise\<close> is dead code.
  The loops over \<open>accept\<close> and over the three levels of \<open>rules\<close> run in list and
  insertion order and stop at the first raise, so the error reported is the one of the
  first offending item. The lemmas characterise acceptance by a declarative predicate
  \<open>pda_wf\<close>, show that the integrity conditions of the specification follow from it,
  pin down the order of the checks, and record where the epsilon checks fall short.
\<close>

section \<open>The checks\<close>

text \<open>The body of the innermost loop, \<open>for popSymbol in rules[sourceState][symbol]\<close> (lines 256--274).\<close>

definition check_pop :: "pda \<Rightarrow> pystr \<Rightarrow> pystr \<times> rule_entry \<Rightarrow> pda_error + unit" where
  "check_pop P symbol pe =
     (let popSymbol = fst pe; e = snd pe in
      if popSymbol \<notin> set (stackSigma P) \<and> popSymbol \<notin> set epsilon_names
        then Inl (InvalidSymbolError StackAlphabet popSymbol)
      else if symbol \<in> set epsilon_names \<and> symbol \<in> set (sigma P)
        then Inl (EpsilonTransitionError StackAlphabet)
      else if push e \<notin> set (stackSigma P) \<and> push e \<notin> set epsilon_names
        then Inl (InvalidSymbolError StackAlphabet (push e))
      else if push e \<in> set epsilon_names \<and> push e \<in> set (stackSigma P)
        then Inl (EpsilonTransitionError StackAlphabet)
      else if nextState e \<notin> set (states P)
        then Inl (InvalidStateError DestinationState (nextState e))
      else Inr ())"

text \<open>The body of \<open>for symbol in rules[sourceState]\<close> (lines 248--274).\<close>

definition check_symbol ::
  "pda \<Rightarrow> pystr \<times> (pystr, rule_entry) pydict \<Rightarrow> pda_error + unit" where
  "check_symbol P sp =
     (let symbol = fst sp in
      if symbol \<notin> set (sigma P) \<and> symbol \<notin> set epsilon_names
        then Inl (InvalidSymbolError InputAlphabet symbol)
      else if symbol \<in> set epsilon_names \<and> symbol \<in> set (sigma P)
        then Inl (EpsilonTransitionError InputAlphabet)
      else for_each (check_pop P symbol) (snd sp))"

text \<open>The body of \<open>for sourceState in rules\<close> (lines 242--274).\<close>

definition check_source ::
  "pda \<Rightarrow> pystr \<times> (pystr, (pystr, rule_entry) pydict) pydict \<Rightarrow> pda_error + unit" where
  "check_source P ss =
     (if fst ss \<notin> set (states P) then Inl (InvalidStateError SourceState (fst ss))
      else for_each (check_symbol P) (snd ss))"

text \<open>The body of \<open>for acceptState in accept\<close> (lines 236--239).\<close>

definition check_accept :: "pda \<Rightarrow> pystr \<Rightarrow> pda_error + unit" where
  "check_accept P a =
     (if a \<notin> set (states P) then Inl (InvalidStateError AcceptState a) else Inr ())"

definition isPDAValid :: "pda \<Rightarrow> pda_error + bool" where
  "isPDAValid P =
     (if sigma P = [] then Inl (UndefinedAlphabetError InputAlphabet)
      else if stackSigma P = [] then Inl (UndefinedAlphabetError StackAlphabet)
      else if start P = none_str then Inl UndefinedStartStateError
      else if start P \<notin> set (states P) then Inl (InvalidStateError StartState (start P))
      else if accept P = [] then Inl UndefinedAcceptStatesError
      else case for_each (check_accept P) (accept P) of
             Inl e \<Rightarrow> Inl e
           | Inr _ \<Rightarrow> (case for_each (check_source P) (rules P) of
                         Inl e \<Rightarrow> Inl e
                       | Inr _ \<Rightarrow> Inr True))"

section \<open>What the validator accepts\<close>

text \<open>
  The declarative form of the checks: the automaton the code accepts. The rules are
  quantified level by level, as the loops visit them.
\<close>

definition pop_ok :: "pda \<Rightarrow> pystr \<times> rule_entry \<Rightarrow> bool" where
  "pop_ok P pe \<longleftrightarrow>
     (fst pe \<in> set (stackSigma P) \<or> fst pe \<in> set epsilon_names) \<and>
     (push (snd pe) \<in> set (stackSigma P) \<or> push (snd pe) \<in> set epsilon_names) \<and>
     \<not> (push (snd pe) \<in> set epsilon_names \<and> push (snd pe) \<in> set (stackSigma P)) \<and>
     nextState (snd pe) \<in> set (states P)"

definition symbol_ok :: "pda \<Rightarrow> pystr \<times> (pystr, rule_entry) pydict \<Rightarrow> bool" where
  "symbol_ok P sp \<longleftrightarrow>
     (fst sp \<in> set (sigma P) \<or> fst sp \<in> set epsilon_names) \<and>
     \<not> (fst sp \<in> set epsilon_names \<and> fst sp \<in> set (sigma P)) \<and>
     list_all (pop_ok P) (snd sp)"

definition source_ok ::
  "pda \<Rightarrow> pystr \<times> (pystr, (pystr, rule_entry) pydict) pydict \<Rightarrow> bool" where
  "source_ok P ss \<longleftrightarrow> fst ss \<in> set (states P) \<and> list_all (symbol_ok P) (snd ss)"

definition pda_wf :: "pda \<Rightarrow> bool" where
  "pda_wf P \<longleftrightarrow>
     sigma P \<noteq> [] \<and> stackSigma P \<noteq> [] \<and> start P \<noteq> none_str \<and>
     start P \<in> set (states P) \<and> accept P \<noteq> [] \<and> set (accept P) \<subseteq> set (states P) \<and>
     list_all (source_ok P) (rules P)"

section \<open>The integrity conditions of the specification\<close>

text \<open>The integrity conditions of the specification (section 3) on one transition.\<close>

definition transition_ok :: "pda \<Rightarrow> (pystr \<times> pystr \<times> pystr) \<times> rule_entry \<Rightarrow> bool" where
  "transition_ok P t \<longleftrightarrow>
     (let (s, a, z) = fst t; e = snd t in
      s \<in> set (states P) \<and>
      (a \<in> set (sigma P) \<or> a \<in> set epsilon_names) \<and>
      (z \<in> set (stackSigma P) \<or> z \<in> set epsilon_names) \<and>
      (push e \<in> set (stackSigma P) \<or> push e \<in> set epsilon_names) \<and>
      nextState e \<in> set (states P))"

section \<open>Lemmas\<close>

lemma check_pop_Inr: "check_pop P a pe = Inr u \<longleftrightarrow> pop_ok P pe \<and> \<not> (a \<in> set epsilon_names \<and> a \<in> set (sigma P))"
  by (auto simp: check_pop_def pop_ok_def Let_def)

lemma check_symbol_Inr: "check_symbol P sp = Inr u \<longleftrightarrow> symbol_ok P sp"
  by (auto simp: check_symbol_def symbol_ok_def Let_def for_each_Inr_iff check_pop_Inr list_all_iff)

lemma check_source_Inr: "check_source P ss = Inr u \<longleftrightarrow> source_ok P ss"
  by (auto simp: check_source_def source_ok_def for_each_Inr_iff check_symbol_Inr list_all_iff)

lemma check_accept_Inr: "check_accept P a = Inr u \<longleftrightarrow> a \<in> set (states P)"
  by (simp add: check_accept_def)

lemmas validator_checks_Inr = check_pop_Inr check_symbol_Inr check_source_Inr check_accept_Inr

lemma isPDAValid_cases: "isPDAValid P = Inr True \<or> (\<exists>e. isPDAValid P = Inl e)"
  by (auto simp: isPDAValid_def split: sum.splits)

text \<open>The errors the loop over the rules can raise.\<close>

lemma check_source_Inl_cases:
  "check_source P ss = Inl e \<Longrightarrow>
   (\<exists>r s. e = InvalidStateError r s) \<or> (\<exists>k s. e = InvalidSymbolError k s) \<or> (\<exists>k. e = EpsilonTransitionError k)"
proof -
  have pop: "check_pop P a pe = Inl e \<Longrightarrow>
      (\<exists>r s. e = InvalidStateError r s) \<or> (\<exists>k s. e = InvalidSymbolError k s) \<or> (\<exists>k. e = EpsilonTransitionError k)"
    for a pe e by (auto simp: check_pop_def Let_def split: if_splits)
  have sym: "check_symbol P sp = Inl e \<Longrightarrow>
      (\<exists>r s. e = InvalidStateError r s) \<or> (\<exists>k s. e = InvalidSymbolError k s) \<or> (\<exists>k. e = EpsilonTransitionError k)"
    for sp e by (auto simp: check_symbol_def Let_def split: if_splits dest!: for_each_Inl pop)
  show "check_source P ss = Inl e \<Longrightarrow> ?thesis"
    by (auto simp: check_source_def split: if_splits dest!: for_each_Inl sym)
qed

lemma for_each_check_accept_error:
  "for_each (check_accept P) xs = Inl e \<Longrightarrow> \<exists>a. e = InvalidStateError AcceptState a"
  by (auto simp: check_accept_def split: if_splits dest!: for_each_Inl)

lemma isPDAValid_Inl_is_PDAError: "isPDAValid P = Inl e \<Longrightarrow> is_PDAError e"
  by (auto simp: isPDAValid_def split: if_splits sum.splits
      dest!: for_each_Inl check_source_Inl_cases for_each_check_accept_error)

text \<open>The generic \<open>PDAError\<close> itself is never raised by the validator, only its subclasses.\<close>

lemma isPDAValid_not_PDAError: "isPDAValid P \<noteq> Inl PDAError"
  by (auto simp: isPDAValid_def split: if_splits sum.splits
      dest!: for_each_Inl check_source_Inl_cases for_each_check_accept_error)

lemma isPDAValid_Inr_iff: "isPDAValid P = Inr b \<longleftrightarrow> b \<and> pda_wf P"
proof -
  have acc: "for_each (check_accept P) (accept P) = Inr () \<longleftrightarrow> set (accept P) \<subseteq> set (states P)"
    by (auto simp: for_each_Inr_iff check_accept_Inr)
  have src: "for_each (check_source P) (rules P) = Inr () \<longleftrightarrow> list_all (source_ok P) (rules P)"
    by (simp add: for_each_Inr_iff check_source_Inr list_all_iff)
  show ?thesis
    using acc src
    by (cases "for_each (check_accept P) (accept P)"; cases "for_each (check_source P) (rules P)")
      (auto simp: isPDAValid_def pda_wf_def)
qed

lemma check_symbol_not_source_error: "check_symbol P sp \<noteq> Inl (InvalidStateError SourceState s)"
proof
  assume a: "check_symbol P sp = Inl (InvalidStateError SourceState s)"
  have "check_pop P x pe \<noteq> Inl (InvalidStateError SourceState s)" for x pe
    by (auto simp: check_pop_def Let_def)
  with a show False
    by (auto simp: check_symbol_def Let_def split: if_splits dest!: for_each_Inl)
qed

lemma check_source_source_error:
  "check_source P ss = Inl (InvalidStateError SourceState s) \<Longrightarrow> fst ss = s \<and> s \<notin> set (states P)"
  by (auto simp: check_source_def check_symbol_not_source_error split: if_splits dest!: for_each_Inl)

lemma check_pop_stack_eps_error:
  "check_pop P a pe = Inl (EpsilonTransitionError StackAlphabet) \<Longrightarrow>
   (a \<in> set epsilon_names \<and> a \<in> set (sigma P)) \<or>
   (push (snd pe) \<in> set epsilon_names \<and> push (snd pe) \<in> set (stackSigma P))"
  by (auto simp: check_pop_def Let_def split: if_splits)

text \<open>C1: the validator accepts exactly the automata that satisfy \<open>pda_wf\<close>.\<close>

theorem isPDAValid_iff_wf: "isPDAValid P = Inr True \<longleftrightarrow> pda_wf P"
  by (simp add: isPDAValid_Inr_iff)

lemma pda_wf_transition_ok:
  "pda_wf P \<Longrightarrow> t \<in> set (transitions (rules P)) \<Longrightarrow> transition_ok P t"
proof -
  assume wf: "pda_wf P" and t: "t \<in> set (transitions (rules P))"
  obtain s a z e where te: "t = ((s, a, z), e)" by (cases t) auto
  from t obtain syms pops where "(s, syms) \<in> set (rules P)" "(a, pops) \<in> set syms" "(z, e) \<in> set pops"
    by (auto simp: te set_transitions)
  with wf show ?thesis
    by (fastforce simp: te pda_wf_def list_all_iff source_ok_def symbol_ok_def pop_ok_def
        transition_ok_def)
qed

text \<open>
  C5: soundness against the specification. An automaton the validator accepts meets the
  integrity conditions of section 3: the start and accept states are declared, and every
  transition has declared source and destination states and declared (or epsilon) input,
  pop and push symbols.
\<close>

theorem isPDAValid_sound:
  "isPDAValid P = Inr True \<Longrightarrow>
   start P \<in> set (states P) \<and> set (accept P) \<subseteq> set (states P) \<and>
   list_all (transition_ok P) (transitions (rules P))"
proof -
  assume "isPDAValid P = Inr True"
  then have wf: "pda_wf P" by (simp add: isPDAValid_Inr_iff)
  then have "list_all (transition_ok P) (transitions (rules P))"
    by (simp add: list_all_iff pda_wf_transition_ok)
  with wf show ?thesis by (simp add: pda_wf_def)
qed

text \<open>C10: \<open>isPDAValid\<close> never returns \<open>False\<close>: it returns \<open>True\<close> or raises.\<close>

theorem isPDAValid_never_False: "isPDAValid P \<noteq> Inr False"
  by (simp add: isPDAValid_Inr_iff)

text \<open>
  C28: \<open>"None"\<close> is the sentinel of an unset start state (lines 70 and 223). The
  validator raises \<open>UndefinedStartStateError\<close> exactly when both alphabets are
  declared and the start state is the string \<open>"None"\<close>, whatever the states are: a
  declared state named \<open>None\<close> can never be the start state.
\<close>

theorem isPDAValid_start_None_iff:
  "isPDAValid P = Inl UndefinedStartStateError \<longleftrightarrow>
   sigma P \<noteq> [] \<and> stackSigma P \<noteq> [] \<and> start P = none_str"
proof
  assume v: "isPDAValid P = Inl UndefinedStartStateError"
  have "for_each (check_accept P) (accept P) \<noteq> Inl UndefinedStartStateError"
    by (auto dest: for_each_check_accept_error)
  moreover have "for_each (check_source P) (rules P) \<noteq> Inl UndefinedStartStateError"
    by (auto dest!: for_each_Inl check_source_Inl_cases)
  ultimately show "sigma P \<noteq> [] \<and> stackSigma P \<noteq> [] \<and> start P = none_str"
    using v by (auto simp: isPDAValid_def split: if_splits sum.splits)
next
  assume "sigma P \<noteq> [] \<and> stackSigma P \<noteq> [] \<and> start P = none_str"
  then show "isPDAValid P = Inl UndefinedStartStateError" by (simp add: isPDAValid_def)
qed

text \<open>
  C11: the order of the checks. When the validator reports an undeclared source state,
  every earlier check passed (both alphabets are non-empty, the start state is set,
  i.e. not \<open>"None"\<close>, and declared, the accept list is non-empty and declared) and the
  state is the first source key of the rules, in insertion order, that fails its check.
\<close>

theorem isPDAValid_source_error:
  "isPDAValid P = Inl (InvalidStateError SourceState s) \<Longrightarrow>
   sigma P \<noteq> [] \<and> stackSigma P \<noteq> [] \<and> start P \<noteq> none_str \<and> start P \<in> set (states P) \<and>
   accept P \<noteq> [] \<and> set (accept P) \<subseteq> set (states P) \<and>
   (\<exists>ys syms zs. rules P = ys @ (s, syms) # zs \<and> list_all (source_ok P) ys \<and>
      s \<notin> set (states P))"
proof -
  assume err: "isPDAValid P = Inl (InvalidStateError SourceState s)"
  then have pre: "sigma P \<noteq> [] \<and> stackSigma P \<noteq> [] \<and> start P \<noteq> none_str \<and>
      start P \<in> set (states P) \<and> accept P \<noteq> []"
    by (auto simp: isPDAValid_def split: if_splits)
  have acc: "for_each (check_accept P) (accept P) = Inr ()"
    using err pre for_each_check_accept_error [of P "accept P"]
    by (cases "for_each (check_accept P) (accept P)") (auto simp: isPDAValid_def)
  then have src: "for_each (check_source P) (rules P) = Inl (InvalidStateError SourceState s)"
    using err pre by (auto simp: isPDAValid_def split: sum.splits)
  from for_each_Inl_split [OF src] obtain ys x zs where
    r: "rules P = ys @ x # zs" and before: "\<forall>y\<in>set ys. check_source P y = Inr ()"
    and x: "check_source P x = Inl (InvalidStateError SourceState s)"
    by blast
  from check_source_source_error [OF x] have "fst x = s" "s \<notin> set (states P)" by auto
  moreover have "list_all (source_ok P) ys"
    using before by (simp add: list_all_iff check_source_Inr)
  moreover have "set (accept P) \<subseteq> set (states P)"
    using acc by (auto simp: for_each_Inr_iff check_accept_Inr)
  ultimately show ?thesis
    using pre r by (intro conjI; (simp; fail)?) (metis prod.collapse)
qed

lemma check_symbol_stack_eps_error:
  "check_symbol P sp = Inl (EpsilonTransitionError StackAlphabet) \<Longrightarrow>
   \<exists>pe\<in>set (snd sp). push (snd pe) \<in> set epsilon_names \<and> push (snd pe) \<in> set (stackSigma P)"
proof -
  assume a: "check_symbol P sp = Inl (EpsilonTransitionError StackAlphabet)"
  then have f: "for_each (check_pop P (fst sp)) (snd sp) = Inl (EpsilonTransitionError StackAlphabet)"
    and nb: "\<not> (fst sp \<in> set epsilon_names \<and> fst sp \<in> set (sigma P))"
    by (auto simp: check_symbol_def Let_def split: if_splits)
  from f obtain pe where "pe \<in> set (snd sp)"
    and "check_pop P (fst sp) pe = Inl (EpsilonTransitionError StackAlphabet)"
    by (blast dest: for_each_Inl)
  with nb show ?thesis by (blast dest: check_pop_stack_eps_error)
qed

text \<open>
  C12: a defect of the check at line 260. The check meant to reject a pop symbol declared
  as epsilon in the stack alphabet tests the input symbol against the input alphabet, a
  case line 253 has already rejected; so \<open>EpsilonTransitionError\<close> for the stack alphabet
  is only ever raised for a push symbol, never for a pop symbol.
\<close>

theorem isPDAValid_stack_eps_error_push_only:
  "isPDAValid P = Inl (EpsilonTransitionError StackAlphabet) \<Longrightarrow>
   \<exists>t\<in>set (transitions (rules P)). push (snd t) \<in> set epsilon_names \<and> push (snd t) \<in> set (stackSigma P)"
proof -
  assume err: "isPDAValid P = Inl (EpsilonTransitionError StackAlphabet)"
  have "for_each (check_accept P) (accept P) \<noteq> Inl (EpsilonTransitionError StackAlphabet)"
    using for_each_check_accept_error by blast
  with err have "for_each (check_source P) (rules P) = Inl (EpsilonTransitionError StackAlphabet)"
    by (auto simp: isPDAValid_def split: if_splits sum.splits)
  then obtain ss where ss: "ss \<in> set (rules P)"
    and "check_source P ss = Inl (EpsilonTransitionError StackAlphabet)"
    by (blast dest: for_each_Inl)
  then obtain sp where sp: "sp \<in> set (snd ss)"
    and "check_symbol P sp = Inl (EpsilonTransitionError StackAlphabet)"
    by (auto simp: check_source_def split: if_splits dest!: for_each_Inl)
  then obtain pe where pe: "pe \<in> set (snd sp)"
    and push: "push (snd pe) \<in> set epsilon_names \<and> push (snd pe) \<in> set (stackSigma P)"
    by (blast dest: check_symbol_stack_eps_error)
  have "((fst ss, fst sp, fst pe), snd pe) \<in> set (transitions (rules P))"
    using ss sp pe by (auto simp: set_transitions intro!: exI [of _ "snd ss"] exI [of _ "snd sp"])
  with push show ?thesis by force
qed

end
