(* ===== verification/Engine.thy ===== *)
theory Engine
  imports Validator
begin

text \<open>
  The execution engine of \<open>src/PDA.py\<close>: the stack helpers \<open>isEmpty\<close> and \<open>top\<close>
  (lines 207--211), \<open>isStringValid\<close> (292--297), \<open>getNextState\<close> (299--324),
  \<open>splitIncludingNoSeparator\<close> (328--332), \<open>epsilonClosure\<close> (334--358) and
  \<open>runPDA\<close> (361--403). The Python functions mutate the list \<open>stack\<close> in place and
  return the next state; here they take the stack and return the pair (next state, new
  stack), or the exception they raise: \<open>top\<close> is \<open>stack[-1]\<close>, which raises
  \<open>IndexError\<close> on the empty list, so every function that calls it returns
  \<open>pda_error + _\<close>. The stack's top is the end of the list, as in the source. What
  \<open>runPDA\<close> prints when \<open>printPDASteps\<close> holds is returned as the list of printed lines.
\<close>

section \<open>Stack helpers\<close>

definition isEmpty :: "pystr list \<Rightarrow> bool" where
  "isEmpty stack \<longleftrightarrow> stack = []"

text \<open>\<open>stack[-1]\<close>: \<open>IndexError\<close> on the empty list.\<close>

definition top :: "pystr list \<Rightarrow> pda_error + pystr" where
  "top stack = (if stack = [] then Inl IndexError else Inr (last stack))"

text \<open>\<open>if pushSymbol != "epsilon": stack.append(pushSymbol)\<close>.\<close>

definition push_unless_eps :: "pystr \<Rightarrow> pystr list \<Rightarrow> pystr list" where
  "push_unless_eps pushSymbol stack = (if pushSymbol \<noteq> eps then stack @ [pushSymbol] else stack)"

section \<open>Input symbols\<close>

text \<open>
  With the empty separator the string itself is returned and iterated character by
  character; otherwise it is \<open>string.split(separator)\<close>.
\<close>

definition splitIncludingNoSeparator :: "pystr \<Rightarrow> pystr \<Rightarrow> pystr list" where
  "splitIncludingNoSeparator string separator =
     (if separator = [] then map (\<lambda>c. [c]) string else py_split string separator)"

definition isStringValid :: "pystr \<Rightarrow> pystr \<Rightarrow> pystr list \<Rightarrow> bool" where
  "isStringValid string stringSeparator sigma' \<longleftrightarrow>
     list_all (\<lambda>symbol. symbol \<in> set sigma') (splitIncludingNoSeparator string stringSeparator)"

section \<open>One step on an input symbol\<close>

text \<open>
  The source reads \<open>top(stack)\<close> up to three times in a row on the same stack; it is
  read once here. \<open>stack.pop()\<close> follows a \<open>top(stack)\<close> that returned, so it removes
  the last element.
\<close>

definition getNextState ::
  "pystr \<Rightarrow> pystr \<Rightarrow> rules_dict \<Rightarrow> pystr list \<Rightarrow> pda_error + pystr \<times> pystr list" where
  "getNextState currentState currentSymbol rules' stack =
     (case map_of rules' currentState of
        None \<Rightarrow> Inr (currentState, stack)
      | Some syms \<Rightarrow>
          (case map_of syms currentSymbol of
             None \<Rightarrow> Inr (currentState, stack)
           | Some pops \<Rightarrow>
               (case map_of pops eps of
                  None \<Rightarrow>
                    (if isEmpty stack then Inr (currentState, stack)
                     else
                       (case top stack of
                          Inl err \<Rightarrow> Inl err
                        | Inr z \<Rightarrow>
                            (case map_of pops z of
                               None \<Rightarrow> Inr (currentState, stack)
                             | Some e \<Rightarrow> Inr (nextState e, push_unless_eps (push e) (butlast stack)))))
                | Some e \<Rightarrow> Inr (nextState e, push_unless_eps (push e) stack))))"

section \<open>One epsilon step\<close>

definition epsilonClosure ::
  "pystr \<Rightarrow> rules_dict \<Rightarrow> pystr list \<Rightarrow> pda_error + pystr \<times> pystr list" where
  "epsilonClosure currentState rules' stack =
     (case map_of rules' currentState of
        None \<Rightarrow> Inr (currentState, stack)
      | Some syms \<Rightarrow>
          (case map_of syms eps of
             None \<Rightarrow> Inr (currentState, stack)
           | Some pops \<Rightarrow>
               (if isEmpty stack then
                  (case map_of pops eps of
                     None \<Rightarrow> Inr (currentState, stack)
                   | Some e \<Rightarrow> Inr (nextState e, push_unless_eps (push e) stack))
                else
                  (case top stack of
                     Inl err \<Rightarrow> Inl err
                   | Inr z \<Rightarrow>
                       (case map_of pops z of
                          Some e \<Rightarrow> Inr (nextState e, push_unless_eps (push e) (butlast stack))
                        | None \<Rightarrow>
                            (case map_of pops eps of
                               None \<Rightarrow> Inr (currentState, stack)
                             | Some e \<Rightarrow> Inr (nextState e, push_unless_eps (push e) stack)))))))"

section \<open>The run\<close>

text \<open>
  The \<open>for currentSymbol in ...\<close> loop of \<open>runPDA\<close> (lines 385--394): the final state and
  stack, and the lines it prints (the symbol, then the state \<open>getNextState\<close> returned).
\<close>

fun run_symbols ::
  "rules_dict \<Rightarrow> bool \<Rightarrow> pystr \<times> pystr list \<Rightarrow> pystr list \<Rightarrow>
   pda_error + (pystr \<times> pystr list) \<times> pystr list" where
  "run_symbols rules' printPDASteps c [] = Inr (c, [])"
| "run_symbols rules' printPDASteps (currentState, stack) (currentSymbol # symbols) =
     (case getNextState currentState currentSymbol rules' stack of
        Inl err \<Rightarrow> Inl err
      | Inr (q, stack') \<Rightarrow>
          (case run_symbols rules' printPDASteps (q, stack') symbols of
             Inl err \<Rightarrow> Inl err
           | Inr (c, out) \<Rightarrow> Inr (c, (if printPDASteps then [currentSymbol, q] else []) @ out)))"

definition runPDA :: "pda \<Rightarrow> pystr \<Rightarrow> pystr \<Rightarrow> bool \<Rightarrow> pda_error + bool \<times> pystr list" where
  "runPDA P inputString stringSeparator printPDASteps =
     (case isPDAValid P of
        Inl e \<Rightarrow> Inl e
      | Inr valid \<Rightarrow>
          (if \<not> valid then Inl PDAError
           else
             (let inputString = py_strip inputString in
              if \<not> isStringValid inputString stringSeparator (sigma P) then Inl InputStringError
              else
                (let out0 = (if printPDASteps then [start P] else []) in
                 case epsilonClosure (start P) (rules P) [] of
                   Inl e \<Rightarrow> Inl e
                 | Inr c0 \<Rightarrow>
                     (case run_symbols (rules P) printPDASteps c0
                             (splitIncludingNoSeparator inputString stringSeparator) of
                        Inl e \<Rightarrow> Inl e
                      | Inr (c1, out1) \<Rightarrow>
                          (let stateBeforeEpsilon = fst c1 in
                           case epsilonClosure (fst c1) (rules P) (snd c1) of
                             Inl e \<Rightarrow> Inl e
                           | Inr c2 \<Rightarrow>
                               (let out2 = (if stateBeforeEpsilon \<noteq> fst c2 \<and> printPDASteps
                                            then [fst c2] else [])
                                in Inr (fst c2 \<in> set (accept P), out0 @ out1 @ out2))))))))"

section \<open>The step semantics of the specification\<close>

text \<open>
  Section 4.4 of the specification, over a flat transition mapping \<open>\<delta>\<close> from
  \<open>(state, input or epsilon, pop or epsilon)\<close> to an entry: an input step prefers the
  entry that pops nothing, then the one keyed on the stack's top, and otherwise stays; the
  epsilon step (applied once, not to a fixed point) prefers the entry keyed on the stack's
  top over the one that pops nothing. These steps are total: the specification has no
  error inside a run.
\<close>

definition move :: "rule_entry \<Rightarrow> pystr list \<Rightarrow> pystr \<times> pystr list" where
  "move e stk = (nextState e, push_unless_eps (push e) stk)"

definition step_spec ::
  "(pystr \<times> pystr \<times> pystr \<Rightarrow> rule_entry option) \<Rightarrow> pystr \<Rightarrow> pystr \<Rightarrow> pystr list \<Rightarrow> pystr \<times> pystr list" where
  "step_spec \<delta> q a stk =
     (case \<delta> (q, a, eps) of
        Some e \<Rightarrow> move e stk
      | None \<Rightarrow> (if stk = [] then (q, stk)
                 else case \<delta> (q, a, last stk) of
                        None \<Rightarrow> (q, stk)
                      | Some e \<Rightarrow> move e (butlast stk)))"

definition closure_spec ::
  "(pystr \<times> pystr \<times> pystr \<Rightarrow> rule_entry option) \<Rightarrow> pystr \<Rightarrow> pystr list \<Rightarrow> pystr \<times> pystr list" where
  "closure_spec \<delta> q stk =
     (if stk \<noteq> [] \<and> \<delta> (q, eps, last stk) \<noteq> None
      then move (the (\<delta> (q, eps, last stk))) (butlast stk)
      else case \<delta> (q, eps, eps) of
             None \<Rightarrow> (q, stk)
           | Some e \<Rightarrow> move e stk)"

text \<open>Acceptance: closure, one step per symbol, closure, then the state is an accept state.\<close>

definition accepts_spec ::
  "(pystr \<times> pystr \<times> pystr \<Rightarrow> rule_entry option) \<Rightarrow> pda \<Rightarrow> pystr list \<Rightarrow> bool" where
  "accepts_spec \<delta> P w =
     (let c0 = closure_spec \<delta> (start P) [];
          c1 = fold (\<lambda>a c. step_spec \<delta> (fst c) a (snd c)) w c0;
          c2 = closure_spec \<delta> (fst c1) (snd c1)
      in fst c2 \<in> set (accept P))"

text \<open>The configurations after each input symbol, in order.\<close>

fun steps_spec ::
  "(pystr \<times> pystr \<times> pystr \<Rightarrow> rule_entry option) \<Rightarrow> pystr list \<Rightarrow> pystr \<times> pystr list \<Rightarrow>
   (pystr \<times> pystr list) list" where
  "steps_spec \<delta> [] c = []"
| "steps_spec \<delta> (a # w) c = (let c' = step_spec \<delta> (fst c) a (snd c) in c' # steps_spec \<delta> w c')"

text \<open>
  Tracing (section 4.4): the start state, then for every symbol consumed the symbol
  followed by the resulting state, then the final state once more only if the trailing
  closure changed it.
\<close>

definition trace_spec ::
  "(pystr \<times> pystr \<times> pystr \<Rightarrow> rule_entry option) \<Rightarrow> pda \<Rightarrow> pystr list \<Rightarrow> pystr list" where
  "trace_spec \<delta> P w =
     (let c0 = closure_spec \<delta> (start P) [];
          cs = steps_spec \<delta> w c0;
          c1 = fold (\<lambda>a c. step_spec \<delta> (fst c) a (snd c)) w c0;
          c2 = closure_spec \<delta> (fst c1) (snd c1)
      in start P # concat (map2 (\<lambda>a c. [a, fst c]) w cs) @
         (if fst c1 \<noteq> fst c2 then [fst c2] else []))"

section \<open>Reachable configurations\<close>

text \<open>
  The configurations a run can pass through: the start, then epsilon steps and steps on
  symbols of the input alphabet, in any order (a run of \<open>runPDA\<close> is one such order).
\<close>

inductive reachable_cfg :: "pda \<Rightarrow> pystr \<times> pystr list \<Rightarrow> bool" for P :: pda where
  init: "reachable_cfg P (start P, [])"
| eps_step: "reachable_cfg P (q, stk) \<Longrightarrow> epsilonClosure q (rules P) stk = Inr c \<Longrightarrow>
    reachable_cfg P c"
| sym_step: "reachable_cfg P (q, stk) \<Longrightarrow> a \<in> set (sigma P) \<Longrightarrow>
    getNextState q a (rules P) stk = Inr c \<Longrightarrow> reachable_cfg P c"

text \<open>
  The invariant: the state is declared and every stack symbol is in the stack alphabet.
  It needs the rules to push no \<open>"\<epsilon>"\<close> glyph, which the parser guarantees (it stores
  every epsilon as \<open>"epsilon"\<close>), since the engine only skips the push of \<open>"epsilon"\<close>.
\<close>

definition cfg_ok :: "pda \<Rightarrow> pystr \<times> pystr list \<Rightarrow> bool" where
  "cfg_ok P c \<longleftrightarrow> fst c \<in> set (states P) \<and> set (snd c) \<subseteq> set (stackSigma P)"

definition pushes_normalized :: "rules_dict \<Rightarrow> bool" where
  "pushes_normalized R \<longleftrightarrow> list_all (\<lambda>t. push (snd t) \<noteq> eps_glyph) (transitions R)"

section \<open>Lemmas\<close>

subsection \<open>The nested dicts implement the flat mapping\<close>

text \<open>
  Each call of \<open>top\<close> is guarded by \<open>isEmpty\<close>, so neither step raises, and each
  computes the step of the specification over the nested lookup.
\<close>

lemma getNextState_lookup:
  "getNextState q a R stk = Inr (step_spec (\<lambda>(q', a', z). rule_lookup R q' a' z) q a stk)"
  by (auto simp: getNextState_def step_spec_def rule_lookup_def move_def isEmpty_def top_def
      split: option.splits)

lemma epsilonClosure_lookup:
  "epsilonClosure q R stk = Inr (closure_spec (\<lambda>(q', a', z). rule_lookup R q' a' z) q stk)"
  by (auto simp: epsilonClosure_def closure_spec_def rule_lookup_def move_def isEmpty_def top_def
      split: option.splits)

lemma rule_lookup_transitions:
  "rules_wf R \<Longrightarrow> (\<lambda>(q', a', z). rule_lookup R q' a' z) = map_of (transitions R)"
  by (auto simp: fun_eq_iff map_of_transitions)

text \<open>The loop: the configurations of the specification and the lines it prints.\<close>

lemma run_symbols_spec:
  "run_symbols R pr c w =
   Inr (fold (\<lambda>a c. step_spec (\<lambda>(q', a', z). rule_lookup R q' a' z) (fst c) a (snd c)) w c,
        if pr then concat (map2 (\<lambda>a c. [a, fst c]) w (steps_spec (\<lambda>(q', a', z). rule_lookup R q' a' z) w c))
        else [])"
proof (induction R pr c w rule: run_symbols.induct)
  case (1 R pr c)
  then show ?case by simp
next
  case (2 R pr q stk a w)
  obtain q' stk' where s: "step_spec (\<lambda>(q', a', z). rule_lookup R q' a' z) q a stk = (q', stk')"
    by fastforce
  with "2" show ?case by (simp add: getNextState_lookup Let_def)
qed

text \<open>A valid automaton on a valid input: the verdict and the trace of the specification.\<close>

lemma runPDA_valid:
  assumes "pda_wf P" "isStringValid (py_strip inp) sep (sigma P)"
  shows "runPDA P inp sep pr =
    Inr (accepts_spec (\<lambda>(q', a', z). rule_lookup (rules P) q' a' z) P (splitIncludingNoSeparator (py_strip inp) sep),
         if pr then trace_spec (\<lambda>(q', a', z). rule_lookup (rules P) q' a' z) P
                      (splitIncludingNoSeparator (py_strip inp) sep)
         else [])"
proof -
  from assms(1) have "isPDAValid P = Inr True" by (simp add: isPDAValid_Inr_iff)
  with assms(2) show ?thesis
    by (simp add: runPDA_def Let_def epsilonClosure_lookup run_symbols_spec accepts_spec_def
        trace_spec_def)
qed

lemma runPDA_not_ok:
  "\<not> (pda_wf P \<and> isStringValid (py_strip inp) sep (sigma P)) \<Longrightarrow>
   runPDA P inp sep pr = (case isPDAValid P of Inl e \<Rightarrow> Inl e | Inr _ \<Rightarrow> Inl InputStringError)"
  using isPDAValid_cases [of P] isPDAValid_Inr_iff [of P True]
  by (auto simp: runPDA_def)

text \<open>What \<open>runPDA\<close> returns, read off its outcome: acceptance as computed by the steps.\<close>

lemma runPDA_Inr_iff:
  "(\<exists>out. runPDA P inp sep pr = Inr (b, out)) \<longleftrightarrow>
   pda_wf P \<and> isStringValid (py_strip inp) sep (sigma P) \<and>
   b = accepts_spec (\<lambda>(q', a', z). rule_lookup (rules P) q' a' z) P (splitIncludingNoSeparator (py_strip inp) sep)"
proof (cases "pda_wf P \<and> isStringValid (py_strip inp) sep (sigma P)")
  case True
  then show ?thesis by (auto simp: runPDA_valid)
next
  case False
  then show ?thesis by (auto simp: runPDA_not_ok split: sum.splits)
qed

lemma runPDA_Inl_cases:
  "runPDA P inp sep pr = Inl e \<longleftrightarrow>
   isPDAValid P = Inl e \<or> (pda_wf P \<and> \<not> isStringValid (py_strip inp) sep (sigma P) \<and> e = InputStringError)"
proof (cases "pda_wf P \<and> isStringValid (py_strip inp) sep (sigma P)")
  case True
  then have "isPDAValid P = Inr True" by (simp add: isPDAValid_Inr_iff)
  with True show ?thesis by (simp add: runPDA_valid)
next
  case False
  then show ?thesis
    using isPDAValid_cases [of P] isPDAValid_Inr_iff [of P True]
    by (auto simp: runPDA_not_ok)
qed

text \<open>\<open>"".split(sep)\<close> is \<open>[""]\<close> for a non-empty separator.\<close>

lemma isStringValid_Nil: "isStringValid [] sep sig \<longleftrightarrow> sep = [] \<or> [] \<in> set sig"
proof (cases "sep = []")
  case False
  have "py_find [] sep = None"
    using False occurs_at_len [of sep "[]"] by (auto simp: py_find_None_iff)
  then have "py_split [] sep = [[]]" using False by (simp add: py_split.simps)
  with False show ?thesis by (simp add: isStringValid_def splitIncludingNoSeparator_def)
qed (simp add: isStringValid_def splitIncludingNoSeparator_def)

subsection \<open>Properties of the engine\<close>

text \<open>
  C2: refinement. Where every dict of the rules has distinct keys (as the parser builds
  them), \<open>runPDA\<close> returns a result exactly when the automaton is valid and every input
  symbol is declared, and the result is acceptance under the step semantics of the
  specification over the flat transition mapping.
\<close>

theorem runPDA_refines_spec:
  "rules_wf (rules P) \<Longrightarrow>
   (\<exists>out. runPDA P inp sep pr = Inr (b, out)) \<longleftrightarrow>
   pda_wf P \<and> isStringValid (py_strip inp) sep (sigma P) \<and>
   b = accepts_spec (map_of (transitions (rules P))) P (splitIncludingNoSeparator (py_strip inp) sep)"
  by (simp add: runPDA_Inr_iff rule_lookup_transitions)

text \<open>
  C3: errors. \<open>runPDA\<close> raises the validator's own error for an invalid automaton (never
  the generic \<open>PDAError\<close> of line 371, which is unreachable), and \<open>InputStringError\<close>
  only for a valid automaton and an input with an undeclared symbol.
\<close>

theorem runPDA_errors:
  "runPDA P inp sep pr = Inl e \<Longrightarrow>
   (isPDAValid P = Inl e \<and> e \<noteq> PDAError) \<or>
   (pda_wf P \<and> \<not> isStringValid (py_strip inp) sep (sigma P) \<and> e = InputStringError)"
proof -
  assume "runPDA P inp sep pr = Inl e"
  then have "isPDAValid P = Inl e \<or>
      (pda_wf P \<and> \<not> isStringValid (py_strip inp) sep (sigma P) \<and> e = InputStringError)"
    by (simp add: runPDA_Inl_cases)
  moreover have "isPDAValid P \<noteq> Inl PDAError" by (rule isPDAValid_not_PDAError)
  ultimately show ?thesis by auto
qed

text \<open>
  C4: the absent-rule self-loop. A state with no rule at all for an input symbol stays
  where it is and leaves the stack untouched.
\<close>

theorem getNextState_no_rule:
  "(\<forall>z. rule_lookup R q a z = None) \<Longrightarrow> getNextState q a R stk = Inr (q, stk)"
  by (simp add: getNextState_lookup step_spec_def)

subsection \<open>The configuration invariant\<close>

lemma rule_lookup_in_transitions:
  "rule_lookup R q a z = Some e \<Longrightarrow> ((q, a, z), e) \<in> set (transitions R)"
  by (auto simp: rule_lookup_def set_transitions split: option.splits dest!: map_of_SomeD)

lemma getNextState_cases:
  assumes "getNextState q a R stk = Inr c"
  shows "c = (q, stk) \<or>
    (\<exists>z e stk0. rule_lookup R q a z = Some e \<and> set stk0 \<subseteq> set stk \<and> c = move e stk0)"
proof (cases "rule_lookup R q a eps")
  case (Some e)
  with assms show ?thesis
    by (intro disjI2 exI [of _ eps] exI [of _ e] exI [of _ stk])
      (simp add: getNextState_lookup step_spec_def)
next
  case None
  show ?thesis
  proof (cases "stk \<noteq> [] \<and> rule_lookup R q a (last stk) \<noteq> None")
    case True
    then obtain e where e: "rule_lookup R q a (last stk) = Some e" by auto
    have "set (butlast stk) \<subseteq> set stk" by (auto dest: in_set_butlastD)
    with True e None assms show ?thesis
      by (intro disjI2 exI [of _ "last stk"] exI [of _ e] exI [of _ "butlast stk"])
        (simp add: getNextState_lookup step_spec_def)
  next
    case False
    with None assms show ?thesis
      by (auto simp: getNextState_lookup step_spec_def split: option.splits)
  qed
qed

lemma epsilonClosure_cases:
  assumes "epsilonClosure q R stk = Inr c"
  shows "c = (q, stk) \<or>
    (\<exists>z e stk0. rule_lookup R q eps z = Some e \<and> set stk0 \<subseteq> set stk \<and> c = move e stk0)"
proof (cases "stk \<noteq> [] \<and> rule_lookup R q eps (last stk) \<noteq> None")
  case True
  then obtain e where e: "rule_lookup R q eps (last stk) = Some e" by auto
  have "set (butlast stk) \<subseteq> set stk" by (auto dest: in_set_butlastD)
  with True e assms show ?thesis
    by (intro disjI2 exI [of _ "last stk"] exI [of _ e] exI [of _ "butlast stk"])
      (simp add: epsilonClosure_lookup closure_spec_def)
next
  case False
  show ?thesis
  proof (cases "rule_lookup R q eps eps")
    case None
    with False assms show ?thesis by (auto simp: epsilonClosure_lookup closure_spec_def)
  next
    case (Some e)
    with False assms show ?thesis
      by (intro disjI2 exI [of _ eps] exI [of _ e] exI [of _ stk])
        (auto simp: epsilonClosure_lookup closure_spec_def)
  qed
qed

lemma move_cfg_ok:
  assumes "pda_wf P" "pushes_normalized (rules P)"
    and "rule_lookup (rules P) q a z = Some e" "set stk \<subseteq> set (stackSigma P)"
  shows "cfg_ok P (move e stk)"
proof -
  have t: "((q, a, z), e) \<in> set (transitions (rules P))"
    using assms(3) by (rule rule_lookup_in_transitions)
  with assms(1) have "transition_ok P ((q, a, z), e)"
    by (rule pda_wf_transition_ok)
  moreover have "push e \<noteq> eps_glyph"
    using assms(2) t by (auto simp: pushes_normalized_def list_all_iff)
  ultimately show ?thesis
    using assms(4) by (auto simp: cfg_ok_def move_def push_unless_eps_def transition_ok_def)
qed

lemma cfg_ok_after_move:
  "pda_wf P \<Longrightarrow> pushes_normalized (rules P) \<Longrightarrow> cfg_ok P (q, stk) \<Longrightarrow>
   rule_lookup (rules P) q' a z = Some e \<Longrightarrow> set stk0 \<subseteq> set stk \<Longrightarrow> cfg_ok P (move e stk0)"
  by (rule move_cfg_ok) (auto simp: cfg_ok_def)

text \<open>
  C6: invariant. In every configuration a run of a valid automaton whose rules push no
  \<open>"\<epsilon>"\<close> glyph can reach, the current state is a declared state and every symbol on
  the stack belongs to the stack alphabet (in particular \<open>"epsilon"\<close> is never pushed).
\<close>

theorem reachable_cfg_ok:
  "pda_wf P \<Longrightarrow> pushes_normalized (rules P) \<Longrightarrow> reachable_cfg P c \<Longrightarrow> cfg_ok P c"
proof -
  assume wf: "pda_wf P" and pn: "pushes_normalized (rules P)"
  show "reachable_cfg P c \<Longrightarrow> cfg_ok P c"
  proof (induction rule: reachable_cfg.induct)
    case init
    from wf show ?case by (simp add: cfg_ok_def pda_wf_def)
  next
    case (eps_step q stk c)
    from epsilonClosure_cases [OF eps_step.hyps(2)] show ?case
      by (elim disjE exE conjE) (auto simp: eps_step.IH intro: cfg_ok_after_move [OF wf pn eps_step.IH])
  next
    case (sym_step q stk a c)
    from getNextState_cases [OF sym_step.hyps(3)] show ?case
      by (elim disjE exE conjE) (auto simp: sym_step.IH intro: cfg_ok_after_move [OF wf pn sym_step.IH])
  qed
qed

subsection \<open>Stack height and the printed trace\<close>

lemma length_step_spec:
  "length (snd (step_spec \<delta> q a stk)) \<le> Suc (length stk)"
  by (auto simp: step_spec_def move_def push_unless_eps_def split: option.splits)

lemma length_fold_step_spec:
  "length (snd (fold (\<lambda>a c. step_spec \<delta> (fst c) a (snd c)) w c)) \<le> length (snd c) + length w"
proof (induction w arbitrary: c)
  case Nil
  then show ?case by simp
next
  case (Cons a w)
  from Cons.IH [of "step_spec \<delta> (fst c) a (snd c)"] length_step_spec [of \<delta> "fst c" a "snd c"]
  show ?case by simp
qed

text \<open>
  C7: bounds. Each input symbol grows the stack by at most one, so after the symbols of
  \<open>w\<close> the stack holds at most \<open>length w\<close> more symbols than before; with the two epsilon
  steps of a run, at most \<open>length w + 2\<close>.
\<close>

theorem run_symbols_stack_bound:
  "run_symbols R pr c w = Inr (c', out) \<Longrightarrow> length (snd c') \<le> length (snd c) + length w"
proof -
  assume "run_symbols R pr c w = Inr (c', out)"
  then have "c' = fold (\<lambda>a c. step_spec (\<lambda>(q', a', z). rule_lookup R q' a' z) (fst c) a (snd c)) w c"
    by (simp add: run_symbols_spec)
  then show ?thesis by (simp only: length_fold_step_spec)
qed

text \<open>
  C8: the trace. Without \<open>printPDASteps\<close> nothing is printed; with it, the printed lines
  are the trace of the specification over the flat transition mapping: the start state,
  then each input symbol followed by the state its step leads to, then the final state
  once more only if the trailing epsilon step changed the state.
\<close>

theorem runPDA_trace:
  "rules_wf (rules P) \<Longrightarrow> runPDA P inp sep pr = Inr (b, out) \<Longrightarrow>
   out = (if pr then trace_spec (map_of (transitions (rules P))) P
                      (splitIncludingNoSeparator (py_strip inp) sep)
          else [])"
proof -
  assume wf: "rules_wf (rules P)" and r: "runPDA P inp sep pr = Inr (b, out)"
  then have ok: "pda_wf P" "isStringValid (py_strip inp) sep (sigma P)"
    using runPDA_Inr_iff by blast+
  have d: "(\<lambda>(q', a', z). rule_lookup (rules P) q' a' z) = map_of (transitions (rules P))"
    using wf by (rule rule_lookup_transitions)
  from r runPDA_valid [OF ok, of pr, unfolded d] show ?thesis by simp
qed

text \<open>C9: printing the steps does not change the outcome of a run.\<close>

theorem runPDA_print_independent:
  "map_sum id fst (runPDA P inp sep True) = map_sum id fst (runPDA P inp sep False)"
proof (cases "pda_wf P \<and> isStringValid (py_strip inp) sep (sigma P)")
  case True
  then show ?thesis by (simp add: runPDA_valid)
next
  case False
  then show ?thesis by (simp add: runPDA_not_ok split: sum.splits)
qed

text \<open>
  C27: no step raises. Every call of \<open>top\<close> in \<open>getNextState\<close> and
  \<open>epsilonClosure\<close> is guarded by \<open>isEmpty\<close>, so for any rules and any stack,
  reachable or not, neither step and no run of the loop over the input symbols raises
  \<open>IndexError\<close>.
\<close>

theorem engine_steps_never_raise:
  "(\<exists>c'. getNextState q a R stk = Inr c') \<and> (\<exists>c'. epsilonClosure q R stk = Inr c') \<and>
   (\<exists>r. run_symbols R pr c w = Inr r)"
  by (simp add: getNextState_lookup epsilonClosure_lookup run_symbols_spec)

text \<open>
  C30: the empty input (or one of whitespace only) is rejected with
  \<open>InputStringError\<close> when a separator is given and the empty string is not a declared
  symbol, while with no separator it is a run over zero symbols.
\<close>

theorem runPDA_empty_input_separator:
  "pda_wf P \<Longrightarrow> py_strip inp = [] \<Longrightarrow>
   runPDA P inp sep pr = Inl InputStringError \<longleftrightarrow> sep \<noteq> [] \<and> [] \<notin> set (sigma P)"
proof -
  assume wf: "pda_wf P" and e: "py_strip inp = []"
  from wf have "isPDAValid P = Inr True" by (simp add: isPDAValid_Inr_iff)
  with wf e show ?thesis by (simp add: runPDA_Inl_cases isStringValid_Nil)
qed

end
