(* ===== verification/Preprocess.thy ===== *)
theory Preprocess
  imports PyPrelude
begin

text \<open>
  The comment handling of \<open>parseFile\<close> (\<open>src/PDA.py\<close>): the helpers \<open>isComment\<close>,
  \<open>stringWithoutComments\<close> and \<open>isEmptyLine\<close> (lines 35--44) and the first part of the
  body of \<open>for line in lines\<close> (lines 75--131), which strips whitespace, \<open>#\<close> comments
  and \<open>/* ... */\<close> block comments. Its state is the flag \<open>inMultipleLineComment\<close>.
  \<open>strip_comments\<close> takes the flag and one raw line and returns the new flag and either
  \<open>None\<close> (the loop \<open>continue\<close>s) or the cleaned line handed to the section dispatch.
\<close>

section \<open>Definitions\<close>

definition hash :: pystr where "hash = py ''#''"
definition comment_open :: pystr where "comment_open = py ''/*''"
definition comment_close :: pystr where "comment_close = py ''*/''"

definition isComment :: "pystr \<Rightarrow> bool" where
  "isComment string \<longleftrightarrow> py_startswith string hash"

text \<open>\<open>string[0 : string.index("#")]\<close>; called only when \<open>"#"\<close> occurs in the string.\<close>

definition stringWithoutComments :: "pystr \<Rightarrow> pystr" where
  "stringWithoutComments string =
     (case py_find string hash of None \<Rightarrow> string | Some i \<Rightarrow> take i string)"

definition isEmptyLine :: "pystr \<Rightarrow> bool" where
  "isEmptyLine string \<longleftrightarrow> string = []"

text \<open>Lines 87--116: outside a block comment.\<close>

definition strip_outside :: "pystr \<Rightarrow> bool \<times> pystr option" where
  "strip_outside line =
     (if py_in comment_open line then
        (let startIndex = the (py_find line comment_open);
             (inC, line') =
               (if py_in comment_close line then
                  (let lastStart = the (py_rfind line comment_open);
                       lastEnd = the (py_rfind line comment_close)
                   in if lastStart < lastEnd
                      then (False, py_strip (take startIndex line @ drop (lastEnd + 2) line))
                      else (True, line))
                else (True, py_strip (take startIndex line)))
         in if isEmptyLine line' then (inC, None) else (inC, Some line'))
      else (False, Some line))"

text \<open>Lines 118--131: inside a block comment.\<close>

definition strip_inside :: "pystr \<Rightarrow> bool \<times> pystr option" where
  "strip_inside line =
     (if py_in comment_close line then
        (let endIndex = the (py_rfind line comment_close);
             line' = py_strip (drop (endIndex + 2) line)
         in if isEmptyLine line' then (False, None) else (False, Some line'))
      else (True, None))"

definition strip_comments :: "bool \<Rightarrow> pystr \<Rightarrow> bool \<times> pystr option" where
  "strip_comments inMultipleLineComment line0 =
     (let line = py_strip line0 in
      if isComment line \<or> isEmptyLine line then (inMultipleLineComment, None)
      else
        (let line = (if py_in hash line then py_strip (stringWithoutComments line) else line)
         in if \<not> inMultipleLineComment then strip_outside line else strip_inside line))"

text \<open>The preprocessor over a whole file: the cleaned lines, in order.\<close>

fun clean_lines :: "bool \<Rightarrow> pystr list \<Rightarrow> pystr list" where
  "clean_lines inC [] = []"
| "clean_lines inC (l # ls) =
     (case strip_comments inC l of
        (inC', None) \<Rightarrow> clean_lines inC' ls
      | (inC', Some l') \<Rightarrow> l' # clean_lines inC' ls)"

text \<open>
  A reference for files without block comments (section 6 of the specification): each
  line stripped, cut before its first \<open>#\<close>, stripped again, and kept when non-empty.
\<close>

definition clean_ref :: "pystr list \<Rightarrow> pystr list" where
  "clean_ref ls = filter (\<lambda>l. l \<noteq> []) (map (\<lambda>l. py_strip (takeWhile (\<lambda>c. c \<noteq> 35) (py_strip l))) ls)"

section \<open>Lemmas\<close>

lemma hash_eq: "hash = [35]"
  by (simp add: hash_def py_def)

lemma isComment_iff: "isComment s \<longleftrightarrow> s \<noteq> [] \<and> hd s = 35"
  by (cases s) (auto simp: isComment_def py_startswith_def hash_eq)

text \<open>The line after the \<open>#\<close> truncation of lines 83--85.\<close>

lemma hash_truncated_line:
  assumes ne: "py_strip l \<noteq> []" and nc: "\<not> isComment (py_strip l)"
  defines "line1 \<equiv> (if py_in hash (py_strip l)
                     then py_strip (stringWithoutComments (py_strip l)) else py_strip l)"
  shows "line1 \<noteq> [] \<and> \<not> py_isspace (hd line1) \<and> \<not> py_in hash line1 \<and> set line1 \<subseteq> set l"
proof (cases "py_in hash (py_strip l)")
  case False
  with ne show ?thesis by (simp add: line1_def py_strip_hd set_py_strip)
next
  case True
  let ?L = "py_strip l"
  from True obtain i where i: "py_find ?L hash = Some i"
    by (auto simp: py_in_def)
  then have before: "\<forall>j<i. ?L ! j \<noteq> 35" and "i < length ?L"
    by (auto simp: py_find_Some_iff hash_eq occurs_at_single)
  moreover have "i \<noteq> 0"
  proof
    assume "i = 0"
    with i have "?L ! 0 = 35" by (simp add: py_find_Some_iff hash_eq occurs_at_single)
    with nc ne show False by (simp add: isComment_iff hd_conv_nth)
  qed
  ultimately have t: "take i ?L \<noteq> []" "hd (take i ?L) = hd ?L" "35 \<notin> set (take i ?L)"
    by (auto simp: in_set_conv_nth)
  have sw: "stringWithoutComments ?L = take i ?L"
    by (simp add: stringWithoutComments_def i)
  have "\<not> py_isspace (hd (take i ?L))"
    using t(2) py_strip_hd [OF ne] by simp
  with t have "py_strip (take i ?L) \<noteq> []"
    by (simp add: py_strip_not_Nil)
  moreover have "set (py_strip (take i ?L)) \<subseteq> set l"
    using set_py_strip [of "take i ?L"] set_take_subset [of i ?L] set_py_strip [of l] by blast
  ultimately show ?thesis
    using True t(3) set_py_strip [of "take i ?L"] py_strip_hd [of "take i ?L"]
    by (auto simp: line1_def sw hash_eq)
qed

lemma strip_outside_Some:
  "strip_outside line = (b, Some l') \<Longrightarrow>
   set l' \<subseteq> set line \<and> (l' = line \<or> l' \<noteq> [] \<and> \<not> py_isspace (hd l'))"
  unfolding strip_outside_def Let_def isEmptyLine_def
  by (auto split: if_splits prod.splits simp: py_strip_hd
      dest!: set_py_strip [THEN subsetD] in_set_takeD in_set_dropD)

lemma strip_inside_Some:
  "strip_inside line = (b, Some l') \<Longrightarrow>
   l' \<noteq> [] \<and> set l' \<subseteq> set line \<and> \<not> py_isspace (hd l')"
  unfolding strip_inside_def Let_def isEmptyLine_def
  by (auto split: if_splits simp: py_strip_hd dest!: set_py_strip [THEN subsetD] in_set_dropD)

lemma strip_comments_Some_cases:
  "strip_comments b l = (b', Some l') \<Longrightarrow>
   \<exists>line1. line1 \<noteq> [] \<and> \<not> py_isspace (hd line1) \<and> \<not> py_in hash line1 \<and> set line1 \<subseteq> set l \<and>
     set l' \<subseteq> set line1 \<and> (l' = line1 \<or> l' \<noteq> [] \<and> \<not> py_isspace (hd l'))"
proof -
  assume r: "strip_comments b l = (b', Some l')"
  then have ne: "py_strip l \<noteq> []" and nc: "\<not> isComment (py_strip l)"
    by (auto simp: strip_comments_def isEmptyLine_def Let_def split: if_splits)
  define line1 where "line1 = (if py_in hash (py_strip l)
                     then py_strip (stringWithoutComments (py_strip l)) else py_strip l)"
  have l1: "line1 \<noteq> [] \<and> \<not> py_isspace (hd line1) \<and> \<not> py_in hash line1 \<and> set line1 \<subseteq> set l"
    using hash_truncated_line [OF ne nc] by (simp add: line1_def)
  have "(if \<not> b then strip_outside line1 else strip_inside line1) = (b', Some l')"
    using r ne nc unfolding strip_comments_def line1_def Let_def isEmptyLine_def
    by (simp split del: if_split)
  then have "set l' \<subseteq> set line1 \<and> (l' = line1 \<or> l' \<noteq> [] \<and> \<not> py_isspace (hd l'))"
    by (auto split: if_splits dest: strip_outside_Some strip_inside_Some)
  with l1 show ?thesis by blast
qed

lemma strip_comments_Some_nonempty: "strip_comments b l = (b', Some l') \<Longrightarrow> l' \<noteq> []"
  by (drule strip_comments_Some_cases) blast

lemma strip_comments_Some_clean:
  "strip_comments b l = (b', Some l') \<Longrightarrow> l' \<noteq> [] \<and> \<not> py_isspace (hd l') \<and> 35 \<notin> set l'"
proof -
  assume "strip_comments b l = (b', Some l')"
  from strip_comments_Some_cases [OF this] obtain line1 where
    l1: "line1 \<noteq> [] \<and> \<not> py_isspace (hd line1) \<and> \<not> py_in hash line1"
    and l': "set l' \<subseteq> set line1 \<and> (l' = line1 \<or> l' \<noteq> [] \<and> \<not> py_isspace (hd l'))"
    by blast
  then have "35 \<notin> set l'" by (auto simp: hash_eq)
  with l1 l' show ?thesis by auto
qed

text \<open>
  C13: safety of the hand-over to the parser. Every line the preprocessor passes on is
  non-empty, starts with a non-space character and contains no \<open>#\<close>; so \<open>line[0]\<close>
  at line 133 never raises \<open>IndexError\<close>.
\<close>

theorem strip_comments_Some:
  "strip_comments b l = (b', Some l') \<Longrightarrow> l' \<noteq> [] \<and> \<not> py_isspace (hd l') \<and> \<not> py_in hash l'"
  by (drule strip_comments_Some_clean) (simp add: hash_eq)

lemma no_hash_not_comment: "\<not> py_in hash l \<Longrightarrow> \<not> isComment (py_strip l)"
  using set_py_strip [of l] by (auto simp: isComment_iff hash_eq dest!: hd_in_set)

lemma strip_comments_no_hash:
  "\<not> py_in hash l \<Longrightarrow> py_strip l \<noteq> [] \<Longrightarrow>
   strip_comments b l = (if \<not> b then strip_outside (py_strip l) else strip_inside (py_strip l))"
  using no_hash_not_comment [of l] py_in_py_strip [of hash l]
  by (auto simp: strip_comments_def isEmptyLine_def Let_def)

text \<open>
  C14: inside a block comment, a line with no \<open>*/\<close> is dropped and the comment stays
  open.
\<close>

theorem strip_comments_inside_dropped:
  "\<not> py_in comment_close l \<Longrightarrow> strip_comments True l = (True, None)"
proof -
  assume nc: "\<not> py_in comment_close l"
  let ?L = "py_strip l"
  have n1: "\<not> py_in comment_close ?L" using nc py_in_py_strip by blast
  have "\<not> py_in comment_close (stringWithoutComments ?L)"
  proof (cases "py_find ?L hash")
    case None
    with n1 show ?thesis by (simp add: stringWithoutComments_def)
  next
    case (Some i)
    with n1 show ?thesis by (auto simp: stringWithoutComments_def dest: py_in_take)
  qed
  then have n2: "\<not> py_in comment_close (py_strip (stringWithoutComments ?L))"
    using py_in_py_strip by blast
  have "strip_inside ?L = (True, None)" "strip_inside (py_strip (stringWithoutComments ?L)) = (True, None)"
    using n1 n2 by (simp_all add: strip_inside_def)
  then show ?thesis
    by (simp add: strip_comments_def Let_def)
qed

text \<open>
  C15: a defect of lines 96--114. When a line outside a comment holds both markers but
  its last \<open>/*\<close> comes after its last \<open>*/\<close>, the code opens a block comment yet hands
  the whole line, comment text included, to the parser; the specification keeps only the
  text before \<open>/*\<close>.
\<close>

theorem strip_comments_unclosed_opener:
  "\<not> py_in hash l \<Longrightarrow> py_strip l = l \<Longrightarrow> l \<noteq> [] \<Longrightarrow>
   py_in comment_open l \<Longrightarrow> py_in comment_close l \<Longrightarrow>
   \<not> the (py_rfind l comment_open) < the (py_rfind l comment_close) \<Longrightarrow>
   strip_comments False l = (True, Some l)"
  by (simp add: strip_comments_no_hash strip_outside_def isEmptyLine_def Let_def)

lemma py_strip_idem: "py_strip (py_strip s) = py_strip s"
proof -
  define t where "t = dropWhile py_isspace s"
  define u where "u = dropWhile py_isspace (rev t)"
  have ps: "py_strip s = rev u" by (simp add: py_strip_def t_def u_def)
  have ht: "t = [] \<or> \<not> py_isspace (hd t)" unfolding t_def
    by (metis dropWhile_eq_Nil_conv hd_dropWhile)
  have hu: "u = [] \<or> \<not> py_isspace (hd u)" unfolding u_def
    by (metis dropWhile_eq_Nil_conv hd_dropWhile)
  have lu: "u \<noteq> [] \<Longrightarrow> last u = hd t"
  proof -
    assume ne: "u \<noteq> []"
    have e: "takeWhile py_isspace (rev t) @ u = rev t" by (simp add: u_def)
    with ne have "t \<noteq> []" by auto
    from arg_cong [OF e, of last] ne have "last u = last (rev t)" by simp
    with \<open>t \<noteq> []\<close> show "last u = hd t" by (simp add: last_rev)
  qed
  moreover have "t = [] \<Longrightarrow> u = []" by (simp add: u_def)
  ultimately have "rev u = [] \<or> \<not> py_isspace (hd (rev u))"
    using ht by (cases "u = []") (auto simp: hd_rev)
  then have "dropWhile py_isspace (rev u) = rev u" by (auto simp: dropWhile_eq_self_iff)
  moreover have "dropWhile py_isspace u = u" using hu by (auto simp: dropWhile_eq_self_iff)
  ultimately have "py_strip (rev u) = rev u" by (simp add: py_strip_def)
  then show ?thesis by (simp only: ps)
qed

lemma stringWithoutComments_takeWhile:
  "stringWithoutComments s = takeWhile (\<lambda>c. c \<noteq> 35) s"
proof (cases "py_find s hash")
  case None
  have "35 \<notin> set s"
  proof
    assume "35 \<in> set s"
    then obtain i where i: "i < length s" "s ! i = 35" by (auto simp: in_set_conv_nth)
    from None i(1) have "\<not> occurs_at hash s i" by (simp add: py_find_None_iff)
    with i show False by (simp add: hash_eq occurs_at_single)
  qed
  then have tw: "takeWhile (\<lambda>c. c \<noteq> 35) s = s" by (simp only: takeWhile_eq_all_conv) blast
  show ?thesis by (simp only: stringWithoutComments_def None option.case tw)
next
  case (Some i)
  then have "i < length s" "s ! i = 35" "\<forall>j<i. s ! j \<noteq> 35"
    by (auto simp: py_find_Some_iff hash_eq occurs_at_single)
  then have "takeWhile (\<lambda>c. c \<noteq> 35) s = take i s"
    by (intro takeWhile_eq_take_P_nth) auto
  with Some show ?thesis by (simp add: stringWithoutComments_def)
qed

text \<open>One line of a file without block comments, against the reference.\<close>

lemma strip_comments_no_block:
  assumes "\<not> py_in comment_open l"
  shows "strip_comments False l =
     (False, if py_strip (takeWhile (\<lambda>c. c \<noteq> 35) (py_strip l)) = [] then None
             else Some (py_strip (takeWhile (\<lambda>c. c \<noteq> 35) (py_strip l))))"
proof -
  let ?L = "py_strip l"
  let ?r = "py_strip (takeWhile (\<lambda>c. c \<noteq> 35) ?L)"
  show ?thesis
  proof (cases "?L = [] \<or> isComment ?L")
    case True
    then have "takeWhile (\<lambda>c. c \<noteq> 35) ?L = []" by (auto simp: isComment_iff neq_Nil_conv)
    then have "?r = []" by (simp add: py_strip_def)
    with True show ?thesis by (auto simp: strip_comments_def isEmptyLine_def)
  next
    case False
    then have ne: "?L \<noteq> []" and nc: "\<not> isComment ?L" by auto
    define line1 where "line1 = (if py_in hash ?L then py_strip (stringWithoutComments ?L) else ?L)"
    have l1: "line1 \<noteq> []" using hash_truncated_line [OF ne nc] by (simp add: line1_def)
    have r: "line1 = ?r"
    proof (cases "py_in hash ?L")
      case True
      then show ?thesis by (simp add: line1_def stringWithoutComments_takeWhile)
    next
      case False
      then have "35 \<notin> set ?L" by (simp add: hash_eq)
      then have tw: "takeWhile (\<lambda>c. c \<noteq> 35) ?L = ?L" by (simp only: takeWhile_eq_all_conv) blast
      have "line1 = ?L" using False by (simp add: line1_def)
      then show ?thesis by (simp only: tw py_strip_idem)
    qed
    have "\<not> py_in comment_open line1"
      using assms by (auto simp: line1_def stringWithoutComments_def split: option.splits
          dest!: py_in_py_strip py_in_take)
    then have "strip_outside line1 = (False, Some line1)" by (simp add: strip_outside_def)
    moreover have "strip_comments False l = strip_outside line1"
      using ne nc unfolding strip_comments_def line1_def Let_def isEmptyLine_def by simp
    ultimately show ?thesis using l1 r by simp
  qed
qed

text \<open>
  C29: equivalence with the reference. On a file with no \<open>/*\<close>, the lines the
  preprocessor hands to the parser are those of \<open>clean_ref\<close>: every line stripped, cut
  before its first \<open>#\<close>, stripped again, and dropped when empty.
\<close>

theorem clean_lines_ref:
  "list_all (\<lambda>l. \<not> py_in comment_open l) ls \<Longrightarrow> clean_lines False ls = clean_ref ls"
proof (induction ls)
  case Nil
  then show ?case by (simp add: clean_ref_def)
next
  case (Cons l ls)
  then have h: "\<not> py_in comment_open l" and t: "clean_lines False ls = clean_ref ls" by simp_all
  show ?case
    using strip_comments_no_block [OF h] t by (simp add: clean_ref_def)
qed

end
