(* ===== verification/Utf8.thy ===== *)
theory Utf8
  imports PyPrelude
begin

text \<open>
  \<open>fixUtf8Corruption\<close> (\<open>src/PDA.py\<close>, lines 46--60):
  \<open>s.encode("latin1").decode("utf-8")\<close>, or \<open>s\<close> itself when either step raises.
  Latin-1 encoding succeeds exactly when every code point is below 256 and maps each
  to the byte of that value; \<open>utf8_decode\<close> is Python's strict UTF-8 decoder
  (RFC 3629: no overlong forms, no surrogates, nothing above U+10FFFF), so it fails
  exactly where Python raises \<open>UnicodeDecodeError\<close>. \<open>utf8_encode\<close> is the encoder the
  text was written with; the theorems show that the repair undoes the Latin-1 misreading
  of any valid text (C16), and that it changes a string only into the unique text whose
  UTF-8 bytes the string spells (C17).
\<close>

section \<open>Definitions\<close>

definition is_cont :: "nat \<Rightarrow> bool" where
  "is_cont b \<longleftrightarrow> 128 \<le> b \<and> b < 192"

fun utf8_decode :: "nat list \<Rightarrow> pystr option" where
  "utf8_decode [] = Some []"
| "utf8_decode (b # bs) =
     (if b < 128 then map_option (Cons b) (utf8_decode bs)
      else if 194 \<le> b \<and> b < 224 then
        (case bs of
           b1 # r \<Rightarrow>
             if is_cont b1 then map_option (Cons ((b - 192) * 64 + (b1 - 128))) (utf8_decode r)
             else None
         | [] \<Rightarrow> None)
      else if 224 \<le> b \<and> b < 240 then
        (case bs of
           b1 # b2 # r \<Rightarrow>
             if is_cont b1 \<and> is_cont b2 \<and> (b = 224 \<longrightarrow> 160 \<le> b1) \<and> (b = 237 \<longrightarrow> b1 < 160)
             then map_option (Cons ((b - 224) * 4096 + (b1 - 128) * 64 + (b2 - 128))) (utf8_decode r)
             else None
         | _ \<Rightarrow> None)
      else if 240 \<le> b \<and> b < 245 then
        (case bs of
           b1 # b2 # b3 # r \<Rightarrow>
             if is_cont b1 \<and> is_cont b2 \<and> is_cont b3 \<and> (b = 240 \<longrightarrow> 144 \<le> b1) \<and> (b = 244 \<longrightarrow> b1 < 144)
             then map_option (Cons ((b - 240) * 262144 + (b1 - 128) * 4096 + (b2 - 128) * 64 + (b3 - 128)))
                    (utf8_decode r)
             else None
         | _ \<Rightarrow> None)
      else None)"

definition latin1_encode :: "pystr \<Rightarrow> nat list option" where
  "latin1_encode s = (if list_all (\<lambda>c. c < 256) s then Some s else None)"

definition fixUtf8Corruption :: "pystr \<Rightarrow> pystr" where
  "fixUtf8Corruption possiblyCorruptedString =
     (case latin1_encode possiblyCorruptedString of
        None \<Rightarrow> possiblyCorruptedString
      | Some bytes \<Rightarrow> (case utf8_decode bytes of
                         None \<Rightarrow> possiblyCorruptedString
                       | Some s \<Rightarrow> s))"

text \<open>The UTF-8 encoder, \<open>str.encode("utf-8")\<close>, on one code point and on a string.\<close>

definition utf8_encode_cp :: "nat \<Rightarrow> nat list" where
  "utf8_encode_cp c =
     (if c < 128 then [c]
      else if c < 2048 then [192 + c div 64, 128 + c mod 64]
      else if c < 65536 then [224 + c div 4096, 128 + c div 64 mod 64, 128 + c mod 64]
      else [240 + c div 262144, 128 + c div 4096 mod 64, 128 + c div 64 mod 64, 128 + c mod 64])"

definition utf8_encode :: "pystr \<Rightarrow> nat list" where
  "utf8_encode s = concat (map utf8_encode_cp s)"

definition valid_cp :: "nat \<Rightarrow> bool" where
  "valid_cp c \<longleftrightarrow> c < 1114112 \<and> \<not> (55296 \<le> c \<and> c < 57344)"

section \<open>Lemmas\<close>

lemma cp_digits3: "c div 4096 * 4096 + c div 64 mod 64 * 64 + c mod 64 = (c::nat)"
proof -
  have "c div 4096 = c div 64 div 64" by (simp add: div_mult2_eq)
  moreover have "c div 64 div 64 * 64 + c div 64 mod 64 = c div 64" by simp
  moreover have "c div 64 * 64 + c mod 64 = c" by simp
  ultimately show ?thesis by linarith
qed

lemma cp_digits4:
  "c div 262144 * 262144 + c div 4096 mod 64 * 4096 + c div 64 mod 64 * 64 + c mod 64 = (c::nat)"
proof -
  have "c div 262144 = c div 4096 div 64" by (simp add: div_mult2_eq)
  moreover have "c div 4096 div 64 * 64 + c div 4096 mod 64 = c div 4096" by simp
  ultimately show ?thesis using cp_digits3 [of c] by linarith
qed

lemma utf8_decode_encode_cp:
  assumes "valid_cp c"
  shows "utf8_decode (utf8_encode_cp c @ r) = map_option (Cons c) (utf8_decode r)"
proof -
  have m: "c div 64 mod 64 < 64" "c mod 64 < 64" "c div 4096 mod 64 < 64" by simp_all
  consider "c < 128" | "128 \<le> c" "c < 2048" | "2048 \<le> c" "c < 65536" | "65536 \<le> c"
    by linarith
  then show ?thesis
  proof cases
    case 1 then show ?thesis by (simp add: utf8_encode_cp_def)
  next
    case 2
    then have "2 \<le> c div 64" "c div 64 < 32" by linarith+
    with 2 show ?thesis
      by (simp add: utf8_encode_cp_def is_cont_def)
  next
    case 3
    note d = cp_digits3 [of c]
    have "c div 4096 < 16" using 3 by linarith
    moreover have "c div 4096 = 0 \<longrightarrow> 32 \<le> c div 64 mod 64" using 3 d m by linarith
    moreover have "c div 4096 = 13 \<longrightarrow> c div 64 mod 64 < 32" using 3 d m assms
      unfolding valid_cp_def by linarith
    ultimately show ?thesis using 3 d
      by (simp add: utf8_encode_cp_def is_cont_def)
  next
    case 4
    note d = cp_digits4 [of c]
    have "c div 262144 < 5" using assms d m
      unfolding valid_cp_def by linarith
    moreover have "c div 262144 = 0 \<longrightarrow> 16 \<le> c div 4096 mod 64" using 4 d m by linarith
    moreover have "c div 262144 = 4 \<longrightarrow> c div 4096 mod 64 < 16" using d m assms
      unfolding valid_cp_def by linarith
    ultimately show ?thesis using 4 d
      by (simp add: utf8_encode_cp_def is_cont_def)
  qed
qed

lemma digits64: "(y::nat) < 64 \<Longrightarrow> (x * 64 + y) div 64 = x \<and> (x * 64 + y) mod 64 = y"
  by simp

lemma encode_cp2:
  assumes "2 \<le> x" "x < 32" "y < 64" "c = x * 64 + y"
  shows "valid_cp c \<and> utf8_encode_cp c = [192 + x, 128 + y]"
proof -
  have "c div 64 = x" "c mod 64 = y" using digits64 [OF assms(3), of x] assms(4) by simp_all
  moreover have "\<not> c < 128" "c < 2048" using assms by linarith+
  ultimately show ?thesis by (simp add: utf8_encode_cp_def valid_cp_def)
qed

lemma encode_cp3:
  assumes "x < 16" "y < 64" "z < 64" "x = 0 \<longrightarrow> 32 \<le> y" "x = 13 \<longrightarrow> y < 32"
    "c = (x * 64 + y) * 64 + z"
  shows "valid_cp c \<and> utf8_encode_cp c = [224 + x, 128 + y, 128 + z]"
proof -
  have "c div 64 = x * 64 + y \<and> c mod 64 = z" unfolding assms(6) by (rule digits64 [OF assms(3)])
  then have d: "c div 64 = x * 64 + y" "c mod 64 = z" by simp_all
  then have "c div 64 mod 64 = y" "c div 4096 = x"
    using digits64 [OF assms(2), of x] by (simp_all add: div_mult2_eq [of c 64 64, simplified])
  moreover have "\<not> c < 128" "\<not> c < 2048" "c < 65536" "\<not> (55296 \<le> c \<and> c < 57344)"
    using assms by (cases "x = 0"; cases "x = 13"; simp; linarith)+
  ultimately show ?thesis using d by (simp add: utf8_encode_cp_def valid_cp_def)
qed

lemma encode_cp4:
  assumes "x < 5" "y < 64" "z < 64" "w < 64" "x = 0 \<longrightarrow> 16 \<le> y" "x = 4 \<longrightarrow> y < 16"
    "c = ((x * 64 + y) * 64 + z) * 64 + w"
  shows "valid_cp c \<and> utf8_encode_cp c = [240 + x, 128 + y, 128 + z, 128 + w]"
proof -
  have "c div 64 = (x * 64 + y) * 64 + z \<and> c mod 64 = w"
    unfolding assms(7) by (rule digits64 [OF assms(4)])
  then have d: "c div 64 = (x * 64 + y) * 64 + z" "c mod 64 = w" by simp_all
  then have d2: "c div 4096 = x * 64 + y" "c div 64 mod 64 = z"
    using digits64 [OF assms(3), of "x * 64 + y"] by (simp_all add: div_mult2_eq [of c 64 64, simplified])
  then have "c div 4096 mod 64 = y" "c div 262144 = x"
    using digits64 [OF assms(2), of x] by (simp_all add: div_mult2_eq [of c 4096 64, simplified])
  moreover have "\<not> c < 128" "\<not> c < 2048" "\<not> c < 65536" "c < 1114112"
    using assms by (cases "x = 0"; cases "x = 4"; simp; linarith)+
  ultimately show ?thesis using d d2 by (simp add: utf8_encode_cp_def valid_cp_def)
qed

lemma encode_cp2_bytes:
  assumes "194 \<le> b" "b < 224" "is_cont b1"
  shows "valid_cp ((b - 192) * 64 + (b1 - 128)) \<and>
         utf8_encode_cp ((b - 192) * 64 + (b1 - 128)) = [b, b1]"
proof -
  have h: "2 \<le> b - 192" "b - 192 < 32" "b1 - 128 < 64" using assms by (auto simp: is_cont_def)
  have e: "[192 + (b - 192), 128 + (b1 - 128)] = [b, b1]" using assms by (auto simp: is_cont_def)
  show ?thesis using encode_cp2 [OF h refl] unfolding e .
qed

lemma encode_cp3_bytes:
  assumes "224 \<le> b" "b < 240" "is_cont b1" "is_cont b2"
    "b = 224 \<longrightarrow> 160 \<le> b1" "b = 237 \<longrightarrow> b1 < 160"
  shows "valid_cp ((b - 224) * 4096 + (b1 - 128) * 64 + (b2 - 128)) \<and>
         utf8_encode_cp ((b - 224) * 4096 + (b1 - 128) * 64 + (b2 - 128)) = [b, b1, b2]"
proof -
  have h: "b - 224 < 16" "b1 - 128 < 64" "b2 - 128 < 64" "b - 224 = 0 \<longrightarrow> 32 \<le> b1 - 128"
    "b - 224 = 13 \<longrightarrow> b1 - 128 < 32" using assms by (auto simp: is_cont_def)
  have e: "[224 + (b - 224), 128 + (b1 - 128), 128 + (b2 - 128)] = [b, b1, b2]"
    using assms by (auto simp: is_cont_def)
  have c: "(b - 224) * 4096 + (b1 - 128) * 64 + (b2 - 128) = ((b - 224) * 64 + (b1 - 128)) * 64 + (b2 - 128)"
    by simp
  show ?thesis using encode_cp3 [OF h c] unfolding e .
qed

lemma encode_cp4_bytes:
  assumes "240 \<le> b" "b < 245" "is_cont b1" "is_cont b2" "is_cont b3"
    "b = 240 \<longrightarrow> 144 \<le> b1" "b = 244 \<longrightarrow> b1 < 144"
  shows "valid_cp ((b - 240) * 262144 + (b1 - 128) * 4096 + (b2 - 128) * 64 + (b3 - 128)) \<and>
         utf8_encode_cp ((b - 240) * 262144 + (b1 - 128) * 4096 + (b2 - 128) * 64 + (b3 - 128)) =
           [b, b1, b2, b3]"
proof -
  have h: "b - 240 < 5" "b1 - 128 < 64" "b2 - 128 < 64" "b3 - 128 < 64"
    "b - 240 = 0 \<longrightarrow> 16 \<le> b1 - 128" "b - 240 = 4 \<longrightarrow> b1 - 128 < 16"
    using assms by (auto simp: is_cont_def)
  have e: "[240 + (b - 240), 128 + (b1 - 128), 128 + (b2 - 128), 128 + (b3 - 128)] = [b, b1, b2, b3]"
    using assms by (auto simp: is_cont_def)
  have c: "(b - 240) * 262144 + (b1 - 128) * 4096 + (b2 - 128) * 64 + (b3 - 128) =
           (((b - 240) * 64 + (b1 - 128)) * 64 + (b2 - 128)) * 64 + (b3 - 128)"
    by simp
  show ?thesis using encode_cp4 [OF h c] unfolding e .
qed

lemma utf8_encode_Cons: "utf8_encode (c # cs) = utf8_encode_cp c @ utf8_encode cs"
  by (simp add: utf8_encode_def)

lemma utf8_decode_Some:
  "utf8_decode bs = Some cs \<Longrightarrow> list_all valid_cp cs \<and> utf8_encode cs = bs"
proof (induction bs arbitrary: cs rule: utf8_decode.induct)
  case 1
  then show ?case by (simp add: utf8_encode_def)
next
  case (2 b bs)
  show ?case
  proof (cases "b < 128")
    case True
    with "2.prems" "2.IH"(1) show ?thesis
      by (auto simp: utf8_encode_Cons utf8_encode_cp_def valid_cp_def)
  next
    case n1: False
    show ?thesis
    proof (cases "194 \<le> b \<and> b < 224")
      case True
      with n1 "2.prems" obtain b1 r cs' where bs: "bs = b1 # r" and c: "is_cont b1"
        and r: "utf8_decode r = Some cs'" and cs: "cs = ((b - 192) * 64 + (b1 - 128)) # cs'"
        by (auto split: list.splits if_splits)
      with "2.IH"(2) [OF n1 True bs c r] True show ?thesis
        using encode_cp2_bytes [of b b1] by (simp add: utf8_encode_Cons)
    next
      case n2: False
      show ?thesis
      proof (cases "224 \<le> b \<and> b < 240")
        case True
        with n1 n2 "2.prems" obtain b1 b2 r cs' where bs: "bs = b1 # b2 # r"
          and c: "is_cont b1 \<and> is_cont b2 \<and> (b = 224 \<longrightarrow> 160 \<le> b1) \<and> (b = 237 \<longrightarrow> b1 < 160)"
          and r: "utf8_decode r = Some cs'"
          and cs: "cs = ((b - 224) * 4096 + (b1 - 128) * 64 + (b2 - 128)) # cs'"
          by (auto split: list.splits if_splits)
        with "2.IH"(3) [OF n1 n2 True bs refl c r] True show ?thesis
          using encode_cp3_bytes [of b b1 b2] by (simp add: utf8_encode_Cons)
      next
        case n3: False
        with n1 n2 "2.prems" have f: "240 \<le> b \<and> b < 245" by (auto split: if_splits)
        with n1 n2 n3 "2.prems" obtain b1 b2 b3 r cs' where bs: "bs = b1 # b2 # b3 # r"
          and c: "is_cont b1 \<and> is_cont b2 \<and> is_cont b3 \<and> (b = 240 \<longrightarrow> 144 \<le> b1) \<and> (b = 244 \<longrightarrow> b1 < 144)"
          and r: "utf8_decode r = Some cs'"
          and cs: "cs = ((b - 240) * 262144 + (b1 - 128) * 4096 + (b2 - 128) * 64 + (b3 - 128)) # cs'"
          by (auto split: list.splits if_splits)
        with "2.IH"(4) [OF n1 n2 n3 f bs refl refl c r] f show ?thesis
          using encode_cp4_bytes [of b b1 b2 b3] by (simp add: utf8_encode_Cons)
      qed
    qed
  qed
qed

lemma utf8_decode_encode:
  "list_all valid_cp cs \<Longrightarrow> utf8_decode (utf8_encode cs) = Some cs"
  by (induction cs) (simp_all add: utf8_encode_Cons utf8_decode_encode_cp, simp add: utf8_encode_def)

lemma utf8_encode_cp_bytes:
  assumes "valid_cp c"
  shows "list_all (\<lambda>b. b < 256) (utf8_encode_cp c)"
proof -
  have "c < 2048 \<Longrightarrow> c div 64 < 32" "c < 65536 \<Longrightarrow> c div 4096 < 16" "c div 262144 < 5"
    using assms by (simp_all add: div_less_iff_less_mult valid_cp_def)
  moreover have "x mod 64 < 128" for x :: nat
    using mod_less_divisor [of 64 x] by linarith
  ultimately show ?thesis by (auto simp: utf8_encode_cp_def)
qed

lemma utf8_encode_bytes: "list_all valid_cp cs \<Longrightarrow> list_all (\<lambda>b. b < 256) (utf8_encode cs)"
  by (induction cs) (auto simp: utf8_encode_Cons utf8_encode_def dest: utf8_encode_cp_bytes)

section \<open>Properties of the repair\<close>

text \<open>
  C16: round trip. A valid text written as UTF-8 and read back as Latin-1 (the
  corruption the comment of line 51 describes: U+03B5 written as the bytes CE B5 and
  read back as the two characters U+00CE U+00B5) is repaired to the original text.
\<close>

theorem fixUtf8Corruption_repairs:
  "list_all valid_cp s \<Longrightarrow> fixUtf8Corruption (utf8_encode s) = s"
  by (simp add: fixUtf8Corruption_def latin1_encode_def utf8_encode_bytes utf8_decode_encode)

text \<open>
  C17: the repair changes a string only when every code point is below 256 and the
  string is the UTF-8 encoding of the result, a valid text; otherwise it is returned
  unchanged and nothing is raised.
\<close>

theorem fixUtf8Corruption_changed:
  "fixUtf8Corruption s \<noteq> s \<Longrightarrow>
   list_all (\<lambda>c. c < 256) s \<and> list_all valid_cp (fixUtf8Corruption s) \<and>
   utf8_encode (fixUtf8Corruption s) = s"
  by (auto simp: fixUtf8Corruption_def latin1_encode_def split: if_splits option.splits
      dest: utf8_decode_Some)

lemma utf8_decode_ascii: "list_all (\<lambda>c. c < 128) s \<Longrightarrow> utf8_decode s = Some s"
  by (induction s) auto

lemma fixUtf8Corruption_ascii: "list_all (\<lambda>c. c < 128) s \<Longrightarrow> fixUtf8Corruption s = s"
  by (auto simp: fixUtf8Corruption_def latin1_encode_def utf8_decode_ascii list_all_iff)

end
