(* ===== verification/Parser.thy ===== *)
theory Parser
  imports Preprocess Utf8 Validator
begin

text \<open>
  The rest of \<open>parseFile\<close> (\<open>src/PDA.py\<close>, lines 62--205): the section dispatch of
  the cleaned lines (lines 133--195) and the parsing of one rule line (lines 150--188),
  with the loop state of lines 63--73 as the record \<open>parse_state\<close>. The file is given as
  the list of its lines, as \<open>readlines()\<close> returns them. Every raise of the loop is a
  value of \<open>pda_error\<close>: \<open>IndexError\<close> from \<open>line[0]\<close> and \<open>ValueError\<close> from unpacking a
  rule line into five fields; after the loop the tuple is validated by \<open>isPDAValid\<close>.
\<close>

section \<open>Rule lines\<close>

text \<open>
  \<open>if s == "\<epsilon>" or s.lower() == "epsilon": s = "epsilon"\<close> (lines 168--169, 177--178,
  182--183).
\<close>

definition normalize_eps :: "pystr \<Rightarrow> pystr" where
  "normalize_eps s = (if s = eps_glyph \<or> py_lower s = eps then eps else s)"

text \<open>
  The dict writes of lines 162--188: \<open>rules[sourceState] = {}\<close> and
  \<open>rules[sourceState][symbol] = {}\<close> when the key is new, then
  \<open>rules[sourceState][symbol][popSymbol] = {"push": ..., "nextState": ...}\<close>. The
  intermediate \<open>= {}\<close> of line 180 is overwritten by the next line without changing the
  position of the key, so it is one write here. The inner dicts are mutated in place in
  Python; here they are written back, which keeps the order of the keys.
\<close>

definition add_rule ::
  "pystr \<Rightarrow> pystr \<Rightarrow> pystr \<Rightarrow> rule_entry \<Rightarrow> rules_dict \<Rightarrow> rules_dict" where
  "add_rule sourceState symbol popSymbol entry rules' =
     (let rules' = (if sourceState \<in> set (map fst rules') then rules'
                    else dict_set sourceState [] rules');
          syms = dict_get_or_empty rules' sourceState;
          syms = (if symbol \<in> set (map fst syms) then syms else dict_set symbol [] syms);
          pops = dict_set popSymbol entry (dict_get_or_empty syms symbol)
      in dict_set sourceState (dict_set symbol pops syms) rules')"

definition comma :: pystr where "comma = py '',''"

text \<open>
  Lines 150--188. The five fields are cleaned in the order of the source:
  \<open>fixUtf8Corruption\<close> before \<open>strip\<close> for the source and destination states, after it for
  the three symbols. The epsilon normalisation of the symbol happens after
  \<open>rules[sourceState]\<close> is created in the source; it reads no dict, so it is done first here.
\<close>

definition parse_rule :: "pystr \<Rightarrow> rules_dict \<Rightarrow> pda_error + rules_dict" where
  "parse_rule line rules' =
     (let fields = py_split line comma in
      if length fields \<noteq> 5 then Inl (ValueError (length fields))
      else
        (let sourceState = py_strip (fixUtf8Corruption (fields ! 0));
             symbol = fixUtf8Corruption (py_strip (fields ! 1));
             popSymbol = fixUtf8Corruption (py_strip (fields ! 2));
             pushSymbol = fixUtf8Corruption (py_strip (fields ! 3));
             destinationState = py_strip (fixUtf8Corruption (fields ! 4))
         in Inr (add_rule sourceState (normalize_eps symbol) (normalize_eps popSymbol)
                   \<lparr>push = normalize_eps pushSymbol, nextState = destinationState\<rparr> rules')))"

text \<open>A spelling is normalised when it is not the glyph and lowers to \<open>"epsilon"\<close> only if it is \<open>"epsilon"\<close>.\<close>

definition eps_normal :: "pystr \<Rightarrow> bool" where
  "eps_normal s \<longleftrightarrow> s \<noteq> eps_glyph \<and> (py_lower s = eps \<longrightarrow> s = eps)"

definition rules_normalized :: "rules_dict \<Rightarrow> bool" where
  "rules_normalized R \<longleftrightarrow>
     list_all (\<lambda>((s, a, z), e). eps_normal a \<and> eps_normal z \<and> eps_normal (push e)) (transitions R)"

section \<open>The loop over the lines\<close>

record parse_state =
  currentSection :: pystr
  ps_states :: "pystr list"
  ps_sigma :: "pystr list"
  ps_stackSigma :: "pystr list"
  ps_rules :: rules_dict
  ps_start :: pystr
  ps_accept :: "pystr list"
  inMultipleLineComment :: bool

text \<open>Lines 64--73.\<close>

definition parse_init :: parse_state where
  "parse_init = \<lparr>currentSection = none_str, ps_states = [], ps_sigma = [], ps_stackSigma = [],
     ps_rules = [], ps_start = none_str, ps_accept = [], inMultipleLineComment = False\<rparr>"

definition lbracket :: pystr where "lbracket = py ''[''"
definition end_str :: pystr where "end_str = py ''End''"

text \<open>
  Lines 133--195, on a line the comment handling kept. A \<open>[Section]\<close> line sets the
  section to \<open>line[1:-1]\<close>; \<open>"Stack Sigma"\<close> has no \<open>continue\<close> and falls through the
  later tests, none of which holds for it; a section name none of the tests names is
  skipped.
\<close>

definition dispatch_line :: "parse_state \<Rightarrow> pystr \<Rightarrow> pda_error + parse_state" where
  "dispatch_line st line =
     (if line = [] then Inl IndexError
      else if [hd line] = lbracket then Inr (st\<lparr>currentSection := butlast (tl line)\<rparr>)
      else if line = end_str then Inr (st\<lparr>currentSection := none_str\<rparr>)
      else
        (let sec = currentSection st in
         if sec = none_str then Inr st
         else if sec = py ''States'' then Inr (st\<lparr>ps_states := ps_states st @ [line]\<rparr>)
         else if sec = py ''Sigma'' then Inr (st\<lparr>ps_sigma := ps_sigma st @ [line]\<rparr>)
         else
           (let st = (if sec = py ''Stack Sigma''
                      then st\<lparr>ps_stackSigma := ps_stackSigma st @ [line]\<rparr> else st)
            in if sec = py ''Rules'' then
                 (case parse_rule line (ps_rules st) of
                    Inl e \<Rightarrow> Inl e
                  | Inr r \<Rightarrow> Inr (st\<lparr>ps_rules := r\<rparr>))
               else if sec = py ''Start'' then Inr (st\<lparr>ps_start := line\<rparr>)
               else if sec = py ''Accept'' then Inr (st\<lparr>ps_accept := ps_accept st @ [line]\<rparr>)
               else Inr st)))"

text \<open>One iteration of \<open>for line in lines\<close> (lines 74--195).\<close>

definition parse_line :: "parse_state \<Rightarrow> pystr \<Rightarrow> pda_error + parse_state" where
  "parse_line st raw =
     (case strip_comments (inMultipleLineComment st) raw of
        (inC, None) \<Rightarrow> Inr (st\<lparr>inMultipleLineComment := inC\<rparr>)
      | (inC, Some line) \<Rightarrow> dispatch_line (st\<lparr>inMultipleLineComment := inC\<rparr>) line)"

fun parse_lines :: "parse_state \<Rightarrow> pystr list \<Rightarrow> pda_error + parse_state" where
  "parse_lines st [] = Inr st"
| "parse_lines st (l # ls) = (case parse_line st l of Inl e \<Rightarrow> Inl e | Inr st' \<Rightarrow> parse_lines st' ls)"

text \<open>\<open>PDA = states, sigma, stackSigma, rules, start, accept\<close> (line 199).\<close>

definition to_pda :: "parse_state \<Rightarrow> pda" where
  "to_pda st = \<lparr>states = ps_states st, sigma = ps_sigma st, stackSigma = ps_stackSigma st,
     rules = ps_rules st, start = ps_start st, accept = ps_accept st\<rparr>"

text \<open>
  \<open>parseFile\<close>: the loop, then the validation of lines 201--205 (\<open>None\<close> for the
  \<open>return False\<close> of line 202).
\<close>

definition parseFile :: "pystr list \<Rightarrow> pda_error + pda option" where
  "parseFile lines =
     (case parse_lines parse_init lines of
        Inl e \<Rightarrow> Inl e
      | Inr st \<Rightarrow>
          (let P = to_pda st in
           case isPDAValid P of
             Inl e \<Rightarrow> Inl e
           | Inr valid \<Rightarrow> if \<not> valid then Inr None else Inr (Some P)))"

text \<open>The invariant of the loop state: the rules dicts have distinct keys and every spelling of epsilon in a key or a push is normalised.\<close>

definition parse_inv :: "parse_state \<Rightarrow> bool" where
  "parse_inv st \<longleftrightarrow> rules_wf (ps_rules st) \<and> rules_normalized (ps_rules st)"

text \<open>
  A name the parser can declare: a non-empty line that starts with a non-space, holds no
  \<open>#\<close>, does not start with \<open>[\<close> and is not \<open>End\<close> (those lines switch sections).
\<close>

definition clean_name :: "pystr \<Rightarrow> bool" where
  "clean_name n \<longleftrightarrow> n \<noteq> [] \<and> \<not> py_isspace (hd n) \<and> 35 \<notin> set n \<and> [hd n] \<noteq> lbracket \<and> n \<noteq> end_str"

definition names_inv :: "parse_state \<Rightarrow> bool" where
  "names_inv st \<longleftrightarrow>
     list_all clean_name (ps_states st @ ps_sigma st @ ps_stackSigma st @ ps_accept st) \<and>
     clean_name (ps_start st)"

section \<open>Lemmas\<close>

subsection \<open>Rule lines\<close>

lemma eps_normal_normalize_eps [simp]: "eps_normal (normalize_eps s)"
proof -
  have "py_lower eps = eps" by (simp add: eps_def py_lower_def py_def)
  then show ?thesis by (auto simp: eps_normal_def normalize_eps_def)
qed

lemma in_keys_iff: "k \<in> fst ` set d \<longleftrightarrow> map_of d k \<noteq> None"
  by (simp add: map_of_eq_None_iff)

lemma rules_wf_add_rule: "rules_wf R \<Longrightarrow> rules_wf (add_rule s a z e R)"
proof -
  assume wf: "rules_wf R"
  let ?ok1 = "\<lambda>syms. distinct (map fst syms) \<and> list_all (\<lambda>(a, pops). distinct (map fst pops)) syms"
  define R1 where "R1 = (if s \<in> set (map fst R) then R else dict_set s [] R)"
  have R1: "distinct (map fst R1)" "list_all (\<lambda>(s, syms). ?ok1 syms) R1"
    using wf by (simp_all add: R1_def rules_wf_def list_all_dict_set)
  define syms where "syms = dict_get_or_empty R1 s"
  have "?ok1 syms" unfolding syms_def by (rule dict_get_or_empty_prop [OF R1(2)]) simp
  moreover define syms1 where "syms1 = (if a \<in> set (map fst syms) then syms else dict_set a [] syms)"
  ultimately have syms1: "distinct (map fst syms1)" "list_all (\<lambda>(a, pops). distinct (map fst pops)) syms1"
    by (simp_all add: syms1_def list_all_dict_set)
  define pops where "pops = dict_set z e (dict_get_or_empty syms1 a)"
  have "distinct (map fst (dict_get_or_empty syms1 a))"
    by (rule dict_get_or_empty_prop [OF syms1(2)]) simp
  then have "distinct (map fst pops)" by (simp add: pops_def)
  with syms1 have "?ok1 (dict_set a pops syms1)" by (simp add: list_all_dict_set)
  moreover have "add_rule s a z e R = dict_set s (dict_set a pops syms1) R1"
    by (simp add: add_rule_def Let_def R1_def syms_def syms1_def pops_def)
  ultimately show ?thesis using R1 by (simp add: rules_wf_def list_all_dict_set)
qed

lemma set_transitions_add_rule:
  "set (transitions (add_rule s a z e R)) \<subseteq> insert ((s, a, z), e) (set (transitions R))"
proof
  fix t assume t: "t \<in> set (transitions (add_rule s a z e R))"
  obtain q b y e' where te: "t = ((q, b, y), e')" by (cases t) auto
  from t obtain syms pops where
    "(q, syms) \<in> set (add_rule s a z e R)" "(b, pops) \<in> set syms" "(y, e') \<in> set pops"
    unfolding te set_transitions by blast
  then show "t \<in> insert ((s, a, z), e) (set (transitions R))"
    unfolding te set_transitions
    by (auto simp: add_rule_def Let_def dict_get_or_empty_def set_transitions
        split: if_splits option.splits dest!: set_dict_set map_of_SomeD)
qed

lemma rules_normalized_add_rule:
  "rules_normalized R \<Longrightarrow> eps_normal a \<Longrightarrow> eps_normal z \<Longrightarrow> eps_normal (push e) \<Longrightarrow>
   rules_normalized (add_rule s a z e R)"
  using set_transitions_add_rule [of s a z e R]
  by (fastforce simp: rules_normalized_def list_all_iff)

lemma parse_rule_Inr:
  "parse_rule l R = Inr R' \<Longrightarrow>
   (rules_wf R \<longrightarrow> rules_wf R') \<and> (rules_normalized R \<longrightarrow> rules_normalized R')"
  by (auto simp: parse_rule_def Let_def split: if_splits
      intro: rules_wf_add_rule rules_normalized_add_rule)

subsection \<open>The loop\<close>

lemma dispatch_line_Inl:
  "dispatch_line st line = Inl e \<Longrightarrow> line = [] \<and> e = IndexError \<or> (\<exists>n. n \<noteq> 5 \<and> e = ValueError n)"
  by (auto simp: dispatch_line_def Let_def parse_rule_def split: if_splits sum.splits)

lemma parse_line_Inl: "parse_line st raw = Inl e \<Longrightarrow> \<exists>n. n \<noteq> 5 \<and> e = ValueError n"
  by (auto simp: parse_line_def split: prod.splits option.splits
      dest: dispatch_line_Inl strip_comments_Some_nonempty)

lemma parse_lines_Inl: "parse_lines st ls = Inl e \<Longrightarrow> \<exists>n. n \<noteq> 5 \<and> e = ValueError n"
  by (induction st ls rule: parse_lines.induct) (auto split: sum.splits dest: parse_line_Inl)

lemma parse_inv_init: "parse_inv parse_init"
  by (simp add: parse_inv_def parse_init_def rules_wf_def rules_normalized_def transitions_def)

lemma dispatch_line_inv: "dispatch_line st line = Inr st' \<Longrightarrow> parse_inv st \<Longrightarrow> parse_inv st'"
  by (auto simp: dispatch_line_def Let_def parse_inv_def split: if_splits sum.splits
      dest: parse_rule_Inr)

lemma parse_line_inv: "parse_line st raw = Inr st' \<Longrightarrow> parse_inv st \<Longrightarrow> parse_inv st'"
proof -
  assume r: "parse_line st raw = Inr st'" and i: "parse_inv st"
  have i': "parse_inv (st\<lparr>inMultipleLineComment := b\<rparr>)" for b
    using i by (simp add: parse_inv_def)
  from r show ?thesis
    by (auto simp: parse_line_def split: prod.splits option.splits
        intro: dispatch_line_inv [OF _ i'] i')
qed

text \<open>An invariant of one iteration is an invariant of the loop.\<close>

lemma parse_lines_invariant:
  assumes step: "\<And>st l st'. parse_line st l = Inr st' \<Longrightarrow> I st \<Longrightarrow> I st'"
  shows "parse_lines st ls = Inr st' \<Longrightarrow> I st \<Longrightarrow> I st'"
  by (induction st ls rule: parse_lines.induct) (auto split: sum.splits dest: step)

lemma parse_lines_inv: "parse_lines st ls = Inr st' \<Longrightarrow> parse_inv st \<Longrightarrow> parse_inv st'"
  by (rule parse_lines_invariant [OF parse_line_inv])

lemma names_inv_init: "names_inv parse_init"
  by (simp add: names_inv_def parse_init_def clean_name_def none_str_def end_str_def lbracket_def py_def py_isspace_def)

lemma dispatch_line_names:
  "dispatch_line st line = Inr st' \<Longrightarrow> line \<noteq> [] \<Longrightarrow> \<not> py_isspace (hd line) \<Longrightarrow> 35 \<notin> set line \<Longrightarrow>
   names_inv st \<Longrightarrow> names_inv st'"
  by (auto simp: dispatch_line_def Let_def names_inv_def clean_name_def split: if_splits sum.splits)

lemma parse_line_names: "parse_line st raw = Inr st' \<Longrightarrow> names_inv st \<Longrightarrow> names_inv st'"
proof -
  assume r: "parse_line st raw = Inr st'" and i: "names_inv st"
  have i': "names_inv (st\<lparr>inMultipleLineComment := b\<rparr>)" for b
    using i by (simp add: names_inv_def)
  show ?thesis
  proof (cases "strip_comments (inMultipleLineComment st) raw")
    case (Pair b lo)
    show ?thesis
    proof (cases lo)
      case None
      with r Pair i' [of b] show ?thesis by (auto simp: parse_line_def)
    next
      case (Some line)
      with Pair have "line \<noteq> [] \<and> \<not> py_isspace (hd line) \<and> 35 \<notin> set line"
        by (auto dest: strip_comments_Some_clean)
      with r Pair Some show ?thesis
        by (auto simp: parse_line_def intro: dispatch_line_names [OF _ _ _ _ i'])
    qed
  qed
qed

lemma parseFile_Inr_inv:
  "parseFile ls = Inr r \<Longrightarrow>
   \<exists>st. parse_lines parse_init ls = Inr st \<and> parse_inv st \<and> pda_wf (to_pda st) \<and> r = Some (to_pda st)"
proof -
  assume r: "parseFile ls = Inr r"
  then obtain st where st: "parse_lines parse_init ls = Inr st"
    by (auto simp: parseFile_def split: sum.splits)
  then have "parse_inv st" using parse_lines_inv parse_inv_init by blast
  moreover from r st obtain b where "isPDAValid (to_pda st) = Inr b" "r = (if b then Some (to_pda st) else None)"
    by (auto simp: parseFile_def Let_def split: sum.splits if_splits)
  ultimately show ?thesis using st by (auto simp: isPDAValid_Inr_iff)
qed

lemma parseFile_Inl_cases:
  "parseFile ls = Inl e \<Longrightarrow> (\<exists>n. n \<noteq> 5 \<and> e = ValueError n) \<or> (\<exists>st. isPDAValid (to_pda st) = Inl e)"
  by (auto simp: parseFile_def Let_def split: sum.splits if_splits dest: parse_lines_Inl)

section \<open>Properties of the parser\<close>

text \<open>
  C18: errors. \<open>parseFile\<close> never raises \<open>IndexError\<close> (every line reaching
  \<open>line[0]\<close> is non-empty); it raises either one of the validator's \<open>PDAError\<close>
  subclasses or the \<open>ValueError\<close> of a rule line whose field count is not five.
\<close>

theorem parseFile_errors:
  "parseFile ls = Inl e \<Longrightarrow> e \<noteq> IndexError \<and> (is_PDAError e \<or> (\<exists>n. n \<noteq> 5 \<and> e = ValueError n))"
  by (auto dest!: parseFile_Inl_cases dest: isPDAValid_Inl_is_PDAError)

text \<open>
  C19: invariant. When \<open>parseFile\<close> returns, it returns an automaton (never the
  \<open>False\<close> of line 202) that the validator accepts, whose rules dicts have distinct keys
  and in whose rules every spelling of epsilon is stored as \<open>"epsilon"\<close>: the
  hypotheses of the engine's refinement and invariant theorems.
\<close>

theorem parseFile_wf:
  "parseFile ls = Inr r \<Longrightarrow>
   \<exists>P. r = Some P \<and> pda_wf P \<and> rules_wf (rules P) \<and> rules_normalized (rules P)"
  by (auto dest!: parseFile_Inr_inv simp: parse_inv_def to_pda_def)

text \<open>
  C20: last write wins. After the dict writes of a rule line, the key of the line maps to
  its entry, whatever it mapped to before, and every other key is unchanged.
\<close>

theorem rule_lookup_add_rule:
  "rule_lookup (add_rule s a z e R) q b y = (if (q, b, y) = (s, a, z) then Some e else rule_lookup R q b y)"
  by (auto simp: add_rule_def rule_lookup_def dict_get_or_empty_def Let_def in_keys_iff
      split: option.splits)

text \<open>
  C21: a rule line raises exactly when it does not hold four commas, with the
  \<open>ValueError\<close> of unpacking its fields into five names (Scenario D).
\<close>

theorem parse_rule_Inl_iff:
  "parse_rule l R = Inl err \<longleftrightarrow> count_list l (hd comma) \<noteq> 4 \<and> err = ValueError (Suc (count_list l (hd comma)))"
  by (auto simp: parse_rule_def Let_def comma_def py_def length_py_split_single)

text \<open>
  C33: invariant of the names. Every state, symbol and accept state of a parsed automaton,
  and its start state, is a non-empty name that starts with a non-space, holds no
  \<open>#\<close>, does not start with \<open>[\<close> and is not \<open>End\<close>: such lines switch the section
  instead (lines 133--138), so no file can declare a state named \<open>End\<close>.
\<close>

theorem parseFile_clean_names:
  "parseFile ls = Inr (Some P) \<Longrightarrow>
   list_all clean_name (states P @ sigma P @ stackSigma P @ accept P) \<and> clean_name (start P)"
proof -
  assume "parseFile ls = Inr (Some P)"
  from parseFile_Inr_inv [OF this] obtain st where
    st: "parse_lines parse_init ls = Inr st" and P: "P = to_pda st" by auto
  have "names_inv st" by (rule parse_lines_invariant [of names_inv, OF parse_line_names st names_inv_init])
  with P show ?thesis by (simp add: names_inv_def to_pda_def)
qed

end
