(* ===== verification/Printer.thy ===== *)
theory Printer
  imports Parser
begin

text \<open>
  \<open>printPDADataStructures\<close> (\<open>src/PDA.py\<close>, lines 278--290), which \<open>parseFile\<close> calls
  at line 200 before validating. An f-string formats a list or a dict with \<open>repr\<close> of
  its elements; \<open>repr\<close> of a \<open>str\<close> is CPython's \<open>unicode_repr\<close>: it chooses the quote,
  escapes the quote and the backslash, writes \<open>\t\<close>, \<open>\n\<close>, \<open>\r\<close>, writes the other
  ASCII control characters as \<open>\xhh\<close>, and copies a non-ASCII character when
  \<open>str.isprintable\<close> holds of it, otherwise writes \<open>\xhh\<close>, \<open>\uhhhh\<close> or \<open>\Uhhhhhhhh\<close>.
  Whether a non-ASCII code point is printable is a property of the Unicode database; it is
  the parameter \<open>printable\<close>. The theorems hold for every choice of it.
\<close>

section \<open>Python repr\<close>

text \<open>Lower-case hexadecimal digits, \<open>w\<close> of them, most significant first.\<close>

definition hex_digit :: "nat \<Rightarrow> nat" where
  "hex_digit n = (if n < 10 then 48 + n else 87 + n)"

fun hex_digits :: "nat \<Rightarrow> nat \<Rightarrow> pystr" where
  "hex_digits 0 c = []"
| "hex_digits (Suc w) c = hex_digits w (c div 16) @ [hex_digit (c mod 16)]"

definition repr_char :: "(nat \<Rightarrow> bool) \<Rightarrow> nat \<Rightarrow> nat \<Rightarrow> pystr" where
  "repr_char printable quote ch =
     (if ch = quote \<or> ch = 92 then [92, ch]
      else if ch = 9 then [92, 116]
      else if ch = 10 then [92, 110]
      else if ch = 13 then [92, 114]
      else if ch < 32 \<or> ch = 127 then [92, 120] @ hex_digits 2 ch
      else if ch < 127 then [ch]
      else if printable ch then [ch]
      else if ch \<le> 255 then [92, 120] @ hex_digits 2 ch
      else if ch \<le> 65535 then [92, 117] @ hex_digits 4 ch
      else [92, 85] @ hex_digits 8 ch)"

text \<open>\<open>'\<close> unless the string holds \<open>'\<close> and no \<open>"\<close>.\<close>

definition repr_quote :: "pystr \<Rightarrow> nat" where
  "repr_quote s = (if 39 \<in> set s \<and> 34 \<notin> set s then 34 else 39)"

definition py_repr :: "(nat \<Rightarrow> bool) \<Rightarrow> pystr \<Rightarrow> pystr" where
  "py_repr printable s =
     (let quote = repr_quote s in [quote] @ concat (map (repr_char printable quote) s) @ [quote])"

definition comma_sp :: pystr where "comma_sp = py '', ''"

text \<open>\<open>str(list)\<close> and \<open>str(dict)\<close>: the items joined by \<open>", "\<close> in brackets or braces.\<close>

definition repr_list :: "('a \<Rightarrow> pystr) \<Rightarrow> 'a list \<Rightarrow> pystr" where
  "repr_list r xs = py ''['' @ py_join comma_sp (map r xs) @ py '']''"

definition repr_dict :: "(pystr \<Rightarrow> pystr) \<Rightarrow> ('v \<Rightarrow> pystr) \<Rightarrow> (pystr, 'v) pydict \<Rightarrow> pystr" where
  "repr_dict rk rv d = py ''{'' @ py_join comma_sp (map (\<lambda>(k, v). rk k @ py '': '' @ rv v) d) @ py ''}''"

text \<open>A rule entry is the dict \<open>{"push": ..., "nextState": ...}\<close>, in that order.\<close>

definition repr_entry :: "(nat \<Rightarrow> bool) \<Rightarrow> rule_entry \<Rightarrow> pystr" where
  "repr_entry printable e =
     repr_dict (py_repr printable) (py_repr printable) [(py ''push'', push e), (py ''nextState'', nextState e)]"

definition repr_rules :: "(nat \<Rightarrow> bool) \<Rightarrow> rules_dict \<Rightarrow> pystr" where
  "repr_rules printable R =
     repr_dict (py_repr printable)
       (repr_dict (py_repr printable) (repr_dict (py_repr printable) (repr_entry printable))) R"

section \<open>The printer\<close>

definition printPDADataStructures :: "(nat \<Rightarrow> bool) \<Rightarrow> pda \<Rightarrow> pystr list" where
  "printPDADataStructures printable P =
     [py ''States : '' @ repr_list (py_repr printable) (states P),
      py ''Alphabet : '' @ repr_list (py_repr printable) (sigma P),
      py ''Stack Alphabet: '' @ repr_list (py_repr printable) (stackSigma P),
      py ''Rules : '' @ repr_rules printable (rules P),
      py ''Start state : '' @ start P,
      (if length (accept P) \<noteq> 1 then py ''Accept states : '' @ repr_list (py_repr printable) (accept P)
       else py ''Accept state: '' @ accept P ! 0)]"

text \<open>
  What \<open>parseFile\<close> prints: nothing when the loop raises, otherwise the six lines of the
  tuple it built, also when the validation that follows then raises.
\<close>

definition parseFile_output :: "(nat \<Rightarrow> bool) \<Rightarrow> pystr list \<Rightarrow> pystr list" where
  "parseFile_output printable lines =
     (case parse_lines parse_init lines of
        Inl e \<Rightarrow> []
      | Inr st \<Rightarrow> printPDADataStructures printable (to_pda st))"

section \<open>Reading the printout back\<close>

text \<open>
  A reference reader of what the printer writes: string literals in the forms \<open>repr\<close>
  produces (the reading of \<open>ast.literal_eval\<close> restricted to them), lists and dicts of
  them, and the six labelled lines. A reader takes a text and returns what it read and the
  rest of the text. \<open>py_str_ok\<close> is the range of the code points of a Python \<open>str\<close>.
\<close>

type_synonym 'a reader = "pystr \<Rightarrow> ('a \<times> pystr) option"

definition py_str_ok :: "pystr \<Rightarrow> bool" where
  "py_str_ok s \<longleftrightarrow> list_all (\<lambda>c. c < 1114112) s"

definition pda_strs_ok :: "pda \<Rightarrow> bool" where
  "pda_strs_ok P \<longleftrightarrow>
     list_all py_str_ok (states P @ sigma P @ stackSigma P @ accept P) \<and>
     list_all (\<lambda>(s, syms). py_str_ok s \<and>
       list_all (\<lambda>(a, pops). py_str_ok a \<and>
         list_all (\<lambda>(z, e). py_str_ok z \<and> py_str_ok (push e) \<and> py_str_ok (nextState e)) pops) syms)
       (rules P)"

definition hex_val :: "nat \<Rightarrow> nat option" where
  "hex_val d = (if 48 \<le> d \<and> d \<le> 57 then Some (d - 48)
                else if 97 \<le> d \<and> d \<le> 102 then Some (d - 87) else None)"

fun hex_read :: "nat \<Rightarrow> pystr \<Rightarrow> nat option" where
  "hex_read acc [] = Some acc"
| "hex_read acc (d # ds) = (case hex_val d of None \<Rightarrow> None | Some v \<Rightarrow> hex_read (acc * 16 + v) ds)"

definition hex_escape :: "nat \<Rightarrow> pystr \<Rightarrow> nat option" where
  "hex_escape w ds = (if length ds < w then None else hex_read 0 (take w ds))"

text \<open>The characters of a string literal up to its closing quote \<open>q\<close>.\<close>

fun read_body :: "nat \<Rightarrow> pystr reader" where
  "read_body q [] = None"
| "read_body q [c] = (if c = q then Some ([], []) else None)"
| "read_body q (c # d # rest) =
     (if c = q then Some ([], d # rest)
      else if c = 92 then
        (if d = 92 \<or> d = q then map_option (apfst (Cons d)) (read_body q rest)
         else if d = 116 then map_option (apfst (Cons 9)) (read_body q rest)
         else if d = 110 then map_option (apfst (Cons 10)) (read_body q rest)
         else if d = 114 then map_option (apfst (Cons 13)) (read_body q rest)
         else if d = 120 then (case hex_escape 2 rest of None \<Rightarrow> None
                               | Some v \<Rightarrow> map_option (apfst (Cons v)) (read_body q (drop 2 rest)))
         else if d = 117 then (case hex_escape 4 rest of None \<Rightarrow> None
                               | Some v \<Rightarrow> map_option (apfst (Cons v)) (read_body q (drop 4 rest)))
         else if d = 85 then (case hex_escape 8 rest of None \<Rightarrow> None
                               | Some v \<Rightarrow> map_option (apfst (Cons v)) (read_body q (drop 8 rest)))
         else None)
      else map_option (apfst (Cons c)) (read_body q (d # rest)))"

definition read_str :: "pystr reader" where
  "read_str s = (case s of [] \<Rightarrow> None
                 | q # rest \<Rightarrow> if q = 39 \<or> q = 34 then read_body q rest else None)"

text \<open>Items separated by \<open>", "\<close> up to the closing bracket; \<open>n\<close> bounds their number.\<close>

fun read_items :: "'a reader \<Rightarrow> nat \<Rightarrow> nat \<Rightarrow> 'a list reader" where
  "read_items r close 0 s = None"
| "read_items r close (Suc n) s =
     (case r s of
        None \<Rightarrow> None
      | Some (x, s') \<Rightarrow>
          (if s' \<noteq> [] \<and> hd s' = close then Some ([x], tl s')
           else if take 2 s' = comma_sp then map_option (apfst (Cons x)) (read_items r close n (drop 2 s'))
           else None))"

definition read_seq :: "'a reader \<Rightarrow> nat \<Rightarrow> nat \<Rightarrow> 'a list reader" where
  "read_seq r opn close s =
     (case s of [] \<Rightarrow> None
      | c # s' \<Rightarrow> if c \<noteq> opn then None
                 else if s' \<noteq> [] \<and> hd s' = close then Some ([], tl s')
                 else read_items r close (length s') s')"

definition read_pair :: "'k reader \<Rightarrow> 'v reader \<Rightarrow> ('k \<times> 'v) reader" where
  "read_pair rk rv s =
     (case rk s of
        None \<Rightarrow> None
      | Some (k, s1) \<Rightarrow>
          (if take 2 s1 = py '': '' then
             (case rv (drop 2 s1) of None \<Rightarrow> None | Some (v, s2) \<Rightarrow> Some ((k, v), s2))
           else None))"

definition read_dict :: "'v reader \<Rightarrow> (pystr, 'v) pydict reader" where
  "read_dict rv = read_seq (read_pair read_str rv) 123 125"

definition read_entry :: "rule_entry reader" where
  "read_entry s =
     (case read_dict read_str s of
        None \<Rightarrow> None
      | Some (kvs, s') \<Rightarrow>
          (if map fst kvs = [py ''push'', py ''nextState'']
           then Some (\<lparr>push = snd (kvs ! 0), nextState = snd (kvs ! 1)\<rparr>, s') else None))"

definition read_rules :: "rules_dict reader" where
  "read_rules = read_dict (read_dict (read_dict read_entry))"

definition read_str_list :: "pystr list reader" where
  "read_str_list = read_seq read_str 91 93"

definition rest_reader :: "pystr reader" where
  "rest_reader s = Some (s, [])"

text \<open>A line made of a label and one value that takes the rest of the line.\<close>

definition read_labelled :: "pystr \<Rightarrow> 'a reader \<Rightarrow> pystr \<Rightarrow> 'a option" where
  "read_labelled label r l =
     (if take (length label) l = label then
        (case r (drop (length label) l) of Some (x, []) \<Rightarrow> Some x | _ \<Rightarrow> None)
      else None)"

definition read_accept :: "pystr \<Rightarrow> pystr list option" where
  "read_accept l =
     (case read_labelled (py ''Accept state: '') rest_reader l of
        Some a \<Rightarrow> Some [a]
      | None \<Rightarrow> read_labelled (py ''Accept states : '') read_str_list l)"

definition read_printout :: "pystr list \<Rightarrow> pda option" where
  "read_printout ls =
     (if length ls \<noteq> 6 then None
      else
        (case (read_labelled (py ''States : '') read_str_list (ls ! 0),
               read_labelled (py ''Alphabet : '') read_str_list (ls ! 1),
               read_labelled (py ''Stack Alphabet: '') read_str_list (ls ! 2),
               read_labelled (py ''Rules : '') read_rules (ls ! 3),
               read_labelled (py ''Start state : '') rest_reader (ls ! 4),
               read_accept (ls ! 5)) of
           (Some qs, Some sg, Some ss, Some R, Some st, Some acc) \<Rightarrow>
             Some \<lparr>states = qs, sigma = sg, stackSigma = ss, rules = R, start = st, accept = acc\<rparr>
         | _ \<Rightarrow> None))"

section \<open>Lemmas\<close>

lemma hex_read_append:
  "hex_read acc (xs @ ys) = (case hex_read acc xs of None \<Rightarrow> None | Some a \<Rightarrow> hex_read a ys)"
  by (induction acc xs rule: hex_read.induct) (auto split: option.splits)

lemma hex_val_hex_digit: "n < 16 \<Longrightarrow> hex_val (hex_digit n) = Some n"
  by (simp add: hex_val_def hex_digit_def)

lemma length_hex_digits [simp]: "length (hex_digits w c) = w"
  by (induction w arbitrary: c) auto

lemma hex_read_hex_digits: "c < 16 ^ w \<Longrightarrow> hex_read acc (hex_digits w c) = Some (acc * 16 ^ w + c)"
proof (induction w arbitrary: c)
  case 0
  then show ?case by simp
next
  case (Suc w)
  have "c div 16 < 16 ^ w" using Suc.prems by (simp add: div_less_iff_less_mult mult.commute)
  then have "hex_read acc (hex_digits w (c div 16)) = Some (acc * 16 ^ w + c div 16)" by (rule Suc.IH)
  moreover have "(acc * 16 ^ w + c div 16) * 16 + c mod 16 = acc * 16 ^ Suc w + c"
    by (simp add: algebra_simps)
  ultimately show ?case by (simp add: hex_read_append hex_val_hex_digit)
qed

lemma hex_escape_hex_digits:
  "c < 16 ^ w \<Longrightarrow> hex_escape w (hex_digits w c @ rest) = Some c \<and> drop w (hex_digits w c @ rest) = rest"
  by (simp add: hex_escape_def hex_read_hex_digits)

text \<open>Reading back one character written by \<open>repr\<close>, whatever follows it.\<close>

lemma read_body_lit:
  "c \<noteq> q \<Longrightarrow> c \<noteq> 92 \<Longrightarrow> read_body q (c # rest) = map_option (apfst (Cons c)) (read_body q rest)"
  by (cases rest) simp_all

lemma read_body_quote: "read_body q (q # rest) = Some ([], rest)"
  by (cases rest) simp_all

lemma read_body_repr_char:
  assumes q: "q = 39 \<or> q = 34" and c: "ch < 1114112"
  shows "read_body q (repr_char printable q ch @ rest) = map_option (apfst (Cons ch)) (read_body q rest)"
proof -
  have x: "hex_escape 2 (hex_digits 2 ch @ rest) = Some ch \<and> drop 2 (hex_digits 2 ch @ rest) = rest"
    if "ch \<le> 255" using that by (intro hex_escape_hex_digits) simp
  have u: "hex_escape 4 (hex_digits 4 ch @ rest) = Some ch \<and> drop 4 (hex_digits 4 ch @ rest) = rest"
    if "ch \<le> 65535" using that by (intro hex_escape_hex_digits) simp
  have U: "hex_escape 8 (hex_digits 8 ch @ rest) = Some ch \<and> drop 8 (hex_digits 8 ch @ rest) = rest"
    using c by (intro hex_escape_hex_digits) simp
  show ?thesis
    using q x u U read_body_lit [of ch q rest] by (auto simp: repr_char_def)
qed

lemma read_body_repr_chars:
  "q = 39 \<or> q = 34 \<Longrightarrow> py_str_ok s \<Longrightarrow>
   read_body q (concat (map (repr_char printable q) s) @ q # rest) = Some (s, rest)"
  by (induction s) (simp_all add: py_str_ok_def read_body_repr_char read_body_quote)

lemma py_repr_Cons:
  "\<exists>q. (q = 39 \<or> q = 34) \<and> py_repr printable s = q # concat (map (repr_char printable q) s) @ [q]"
  by (auto simp: py_repr_def repr_quote_def Let_def)

lemma read_str_py_repr:
  "py_str_ok s \<Longrightarrow> read_str (py_repr printable s @ rest) = Some (s, rest)"
  using py_repr_Cons [of printable s] by (auto simp: read_str_def read_body_repr_chars)

lemma py_repr_ne [simp]: "py_repr printable s \<noteq> []"
  by (simp add: py_repr_def Let_def)

lemma hd_py_repr [simp]: "hd (py_repr printable s) = repr_quote s"
  by (simp add: py_repr_def Let_def)

text \<open>Reading back a list or a dict, item by item.\<close>

lemma read_items_join:
  assumes "\<forall>x\<in>set xs. \<forall>rest. r (enc x @ rest) = Some (x, rest)" "close \<noteq> 44" "xs \<noteq> []"
    "length xs \<le> n"
  shows "read_items r close n (py_join comma_sp (map enc xs) @ close # rest) = Some (xs, rest)"
  using assms
proof (induction xs arbitrary: n)
  case Nil
  then show ?case by simp
next
  case (Cons x xs)
  then obtain m where n: "n = Suc m" "length xs \<le> m" by (cases n) auto
  have rx: "r (enc x @ rest') = Some (x, rest')" for rest'
    using Cons.prems(1) by simp
  show ?case
  proof (cases "xs = []")
    case True
    with rx [of "close # rest"] n show ?thesis by simp
  next
    case False
    have IH: "read_items r close m (py_join comma_sp (map enc xs) @ close # rest) = Some (xs, rest)"
      using Cons.IH Cons.prems False n by auto
    with rx [of "comma_sp @ py_join comma_sp (map enc xs) @ close # rest"] False n Cons.prems(2)
    show ?thesis by (simp add: py_join_Cons comma_sp_def py_def)
  qed
qed

lemma length_py_join: "length ys \<le> Suc (length (py_join comma_sp ys))"
  by (induction ys) (auto simp: py_join_Cons comma_sp_def py_def)

lemma read_seq_join:
  assumes r: "\<forall>x\<in>set xs. (\<forall>rest. r (enc x @ rest) = Some (x, rest)) \<and> enc x \<noteq> [] \<and> hd (enc x) \<noteq> close"
    and c: "close \<noteq> 44"
  shows "read_seq r opn close (opn # py_join comma_sp (map enc xs) @ close # rest) = Some (xs, rest)"
proof (cases xs)
  case Nil
  then show ?thesis by (simp add: read_seq_def)
next
  case (Cons x xs')
  have hd: "hd (py_join comma_sp (map enc xs) @ close # rest) \<noteq> close"
    using r Cons by (auto simp: py_join_Cons)
  have len: "length xs \<le> length (py_join comma_sp (map enc xs) @ close # rest)"
    using length_py_join [of "map enc xs"] by simp
  have "read_items r close (length (py_join comma_sp (map enc xs) @ close # rest))
          (py_join comma_sp (map enc xs) @ close # rest) = Some (xs, rest)"
    using r c Cons len by (intro read_items_join) auto
  with hd show ?thesis by (simp add: read_seq_def)
qed

lemma read_pair_enc:
  "(\<And>rest. rk (ek k @ rest) = Some (k, rest)) \<Longrightarrow> (\<And>rest. rv (ev v @ rest) = Some (v, rest)) \<Longrightarrow>
   read_pair rk rv (ek k @ py '': '' @ ev v @ rest) = Some ((k, v), rest)"
  by (simp add: read_pair_def py_def)

lemma read_dict_repr_dict:
  assumes d: "\<forall>(k, v)\<in>set d. py_str_ok k \<and> (\<forall>rest. rv (ev v @ rest) = Some (v, rest))"
  shows "read_dict rv (repr_dict (py_repr printable) ev d @ rest) = Some (d, rest)"
proof -
  define enc where "enc = (\<lambda>(k, v). py_repr printable k @ py '': '' @ ev v)"
  have "\<forall>x\<in>set d. (\<forall>rest. read_pair read_str rv (enc x @ rest) = Some (x, rest)) \<and>
          enc x \<noteq> [] \<and> hd (enc x) \<noteq> 125"
  proof
    fix x
    assume "x \<in> set d"
    moreover obtain k v where x: "x = (k, v)" by fastforce
    ultimately have ok: "py_str_ok k" "\<And>rest. rv (ev v @ rest) = Some (v, rest)" using d by auto
    have "read_pair read_str rv (py_repr printable k @ py '': '' @ ev v @ rest) = Some ((k, v), rest)"
      for rest by (rule read_pair_enc) (simp_all add: read_str_py_repr ok)
    with x
    show "(\<forall>rest. read_pair read_str rv (enc x @ rest) = Some (x, rest)) \<and> enc x \<noteq> [] \<and> hd (enc x) \<noteq> 125"
      by (auto simp: enc_def repr_quote_def)
  qed
  then have "read_seq (read_pair read_str rv) 123 125 (123 # py_join comma_sp (map enc d) @ 125 # rest) = Some (d, rest)"
    by (rule read_seq_join) simp
  then show ?thesis by (simp add: read_dict_def repr_dict_def enc_def py_def)
qed

lemma read_entry_repr_entry:
  assumes "py_str_ok (push e)" "py_str_ok (nextState e)"
  shows "read_entry (repr_entry printable e @ rest) = Some (e, rest)"
proof -
  have k: "py_str_ok (py ''push'')" "py_str_ok (py ''nextState'')"
    by (simp_all add: py_str_ok_def py_def)
  have "read_dict read_str (repr_entry printable e @ rest) =
      Some ([(py ''push'', push e), (py ''nextState'', nextState e)], rest)"
    unfolding repr_entry_def
    by (rule read_dict_repr_dict) (simp add: assms k read_str_py_repr)
  then show ?thesis by (simp add: read_entry_def)
qed

lemma read_rules_repr_rules:
  assumes "list_all (\<lambda>(s, syms). py_str_ok s \<and>
       list_all (\<lambda>(a, pops). py_str_ok a \<and>
         list_all (\<lambda>(z, e). py_str_ok z \<and> py_str_ok (push e) \<and> py_str_ok (nextState e)) pops) syms) R"
  shows "read_rules (repr_rules printable R @ rest) = Some (R, rest)"
proof -
  have pops: "read_dict read_entry (repr_dict (py_repr printable) (repr_entry printable) pops @ rest) = Some (pops, rest)"
    if "list_all (\<lambda>(z, e). py_str_ok z \<and> py_str_ok (push e) \<and> py_str_ok (nextState e)) pops" for pops rest
    using that by (intro read_dict_repr_dict) (auto simp: list_all_iff read_entry_repr_entry)
  have syms: "read_dict (read_dict read_entry)
      (repr_dict (py_repr printable) (repr_dict (py_repr printable) (repr_entry printable)) syms @ rest) = Some (syms, rest)"
    if "list_all (\<lambda>(a, pops). py_str_ok a \<and>
         list_all (\<lambda>(z, e). py_str_ok z \<and> py_str_ok (push e) \<and> py_str_ok (nextState e)) pops) syms" for syms rest
    using that by (intro read_dict_repr_dict) (auto simp: list_all_iff pops)
  show ?thesis
    unfolding read_rules_def repr_rules_def
    using assms by (intro read_dict_repr_dict) (auto simp: list_all_iff syms)
qed

lemma read_str_list_repr_list:
  "list_all py_str_ok xs \<Longrightarrow> read_str_list (repr_list (py_repr printable) xs @ rest) = Some (xs, rest)"
proof -
  assume ok: "list_all py_str_ok xs"
  have "read_seq read_str 91 93 (91 # py_join comma_sp (map (py_repr printable) xs) @ 93 # rest) = Some (xs, rest)"
    using ok by (intro read_seq_join) (auto simp: list_all_iff read_str_py_repr repr_quote_def)
  then show ?thesis by (simp add: read_str_list_def repr_list_def py_def)
qed

lemma read_labelled_append: "r s = Some (x, []) \<Longrightarrow> read_labelled label r (label @ s) = Some x"
  by (simp add: read_labelled_def)

text \<open>When \<open>parseFile\<close> returns an automaton, it has printed that automaton.\<close>

lemma parseFile_output_Some:
  "parseFile ls = Inr (Some P) \<Longrightarrow> parseFile_output printable ls = printPDADataStructures printable P"
  by (auto simp: parseFile_output_def dest!: parseFile_Inr_inv)

section \<open>Properties of the printer\<close>

text \<open>
  C31: round trip of the printout. The six lines \<open>printPDADataStructures\<close> prints
  (lines 278--290) determine the automaton: read back label by label, with the lists and
  the nested rules dict read as Python literals, they give the states, both alphabets,
  the rules in their insertion order, the start state and the accept states, whichever
  non-ASCII characters count as printable and whatever quotes, backslashes or control
  characters the names hold.
\<close>

theorem printPDADataStructures_roundtrip:
  "pda_strs_ok P \<Longrightarrow> read_printout (printPDADataStructures printable P) = Some P"
proof -
  assume ok: "pda_strs_ok P"
  have l: "read_labelled lab read_str_list (lab @ repr_list (py_repr printable) xs) = Some xs"
    if "list_all py_str_ok xs" for lab xs
    using read_str_list_repr_list [OF that, of printable "[]"] by (simp add: read_labelled_append)
  have R: "read_labelled (py ''Rules : '') read_rules (py ''Rules : '' @ repr_rules printable (rules P)) =
      Some (rules P)"
    using ok read_rules_repr_rules [of "rules P" printable "[]"]
    by (simp add: pda_strs_ok_def read_labelled_append)
  have S: "read_labelled (py ''Start state : '') rest_reader (py ''Start state : '' @ start P) = Some (start P)"
    by (simp add: read_labelled_append rest_reader_def)
  have A: "read_accept (if length (accept P) \<noteq> 1
                        then py ''Accept states : '' @ repr_list (py_repr printable) (accept P)
                        else py ''Accept state: '' @ accept P ! 0) = Some (accept P)"
  proof (cases "length (accept P) = 1")
    case True
    then obtain a where "accept P = [a]" by (auto simp: length_Suc_conv)
    then show ?thesis by (simp add: read_accept_def read_labelled_append rest_reader_def)
  next
    case False
    have "read_labelled (py ''Accept state: '') rest_reader
            (py ''Accept states : '' @ repr_list (py_repr printable) (accept P)) = None"
      by (simp add: read_labelled_def py_def)
    with False ok l [of "accept P" "py ''Accept states : ''"] show ?thesis
      by (simp add: read_accept_def pda_strs_ok_def)
  qed
  have "read_printout (printPDADataStructures printable P) =
      Some \<lparr>states = states P, sigma = sigma P, stackSigma = stackSigma P, rules = rules P,
            start = start P, accept = accept P\<rparr>"
    using ok l [of "states P" "py ''States : ''"] l [of "sigma P" "py ''Alphabet : ''"]
      l [of "stackSigma P" "py ''Stack Alphabet: ''"] R S A
    by (simp add: read_printout_def printPDADataStructures_def pda_strs_ok_def)
  then show ?thesis by simp
qed

text \<open>
  C32: ordering. \<open>parseFile\<close> prints the tuple before it validates it (lines 200--201):
  whenever it raises one of the validator's errors, the six lines of the tuple have
  already been printed; when the loop itself raises, nothing is printed.
\<close>

theorem parseFile_prints_before_validation:
  "parseFile ls = Inl e \<Longrightarrow>
   (is_PDAError e \<longrightarrow> length (parseFile_output printable ls) = 6) \<and>
   (\<not> is_PDAError e \<longrightarrow> parseFile_output printable ls = [])"
proof -
  assume r: "parseFile ls = Inl e"
  show ?thesis
  proof (cases "parse_lines parse_init ls")
    case (Inl e')
    with r have "e = e'" by (simp add: parseFile_def)
    with Inl show ?thesis
      by (auto simp: parseFile_output_def dest: parse_lines_Inl)
  next
    case (Inr st)
    with r have "isPDAValid (to_pda st) = Inl e"
      by (auto simp: parseFile_def Let_def split: sum.splits if_splits)
    with Inr show ?thesis
      by (simp add: parseFile_output_def printPDADataStructures_def isPDAValid_Inl_is_PDAError)
  qed
qed

end
