(* ===== verification/Cli.thy ===== *)
theory Cli
  imports Engine Printer
begin

text \<open>
  The script \<open>src/emulatePDA.py\<close>: \<open>changeDirectory\<close> (lines 17--25), the opening of
  the two files (lines 33--40 and 57--64), the choice of the options (lines 41--48 and
  65--77), and the run (lines 82--92). The files are read from an explicit
  \<open>filesystem\<close>: which directories exist and the text of each file in each directory.
  Both folders are relative to the script's directory, to which \<open>os.chdir("..")\<close>
  returns. Python's \<open>int()\<close> is \<open>py_int\<close>. Its only dependency on the Unicode database,
  the decimal value of a non-ASCII digit, is the parameter \<open>decimal\<close>.
\<close>

section \<open>Definitions\<close>

datatype cli_error =
    NotEnoughArgummentsError
  | DirectoryNotFoundError pystr
  | PDAFileNotFoundError
  | VerbosityValueError
  | RunError pda_error

section \<open>Python int()\<close>

text \<open>
  \<open>int(s)\<close>: surrounding whitespace, an optional sign, then decimal digits with single
  underscores between them. A digit is an ASCII digit or a non-ASCII code point with a
  decimal value; \<open>None\<close> is the \<open>ValueError\<close>.
\<close>

definition digit_value :: "(nat \<Rightarrow> nat option) \<Rightarrow> nat \<Rightarrow> nat option" where
  "digit_value decimal c =
     (if 48 \<le> c \<and> c \<le> 57 then Some (c - 48) else if c < 128 then None else decimal c)"

fun read_digits :: "(nat \<Rightarrow> nat option) \<Rightarrow> nat \<Rightarrow> pystr \<Rightarrow> nat option" where
  "read_digits decimal acc [] = Some acc"
| "read_digits decimal acc (c # r) =
     (if c = 95 then
        (case r of [] \<Rightarrow> None
         | d # r' \<Rightarrow> (case digit_value decimal d of None \<Rightarrow> None
                      | Some v \<Rightarrow> read_digits decimal (acc * 10 + v) r'))
      else (case digit_value decimal c of None \<Rightarrow> None
            | Some v \<Rightarrow> read_digits decimal (acc * 10 + v) r))"

definition read_decimal :: "(nat \<Rightarrow> nat option) \<Rightarrow> pystr \<Rightarrow> nat option" where
  "read_decimal decimal ds =
     (case ds of [] \<Rightarrow> None
      | d # r \<Rightarrow> (case digit_value decimal d of None \<Rightarrow> None | Some v \<Rightarrow> read_digits decimal v r))"

definition py_int :: "(nat \<Rightarrow> nat option) \<Rightarrow> pystr \<Rightarrow> int option" where
  "py_int decimal s =
     (let t = py_strip s in
      if t \<noteq> [] \<and> hd t = 43 then map_option int (read_decimal decimal (tl t))
      else if t \<noteq> [] \<and> hd t = 45 then map_option (\<lambda>n. - int n) (read_decimal decimal (tl t))
      else map_option int (read_decimal decimal t))"

section \<open>Directories and files\<close>

record filesystem =
  fs_isdir :: "pystr \<Rightarrow> bool"
  fs_file :: "pystr \<Rightarrow> pystr \<Rightarrow> pystr option"

definition PDADefinitionFolder :: pystr where "PDADefinitionFolder = py ''PDA Definition Files''"
definition inputFolder :: pystr where "inputFolder = py ''Input Files''"

text \<open>Lines 17--25: the new working directory, or the error.\<close>

definition changeDirectory :: "filesystem \<Rightarrow> pystr \<Rightarrow> cli_error + pystr" where
  "changeDirectory fs directoryPath =
     (if fs_isdir fs directoryPath then Inr directoryPath
      else Inl (DirectoryNotFoundError directoryPath))"

text \<open>\<open>open(name, "r")\<close> in the working directory; its \<open>FileNotFoundError\<close> is turned into
  \<open>PDAFileNotFoundError\<close> by the \<open>except\<close> of lines 49--50 and 78--79.\<close>

definition open_read :: "filesystem \<Rightarrow> pystr \<Rightarrow> pystr \<Rightarrow> cli_error + pystr" where
  "open_read fs cwd name = (case fs_file fs cwd name of None \<Rightarrow> Inl PDAFileNotFoundError | Some text \<Rightarrow> Inr text)"

text \<open>Lines 35--40 and 59--64: the texts of the definition file and of the input file.\<close>

definition open_files :: "filesystem \<Rightarrow> pystr \<Rightarrow> pystr \<Rightarrow> cli_error + pystr \<times> pystr" where
  "open_files fs pdaName inputName =
     (case changeDirectory fs PDADefinitionFolder of
        Inl e \<Rightarrow> Inl e
      | Inr d1 \<Rightarrow>
          (case open_read fs d1 pdaName of
             Inl e \<Rightarrow> Inl e
           | Inr pdaText \<Rightarrow>
               (case changeDirectory fs inputFolder of
                  Inl e \<Rightarrow> Inl e
                | Inr d2 \<Rightarrow>
                    (case open_read fs d2 inputName of
                       Inl e \<Rightarrow> Inl e
                     | Inr inputText \<Rightarrow> Inr (pdaText, inputText)))))"

text \<open>The separator option, lines 43--48 and 70--75.\<close>

definition separatorOption :: "pystr \<Rightarrow> pystr" where
  "separatorOption stringInput =
     (if py_upper stringInput = py ''SPACE'' then py '' ''
      else if py_upper stringInput = py ''NOSEPARATOR'' then []
      else stringInput)"

definition verbosityOption :: "(pystr \<Rightarrow> int option) \<Rightarrow> pystr \<Rightarrow> cli_error + bool" where
  "verbosityOption to_int s = (case to_int s of None \<Rightarrow> Inl VerbosityValueError | Some n \<Rightarrow> Inr (n \<noteq> 0))"

text \<open>
  Lines 33--79: the verbosity flag and the separator. \<open>argv\<close> includes the script name;
  with no argument the two answers of the interactive mode are used.
\<close>

definition cli_options ::
  "(pystr \<Rightarrow> int option) \<Rightarrow> pystr list \<Rightarrow> pystr \<times> pystr \<Rightarrow> cli_error + bool \<times> pystr" where
  "cli_options to_int argv answers =
     (if length argv = 1 then
        (case verbosityOption to_int (fst answers) of
           Inl e \<Rightarrow> Inl e
         | Inr allowVerbosity \<Rightarrow> Inr (allowVerbosity, separatorOption (snd answers)))
      else if length argv = 2 then Inl NotEnoughArgummentsError
      else
        (case (if length argv = 4 then verbosityOption to_int (argv ! 3) else Inr False) of
           Inl e \<Rightarrow> Inl e
         | Inr allowVerbosity \<Rightarrow>
             Inr (allowVerbosity, if length argv = 5 then separatorOption (argv ! 4) else [])))"

definition accepted_str :: pystr where "accepted_str = py ''Accepted''"
definition rejected_str :: pystr where "rejected_str = py ''Rejected''"

text \<open>
  Lines 82--92: parse the definition, run it on the input text and print the verdict
  after the trace of \<open>runPDA\<close>. A \<open>False\<close> from \<open>parseFile\<close> would make \<open>runPDA\<close>
  raise \<open>TypeError\<close> at its first line, unpacking a \<open>bool\<close>.
\<close>

definition emulate :: "pystr list \<Rightarrow> pystr \<Rightarrow> pystr \<Rightarrow> bool \<Rightarrow> pda_error + pystr list" where
  "emulate pdaLines inputString stringSeparator allowVerbosity =
     (case parseFile pdaLines of
        Inl e \<Rightarrow> Inl e
      | Inr None \<Rightarrow> Inl TypeError
      | Inr (Some pda) \<Rightarrow>
          (case runPDA pda inputString stringSeparator allowVerbosity of
             Inl e \<Rightarrow> Inl e
           | Inr (accepted, out) \<Rightarrow> Inr (out @ [if accepted then accepted_str else rejected_str])))"

text \<open>
  The whole script. With one argument the four answers of \<open>input()\<close> (file names,
  verbosity, separator) are used. The output is what \<open>parseFile\<close> prints, then the
  trace of \<open>runPDA\<close>, then the verdict; the prompts of \<open>input()\<close> are not part of it.
\<close>

definition emulatePDA ::
  "(nat \<Rightarrow> nat option) \<Rightarrow> (nat \<Rightarrow> bool) \<Rightarrow> filesystem \<Rightarrow> pystr list \<Rightarrow>
   pystr \<times> pystr \<times> pystr \<times> pystr \<Rightarrow> cli_error + pystr list" where
  "emulatePDA decimal printable fs argv answers =
     (if length argv = 2 then Inl NotEnoughArgummentsError
      else
        (let (pdaName, inputName) =
               (if length argv = 1 then (fst answers, fst (snd answers)) else (argv ! 1, argv ! 2))
         in case open_files fs pdaName inputName of
              Inl e \<Rightarrow> Inl e
            | Inr (pdaText, inputText) \<Rightarrow>
                (case cli_options (py_int decimal) argv (snd (snd answers)) of
                   Inl e \<Rightarrow> Inl e
                 | Inr (allowVerbosity, stringSeparator) \<Rightarrow>
                     (let pdaLines = py_readlines pdaText in
                      case emulate pdaLines (py_newlines inputText) stringSeparator allowVerbosity of
                        Inl e \<Rightarrow> Inl (RunError e)
                      | Inr out \<Rightarrow> Inr (parseFile_output printable pdaLines @ out)))))"

section \<open>Lemmas\<close>

lemma accepted_ne_rejected [simp]: "accepted_str \<noteq> rejected_str" "rejected_str \<noteq> accepted_str"
  by (simp_all add: accepted_str_def rejected_str_def py_def)

text \<open>What \<open>emulate\<close> prints when the definition file parses.\<close>

lemma emulate_Some:
  "parseFile ls = Inr (Some P) \<Longrightarrow>
   emulate ls inp sep v =
     (case runPDA P inp sep v of Inl e \<Rightarrow> Inl e
      | Inr (b, out) \<Rightarrow> Inr (out @ [if b then accepted_str else rejected_str]))"
  by (simp add: emulate_def)

text \<open>
  What \<open>emulate\<close> prints for a definition file that parses: the trace and the verdict
  of the specification's semantics, or \<open>InputStringError\<close>.
\<close>

lemma emulate_spec:
  assumes p: "parseFile ls = Inr (Some P)"
  shows "emulate ls inp sep v =
    (let w = splitIncludingNoSeparator (py_strip inp) sep; \<delta> = map_of (transitions (rules P))
     in if isStringValid (py_strip inp) sep (sigma P)
        then Inr ((if v then trace_spec \<delta> P w else []) @
                  [if accepts_spec \<delta> P w then accepted_str else rejected_str])
        else Inl InputStringError)"
proof -
  from parseFile_Inr_inv [OF p] have wf: "pda_wf P" "rules_wf (rules P)"
    by (auto simp: parse_inv_def to_pda_def)
  have d: "(\<lambda>(q', a', z). rule_lookup (rules P) q' a' z) = map_of (transitions (rules P))"
    using wf(2) by (rule rule_lookup_transitions)
  show ?thesis
  proof (cases "isStringValid (py_strip inp) sep (sigma P)")
    case True
    with runPDA_valid [OF wf(1) True, of v, unfolded d] show ?thesis
      by (simp add: emulate_Some [OF p] Let_def)
  next
    case False
    with wf(1) have "runPDA P inp sep v = Inl InputStringError" by (simp add: runPDA_Inl_cases)
    with False show ?thesis by (simp add: emulate_Some [OF p])
  qed
qed

section \<open>Properties of the script\<close>

text \<open>
  C23: end-to-end refinement. For a definition file that \<open>parseFile\<close> accepts, the
  script prints \<open>Accepted\<close> last exactly when every input symbol is declared and the
  automaton accepts the input under the step semantics of the specification; the
  hypotheses of the engine's refinement theorem are discharged by the parser's invariant.
\<close>

theorem emulate_refines_spec:
  "parseFile ls = Inr (Some P) \<Longrightarrow>
   (\<exists>out. emulate ls inp sep v = Inr (out @ [accepted_str])) \<longleftrightarrow>
   isStringValid (py_strip inp) sep (sigma P) \<and>
   accepts_spec (map_of (transitions (rules P))) P (splitIncludingNoSeparator (py_strip inp) sep)"
proof -
  assume p: "parseFile ls = Inr (Some P)"
  from parseFile_Inr_inv [OF p] have wf: "pda_wf P" "rules_wf (rules P)"
    by (auto simp: parse_inv_def to_pda_def)
  have acc: "(\<exists>out. runPDA P inp sep v = Inr (b, out)) \<longleftrightarrow>
      isStringValid (py_strip inp) sep (sigma P) \<and>
      b = accepts_spec (map_of (transitions (rules P))) P (splitIncludingNoSeparator (py_strip inp) sep)" for b
    using wf by (simp add: runPDA_Inr_iff rule_lookup_transitions)
  show ?thesis
    unfolding emulate_Some [OF p]
    by (auto split: sum.splits prod.splits if_splits dest: acc [THEN iffD1, OF exI] intro: acc [of True, THEN iffD2, THEN exE])
qed

text \<open>
  C24: errors of the run. The script never fails with \<open>TypeError\<close> (\<open>parseFile\<close>
  never returns \<open>False\<close>), \<open>IndexError\<close> or the generic \<open>PDAError\<close>; an
  \<open>InputStringError\<close> comes from a definition that parsed and an input with an
  undeclared symbol.
\<close>

theorem emulate_errors:
  "emulate ls inp sep v = Inl e \<Longrightarrow>
   e \<noteq> TypeError \<and> e \<noteq> IndexError \<and> e \<noteq> PDAError \<and>
   (e = InputStringError \<longrightarrow>
      (\<exists>P. parseFile ls = Inr (Some P) \<and> \<not> isStringValid (py_strip inp) sep (sigma P)))"
proof -
  assume r: "emulate ls inp sep v = Inl e"
  show ?thesis
  proof (cases "parseFile ls")
    case (Inl e')
    with r have "parseFile ls = Inl e" by (simp add: emulate_def)
    then show ?thesis
      using isPDAValid_not_PDAError isPDAValid_Inl_is_PDAError by (fastforce dest!: parseFile_Inl_cases)
  next
    case (Inr res)
    with parseFile_Inr_inv obtain P where p: "parseFile ls = Inr (Some P)" and wf: "pda_wf P"
      by (fastforce simp: to_pda_def)
    with r have "runPDA P inp sep v = Inl e"
      by (auto simp: emulate_Some split: sum.splits prod.splits)
    moreover from wf have "isPDAValid P = Inr True" by (simp add: isPDAValid_Inr_iff)
    ultimately have "\<not> isStringValid (py_strip inp) sep (sigma P) \<and> e = InputStringError"
      by (auto simp: runPDA_Inl_cases)
    with p show ?thesis by auto
  qed
qed

text \<open>
  The options raise exactly when one argument is given, or when the verbosity answer or
  argument is not an integer.
\<close>

lemma cli_options_errors:
  "cli_options to_int argv ans = Inl e \<longleftrightarrow>
   (length argv = 2 \<and> e = NotEnoughArgummentsError) \<or>
   (e = VerbosityValueError \<and>
      (length argv = 1 \<and> to_int (fst ans) = None \<or> length argv = 4 \<and> to_int (argv ! 3) = None))"
  by (auto simp: cli_options_def verbosityOption_def split: option.splits sum.splits)

text \<open>
  C26: a defect of lines 65--77. The verbosity flag is read only when exactly four
  arguments are given, so passing a separator (five arguments) always turns the trace off,
  whatever the third argument says.
\<close>

theorem cli_options_separator_drops_verbosity:
  "length argv = 5 \<Longrightarrow> cli_options to_int argv ans = Inr (v, sep) \<Longrightarrow>
   \<not> v \<and> sep = separatorOption (argv ! 4)"
  by (simp add: cli_options_def)

text \<open>
  C22: the whole script, end to end. Run with a definition file and an input file that
  both open, and options that are read without error, on a definition file that
  \<open>parseFile\<close> accepts, the script prints the six lines of the automaton, then the
  trace of the specification when the verbosity is on, then \<open>Accepted\<close> or
  \<open>Rejected\<close> as the specification's semantics decides on the input text (newlines
  translated, surrounding whitespace stripped); an undeclared input symbol is the only
  error left.
\<close>

theorem emulatePDA_refines_spec:
  "3 \<le> length argv \<Longrightarrow>
   open_files fs (argv ! 1) (argv ! 2) = Inr (pdaText, inputText) \<Longrightarrow>
   cli_options (py_int decimal) argv (snd (snd ans)) = Inr (v, sep) \<Longrightarrow>
   parseFile (py_readlines pdaText) = Inr (Some P) \<Longrightarrow>
   emulatePDA decimal printable fs argv ans =
     (let inp = py_strip (py_newlines inputText);
          w = splitIncludingNoSeparator inp sep;
          \<delta> = map_of (transitions (rules P))
      in if isStringValid inp sep (sigma P)
         then Inr (printPDADataStructures printable P @ (if v then trace_spec \<delta> P w else []) @
                   [if accepts_spec \<delta> P w then accepted_str else rejected_str])
         else Inl (RunError InputStringError))"
  by (simp add: emulatePDA_def emulate_spec parseFile_output_Some Let_def)

text \<open>
  C25: the order of the script's errors. Two arguments stop it before anything else;
  the two folders are entered (and the files opened) before the verbosity is read and the
  automaton is run, so a bad verbosity argument or an error of the run is only reported
  when both folders exist, and a missing file only when the definition folder exists.
\<close>

theorem emulatePDA_error_order:
  "emulatePDA decimal printable fs argv ans = Inl e \<Longrightarrow>
   (e = NotEnoughArgummentsError \<longleftrightarrow> length argv = 2) \<and>
   (e = PDAFileNotFoundError \<longrightarrow> fs_isdir fs PDADefinitionFolder) \<and>
   (e = VerbosityValueError \<or> (\<exists>e'. e = RunError e') \<longrightarrow>
      fs_isdir fs PDADefinitionFolder \<and> fs_isdir fs inputFolder)"
proof -
  assume r: "emulatePDA decimal printable fs argv ans = Inl e"
  show ?thesis
  proof (cases "length argv = 2")
    case True
    with r show ?thesis by (simp add: emulatePDA_def)
  next
    case n2: False
    obtain pn inn where names:
      "(if length argv = 1 then (fst ans, fst (snd ans)) else (argv ! 1, argv ! 2)) = (pn, inn)"
      by fastforce
    show ?thesis
    proof (cases "open_files fs pn inn")
      case (Inl e')
      with r n2 names have "e = e'" by (simp add: emulatePDA_def)
      with Inl n2 show ?thesis
        by (auto simp: open_files_def changeDirectory_def open_read_def split: if_splits option.splits)
    next
      case (Inr texts)
      then have dirs: "fs_isdir fs PDADefinitionFolder \<and> fs_isdir fs inputFolder"
        by (auto simp: open_files_def changeDirectory_def open_read_def split: if_splits option.splits)
      obtain pt it where texts: "texts = (pt, it)" by fastforce
      from r n2 names Inr texts have "e \<noteq> NotEnoughArgummentsError \<and> e \<noteq> PDAFileNotFoundError"
        by (auto simp: emulatePDA_def Let_def cli_options_errors split: sum.splits prod.splits)
      with n2 dirs show ?thesis by simp
    qed
  qed
qed

end
