(* ===== verification/Spec2Isabelle.thy ===== *)
theory Spec2Isabelle
  imports Cli Printer
begin

text \<open>
  \<^bold>\<open>A verification library for the pushdown-automaton emulator\<close>
  (\<open>src/PDA.py\<close>, \<open>src/emulatePDA.py\<close>).

  \<^bold>\<open>The program.\<close> The script \<open>emulatePDA.py\<close> chooses its options from the command
  line or from four interactive answers, then calls two parts of \<open>PDA.py\<close>.
  \<^item> \<open>parseFile\<close> (lines 62--205) strips comments line by line, dispatches the lines by
    \<open>[Section]\<close>, and builds the six-tuple \<open>(states, sigma, stackSigma, rules, start,
    accept)\<close>, with the rules as three nested dicts. It repairs mis-encoded rule fields
    with \<open>fixUtf8Corruption\<close>, prints the tuple with \<open>printPDADataStructures\<close> and
    validates it with \<open>isPDAValid\<close> (lines 213--276).
  \<^item> \<open>runPDA\<close> (lines 361--403) checks the input against the alphabet. It then takes one
    epsilon step (\<open>epsilonClosure\<close>), one step per input symbol (\<open>getNextState\<close>) and
    a last epsilon step, and reports whether the final state is an accept state.
  The script prints \<open>Accepted\<close> or \<open>Rejected\<close> after the trace.

  \<^bold>\<open>Theories\<close>, in import order.
  \<^item> \<open>PyPrelude\<close>: Python strings as lists of code points (\<open>pystr\<close>), and the \<open>str\<close>
    methods the code calls: \<open>strip\<close> with Python's whitespace set, \<open>find\<close>, \<open>rfind\<close>,
    \<open>in\<close>, \<open>startswith\<close>, \<open>split\<close>, \<open>join\<close>, and \<open>lower\<close>/\<open>upper\<close> (exact for
    comparison with an ASCII string). Insertion-ordered dicts are association lists, with
    \<open>dict_set\<close> for \<open>d[k] = v\<close>; \<open>for_each\<close> is a loop that stops at the first raise.
    Its lemmas carry the component proofs: the \<open>split\<close>/\<open>join\<close> round trip, the
    \<open>find\<close> characterisations, and \<open>map_of_dict_set\<close>, \<open>list_all_dict_set\<close>.
  \<^item> \<open>PDA_Types\<close>: the exception classes (lines 2--31) as the datatype \<open>pda_error\<close>, with
    \<open>ValueError\<close>, \<open>IndexError\<close> and \<open>TypeError\<close> for the built-in raises. The record
    \<open>pda\<close> is the six-tuple and \<open>rules_dict\<close> the nested dicts. \<open>transitions\<close> is the flat
    transition mapping of the specification; \<open>map_of_transitions\<close> shows that the nested
    lookup implements it wherever every dict has distinct keys (\<open>rules_wf\<close>).
  \<^item> \<open>Validator\<close>: \<open>isPDAValid\<close> as \<open>pda_error + bool\<close>, with one definition per loop body
    (\<open>check_accept\<close>, \<open>check_source\<close>, \<open>check_symbol\<close>, \<open>check_pop\<close>). It accepts
    exactly the automata satisfying \<open>pda_wf\<close> (C1), which give the integrity conditions
    (C5). It never returns \<open>False\<close> (C10), and the order of its checks fixes the error
    reported (C11). The defect of line 260 is pinned down (C12), and the string
    \<open>"None"\<close> is the sentinel of a missing start state whatever the states are (C28).
  \<^item> \<open>Engine\<close>: \<open>top\<close>, \<open>getNextState\<close>, \<open>epsilonClosure\<close>, \<open>run_symbols\<close> (the loop of
    lines 385--394) and \<open>runPDA\<close>. They thread the pair (state, stack), with the top of the
    stack at the end of the list, return the printed trace as a list of lines, and return
    \<open>IndexError\<close> where \<open>stack[-1]\<close> would raise it. The specification's step semantics
    (section 4.4) is written over the flat mapping: \<open>step_spec\<close>, \<open>closure_spec\<close>,
    \<open>accepts_spec\<close>, and the trace \<open>trace_spec\<close>.
    \<^item> \<open>runPDA\<close> refines the acceptance (C2) and the trace (C8) of the specification.
    \<^item> Errors (C3); no step raises \<open>IndexError\<close>, for any rules and any stack (C27);
      the no-rule self-loop (C4).
    \<^item> The invariant of the reachable configurations (C6): \<open>reachable_cfg\<close> is an
      inductive step relation and the proof is by rule induction.
    \<^item> The stack bound (C7) and that printing does not change the outcome (C9).
    \<^item> The empty input with a separator is rejected unless the empty string is a
      declared symbol (C30).
  \<^item> \<open>Preprocess\<close>: the comment handling of the \<open>parseFile\<close> loop, \<open>strip_comments\<close>, whose
    state is the flag \<open>inMultipleLineComment\<close>. Every line it passes on is safe to index
    (C13), and lines inside a block comment are dropped (C14). A line whose last \<open>/*\<close>
    follows its last \<open>*/\<close> is passed whole (C15, a defect). On files without block
    comments, \<open>clean_lines\<close> equals the reference \<open>clean_ref\<close> of the specification
    (C29).
  \<^item> \<open>Utf8\<close>: \<open>fixUtf8Corruption\<close>, a Latin-1 encoding followed by Python's strict UTF-8
    decoder. The repair undoes the Latin-1 misreading of any valid text (C16), and it
    changes a string only into the text whose UTF-8 bytes the string spells (C17).
  \<^item> \<open>Parser\<close>: the rest of \<open>parseFile\<close>, with the loop state as the record
    \<open>parse_state\<close>.
    \<^item> \<open>dispatch_line\<close> is the section dispatch, \<open>parse_rule\<close> a rule line, and
      \<open>add_rule\<close> its dict writes; \<open>parse_lines\<close> is the loop.
    \<^item> Invariant \<open>parse_inv\<close>: the dicts have distinct keys and the epsilon spellings are
      normalised. It gives C19: \<open>parseFile\<close> returns only well-formed automata, which
      discharges the hypotheses of C2, C6 and C8.
    \<^item> Errors (C18, C21) and last-write-wins (C20).
    \<^item> Invariant \<open>names_inv\<close>: every declared name is a cleaned line that is neither
      a section header nor \<open>End\<close> (C33). The loop lemma \<open>parse_lines_invariant\<close>
      lifts both invariants from one iteration to the loop.
  \<^item> \<open>Printer\<close>: \<open>printPDADataStructures\<close> (lines 278--290) as the lines it prints, with
    Python's \<open>repr\<close> of strings (CPython's \<open>unicode_repr\<close>), lists and the nested rules
    dict; \<open>parseFile_output\<close> is what \<open>parseFile\<close> prints at line 200. A reference reader
    (\<open>read_printout\<close>, built from readers of string literals, lists and dicts) reads the
    six lines back.
    \<^item> The printout determines the automaton: reading it back gives the automaton that
      was printed (C31).
    \<^item> The tuple is printed before it is validated (C32).
  \<^item> \<open>Cli\<close>: the script \<open>emulatePDA.py\<close>. \<open>changeDirectory\<close> and \<open>open_files\<close>
    work over an explicit \<open>filesystem\<close> record; then come the option choice
    (\<open>cli_options\<close>, with Python's \<open>int()\<close> as \<open>py_int\<close>), the run (\<open>emulate\<close>), and
    the whole script (\<open>emulatePDA\<close>). The script's output is \<open>parseFile\<close>'s printout,
    then the trace, then the verdict.
    \<^item> The whole script from the filesystem to its output: the printout, the trace and
      the verdict of the specification (C22).
    \<^item> End-to-end refinement from the definition file to the specification's acceptance
      (C23).
    \<^item> The errors of the run (C24), and the order in which the script reports its own
      errors (C25).
    \<^item> A defect: a separator argument switches the trace off (C26).
  \<^item> This theory: concrete automata, definition files (Scenarios A, B and D of the
    specification) and a filesystem, and the witnesses, which apply each theorem with
    hypotheses to them. Every concrete fact is evaluated by \<open>simp\<close>.

  \<^bold>\<open>Choices.\<close>
  \<^item> No loop of the program is unbounded: every loop runs over a finite list (the
    lines, the dict entries, the input symbols), and each epsilon step is taken once. So
    every definition of the program is total and structural, with no fuel, and
    \<open>py_split\<close> is a \<open>function\<close> with a measure. The only fuel is in the reference
    reader of lists and dicts, bounded by the length of the text, which is enough since
    every item takes at least one character.
  \<^item> The Python built-ins are modelled as far as the code relies on them:
    \<^item> \<open>strip\<close> uses the full set of characters \<open>str.isspace\<close> accepts;
    \<^item> \<open>lower\<close> and \<open>upper\<close> are exact for every comparison with an ASCII string, the only
      use made of them;
    \<^item> the UTF-8 decoder accepts exactly the well-formed sequences of RFC 3629, as
      Python's does;
    \<^item> text-mode files translate \<open>\r\n\<close> and \<open>\r\<close> to \<open>\n\<close>, and \<open>readlines\<close> keeps
      the newlines (\<open>py_readlines\<close>);
    \<^item> \<open>int()\<close> reads surrounding whitespace, a sign, and digits with single
      underscores. The decimal value of a non-ASCII digit comes from the Unicode
      database, so it is the parameter \<open>decimal\<close>;
    \<^item> \<open>repr\<close> follows CPython's \<open>unicode_repr\<close>. Whether a non-ASCII code point
      is printable comes from the Unicode database, so it is the parameter
      \<open>printable\<close>, and every theorem holds for each choice of it.
  \<^item> A Python dict is an association list, because the validator reports the first
    offending key in insertion order.
  \<^item> \<open>top(stack)\<close> is read once where the source reads it up to three times in a row on
    the same stack, and \<open>stack.pop()\<close>, which always follows a \<open>top(stack)\<close> that
    returned, removes the last element.

  \<^bold>\<open>Not modelled.\<close>
  \<^item> Output is a list of lines, not a stream; on an error the lines printed before it
    are not part of the result. The prompts \<open>input()\<close> writes are left out.
  \<^item> Files are given as text: decoding their bytes is not modelled. Neither are a
    failing \<open>close()\<close>, permissions, and the filesystem changing during the run.
  \<^item> Only the non-ASCII parts of the Unicode database are parameters: printability
    and decimal values.
\<close>

section \<open>Concrete automata\<close>

text \<open>
  Scenario A of the specification: states \<open>q0, q1\<close>, input alphabet \<open>a, b\<close>, stack
  alphabet \<open>Z\<close>, rules \<open>q0,a,epsilon,Z,q0\<close> and \<open>q0,b,Z,epsilon,q1\<close>, start \<open>q0\<close>,
  accept \<open>q1\<close>; the rules dictionary as \<open>parseFile\<close> builds it.
\<close>

definition pdaA :: pda where
  "pdaA = \<lparr>states = [py ''q0'', py ''q1''], sigma = [py ''a'', py ''b''],
     stackSigma = [py ''Z''],
     rules = [(py ''q0'', [(py ''a'', [(eps, \<lparr>push = py ''Z'', nextState = py ''q0''\<rparr>)]),
                          (py ''b'', [(py ''Z'', \<lparr>push = eps, nextState = py ''q1''\<rparr>)])])],
     start = py ''q0'', accept = [py ''q1'']\<rparr>"

text \<open>
  Definition files, as the lists of lines \<open>readlines()\<close> returns (each ending in a
  newline). \<open>fileA\<close> is Scenario A with a comment of each kind and an upper-case
  \<open>EPSILON\<close>; \<open>fileD\<close> is Scenario D, a rule line with four fields.
\<close>

definition nl_lines :: "string list \<Rightarrow> pystr list" where
  "nl_lines ls = map (\<lambda>s. py s @ [10]) ls"

definition fileA :: "pystr list" where
  "fileA = nl_lines [''# Scenario A'', ''[States]'', ''q0'', ''q1'', ''End'',
     ''[Sigma]'', ''a'', ''b'', ''End'', ''[Stack Sigma]'', ''Z'', ''End'',
     ''[Rules]'', ''q0, a, epsilon, Z, q0'', ''q0, b, Z, EPSILON, q1 /* pop */'', ''End'',
     ''[Start]'', ''q0'', ''End'', ''[Accept]'', ''q1'', ''End'']"

definition fileD :: "pystr list" where
  "fileD = nl_lines [''[Rules]'', ''q0, a, Z, q0'']"

text \<open>A file whose start state is a declared state named \<open>None\<close>.\<close>

definition fileNone :: "pystr list" where
  "fileNone = nl_lines [''[States]'', ''None'', ''q1'', ''End'', ''[Sigma]'', ''a'', ''End'',
     ''[Stack Sigma]'', ''Z'', ''End'', ''[Start]'', ''None'', ''End'', ''[Accept]'', ''q1'', ''End'']"

text \<open>Lines with \<open>#\<close> comments and a blank line, and no block comment.\<close>

definition fileHash :: "pystr list" where
  "fileHash = nl_lines [''  q0  # the start state'', ''   '', ''# a whole-line comment'', ''a#b'']"

text \<open>
  A filesystem for the script: the two folders, the definition file of Scenario A and
  two input files, each ending in a newline.
\<close>

definition fsA :: filesystem where
  "fsA = \<lparr>fs_isdir = (\<lambda>d. d = PDADefinitionFolder \<or> d = inputFolder),
          fs_file = (\<lambda>d n. if d = PDADefinitionFolder \<and> n = py ''A.pda'' then Some (concat fileA)
                          else if d = inputFolder \<and> n = py ''ab.txt'' then Some (py ''ab'' @ [10])
                          else if d = inputFolder \<and> n = py ''aab.txt'' then Some (py ''aab'' @ [10])
                          else None)\<rparr>"

lemmas pda_eval = pdaA_def eps_def eps_glyph_def none_str_def py_def

theorem isPDAValid_iff_wf_witness: "pda_wf pdaA \<and> isPDAValid pdaA = Inr True"
proof -
  have "pda_wf pdaA"
    by (simp add: pda_eval pda_wf_def source_ok_def symbol_ok_def pop_ok_def)
  then show ?thesis using Validator.isPDAValid_iff_wf [of pdaA] by simp
qed

lemmas validator_eval = isPDAValid_def check_accept_def check_source_def check_symbol_def
  check_pop_def pda_wf_def source_ok_def symbol_ok_def pop_ok_def

lemmas engine_eval = runPDA_def isStringValid_def splitIncludingNoSeparator_def py_strip_def
  py_isspace_def epsilonClosure_def getNextState_def isEmpty_def top_def push_unless_eps_def

theorem runPDA_refines_spec_witness:
  "rules_wf (rules pdaA) \<and> (\<exists>out. runPDA pdaA (py ''ab'') [] False = Inr (True, out))"
proof -
  have wf: "rules_wf (rules pdaA)" by (simp add: pda_eval rules_wf_def)
  have "pda_wf pdaA \<and> isStringValid (py_strip (py ''ab'')) [] (sigma pdaA) \<and>
     True = accepts_spec (map_of (transitions (rules pdaA))) pdaA
              (splitIncludingNoSeparator (py_strip (py ''ab'')) [])"
    by (simp add: pda_eval validator_eval engine_eval accepts_spec_def closure_spec_def
        step_spec_def move_def transitions_def flat_source_def)
  with wf show ?thesis
    using Engine.runPDA_refines_spec [of pdaA "py ''ab''" "[]" False True] by simp
qed

text \<open>Scenario C: an input symbol outside the alphabet raises \<open>InputStringError\<close>.\<close>

theorem runPDA_errors_witness:
  "runPDA pdaA (py ''ac'') [] False = Inl InputStringError \<and>
   pda_wf pdaA \<and> \<not> isStringValid (py ''ac'') [] (sigma pdaA)"
proof -
  have r: "runPDA pdaA (py ''ac'') [] False = Inl InputStringError"
    by (simp add: pda_eval validator_eval engine_eval)
  from Engine.runPDA_errors [OF r] show ?thesis
    using r by (simp add: pda_eval validator_eval engine_eval)
qed

theorem getNextState_no_rule_witness:
  "(\<forall>z. rule_lookup (rules pdaA) (py ''q1'') (py ''a'') z = None) \<and>
   getNextState (py ''q1'') (py ''a'') (rules pdaA) [py ''Z''] = Inr (py ''q1'', [py ''Z''])"
proof -
  have h: "\<forall>z. rule_lookup (rules pdaA) (py ''q1'') (py ''a'') z = None"
    by (simp add: pda_eval rule_lookup_def)
  with Engine.getNextState_no_rule [OF h] show ?thesis by simp
qed

theorem isPDAValid_sound_witness:
  "isPDAValid pdaA = Inr True \<and> start pdaA \<in> set (states pdaA) \<and>
   set (accept pdaA) \<subseteq> set (states pdaA) \<and> list_all (transition_ok pdaA) (transitions (rules pdaA))"
proof -
  have v: "isPDAValid pdaA = Inr True" by (simp add: pda_eval validator_eval)
  with Validator.isPDAValid_sound [OF v] show ?thesis by simp
qed

theorem reachable_cfg_ok_witness:
  "pda_wf pdaA \<and> pushes_normalized (rules pdaA) \<and>
   getNextState (py ''q0'') (py ''a'') (rules pdaA) [] = Inr (py ''q0'', [py ''Z'']) \<and>
   reachable_cfg pdaA (py ''q0'', [py ''Z'']) \<and> cfg_ok pdaA (py ''q0'', [py ''Z''])"
proof -
  have wf: "pda_wf pdaA" by (simp add: pda_eval validator_eval)
  have pn: "pushes_normalized (rules pdaA)"
    by (simp add: pda_eval pushes_normalized_def transitions_def flat_source_def)
  have g: "getNextState (py ''q0'') (py ''a'') (rules pdaA) [] = Inr (py ''q0'', [py ''Z''])"
    by (simp add: pda_eval engine_eval)
  have r: "reachable_cfg pdaA (py ''q0'', [py ''Z''])"
  proof (rule reachable_cfg.sym_step)
    show "reachable_cfg pdaA (py ''q0'', [])"
      using reachable_cfg.init [of pdaA] by (simp add: pdaA_def)
    show "py ''a'' \<in> set (sigma pdaA)" by (simp add: pdaA_def)
    show "getNextState (py ''q0'') (py ''a'') (rules pdaA) [] = Inr (py ''q0'', [py ''Z''])" by (rule g)
  qed
  from Engine.reachable_cfg_ok [OF wf pn r] wf pn g r show ?thesis by simp
qed

text \<open>The loop over \<open>aab\<close> from the start of Scenario A: two pushes and one pop.\<close>

theorem run_symbols_stack_bound_witness:
  "run_symbols (rules pdaA) False (py ''q0'', []) [py ''a'', py ''a'', py ''b''] =
     Inr ((py ''q1'', [py ''Z'']), []) \<and>
   length [py ''Z''] \<le> length ([] :: pystr list) + length [py ''a'', py ''a'', py ''b'']"
proof -
  have r: "run_symbols (rules pdaA) False (py ''q0'', []) [py ''a'', py ''a'', py ''b''] =
     Inr ((py ''q1'', [py ''Z'']), [])"
    by (simp add: pda_eval engine_eval)
  from Engine.run_symbols_stack_bound [OF r] r show ?thesis by simp
qed

text \<open>Scenario B with the trace printed.\<close>

theorem runPDA_trace_witness:
  "rules_wf (rules pdaA) \<and>
   runPDA pdaA (py ''aab'') [] True =
     Inr (True, [py ''q0'', py ''a'', py ''q0'', py ''a'', py ''q0'', py ''b'', py ''q1'']) \<and>
   trace_spec (map_of (transitions (rules pdaA))) pdaA (splitIncludingNoSeparator (py_strip (py ''aab'')) []) =
     [py ''q0'', py ''a'', py ''q0'', py ''a'', py ''q0'', py ''b'', py ''q1'']"
proof -
  have wf: "rules_wf (rules pdaA)" by (simp add: pda_eval rules_wf_def)
  have r: "runPDA pdaA (py ''aab'') [] True =
     Inr (True, [py ''q0'', py ''a'', py ''q0'', py ''a'', py ''q0'', py ''b'', py ''q1''])"
    by (simp add: pda_eval validator_eval engine_eval)
  from Engine.runPDA_trace [OF wf r] show ?thesis using wf r by simp
qed

theorem isPDAValid_source_error_witness:
  "isPDAValid (pdaA\<lparr>rules := [(py ''q9'', [])]\<rparr>) = Inl (InvalidStateError SourceState (py ''q9'')) \<and>
   py ''q9'' \<notin> set (states pdaA)"
proof -
  have e: "isPDAValid (pdaA\<lparr>rules := [(py ''q9'', [])]\<rparr>) = Inl (InvalidStateError SourceState (py ''q9''))"
    by (simp add: pda_eval validator_eval)
  from Validator.isPDAValid_source_error [OF e] show ?thesis using e by auto
qed

theorem isPDAValid_stack_eps_error_push_only_witness:
  "isPDAValid (pdaA\<lparr>stackSigma := [py ''Z'', eps]\<rparr>) = Inl (EpsilonTransitionError StackAlphabet) \<and>
   (\<exists>t\<in>set (transitions (rules pdaA)). push (snd t) = eps)"
proof -
  have e: "isPDAValid (pdaA\<lparr>stackSigma := [py ''Z'', eps]\<rparr>) = Inl (EpsilonTransitionError StackAlphabet)"
    by (simp add: pda_eval validator_eval)
  from Validator.isPDAValid_stack_eps_error_push_only [OF e] show ?thesis using e
    by (auto simp: eps_glyph_def eps_def py_def)
qed

lemmas comment_eval = pystr_simps hash_def comment_open_def comment_close_def
  strip_comments_def strip_outside_def strip_inside_def isComment_def isEmptyLine_def
  stringWithoutComments_def

theorem strip_comments_Some_witness:
  "strip_comments False (py ''  q0  # a comment'') = (False, Some (py ''q0'')) \<and>
   py ''q0'' \<noteq> [] \<and> \<not> py_isspace (hd (py ''q0'')) \<and> \<not> py_in hash (py ''q0'')"
proof -
  have r: "strip_comments False (py ''  q0  # a comment'') = (False, Some (py ''q0''))"
    by (simp add: comment_eval)
  from Preprocess.strip_comments_Some [OF r] r show ?thesis by simp
qed

theorem strip_comments_inside_dropped_witness:
  "\<not> py_in comment_close (py ''q0, a, Z, Z, q1'') \<and>
   strip_comments True (py ''q0, a, Z, Z, q1'') = (True, None)"
proof -
  have h: "\<not> py_in comment_close (py ''q0, a, Z, Z, q1'')" by (simp add: comment_eval)
  from Preprocess.strip_comments_inside_dropped [OF h] h show ?thesis by simp
qed

theorem strip_comments_unclosed_opener_witness:
  "strip_comments False (py ''q0 */ x /* y'') = (True, Some (py ''q0 */ x /* y''))"
proof -
  have h: "\<not> py_in hash (py ''q0 */ x /* y'')" "py_strip (py ''q0 */ x /* y'') = py ''q0 */ x /* y''"
    "py ''q0 */ x /* y'' \<noteq> []" "py_in comment_open (py ''q0 */ x /* y'')"
    "py_in comment_close (py ''q0 */ x /* y'')"
    "\<not> the (py_rfind (py ''q0 */ x /* y'') comment_open) < the (py_rfind (py ''q0 */ x /* y'') comment_close)"
    by (simp_all add: comment_eval)
  from Preprocess.strip_comments_unclosed_opener [OF h] show ?thesis .
qed

text \<open>The corrupted epsilon glyph: the two Latin-1 characters of its UTF-8 bytes.\<close>

theorem fixUtf8Corruption_repairs_witness:
  "list_all valid_cp eps_glyph \<and> fixUtf8Corruption [206, 181] = eps_glyph"
proof -
  have v: "list_all valid_cp eps_glyph" by (simp add: eps_glyph_def valid_cp_def)
  have e: "utf8_encode eps_glyph = [206, 181]"
    by (simp add: eps_glyph_def utf8_encode_def utf8_encode_cp_def)
  from v Utf8.fixUtf8Corruption_repairs [OF v] show ?thesis unfolding e by simp
qed

theorem fixUtf8Corruption_changed_witness:
  "fixUtf8Corruption [206, 181] \<noteq> [206, 181] \<and> utf8_encode (fixUtf8Corruption [206, 181]) = [206, 181]"
proof -
  have f: "fixUtf8Corruption [206, 181] = [949]"
    by (simp add: fixUtf8Corruption_def latin1_encode_def is_cont_def)
  then have "fixUtf8Corruption [206, 181] \<noteq> [206, 181]" by simp
  with Utf8.fixUtf8Corruption_changed [OF this] show ?thesis by simp
qed

section \<open>Definition files and the script\<close>

lemmas parse_eval = parseFile_def parse_line_def dispatch_line_def parse_rule_def parse_init_def
  lbracket_def end_str_def comma_def comment_eval fixUtf8Corruption_def latin1_encode_def
  is_cont_def normalize_eps_def py_lower_def add_rule_def dict_get_or_empty_def to_pda_def
  nl_lines_def none_str_def Let_def

lemma parse_fileA: "parseFile fileA = Inr (Some pdaA)"
  by (simp add: fileA_def parse_eval validator_eval pda_eval)

theorem parseFile_errors_witness:
  "parseFile fileD = Inl (ValueError 4) \<and> ValueError 4 \<noteq> IndexError \<and>
   (is_PDAError (ValueError 4) \<or> (\<exists>n. n \<noteq> 5 \<and> ValueError 4 = ValueError n))"
proof -
  have d: "parseFile fileD = Inl (ValueError 4)" by (simp add: fileD_def parse_eval)
  from Parser.parseFile_errors [OF d] d show ?thesis by simp
qed

theorem parseFile_wf_witness:
  "parseFile fileA = Inr (Some pdaA) \<and> pda_wf pdaA \<and> rules_wf (rules pdaA) \<and>
   rules_normalized (rules pdaA)"
  using Parser.parseFile_wf [OF parse_fileA] parse_fileA by auto

lemma readlines_fileA: "py_readlines (concat fileA) = fileA"
  by (simp add: fileA_def nl_lines_def py_readlines_def py_def)

lemma parseFile_output_fileA: "parseFile_output printable fileA = printPDADataStructures printable pdaA"
  by (simp add: parseFile_output_def fileA_def parse_eval validator_eval pda_eval)

text \<open>Scenarios A and B through the whole script: \<open>emulatePDA.py A.pda ab.txt\<close>.\<close>

theorem emulatePDA_refines_spec_witness:
  "3 \<le> length (map py [''emulatePDA.py'', ''A.pda'', ''ab.txt'']) \<and>
   open_files fsA (map py [''emulatePDA.py'', ''A.pda'', ''ab.txt''] ! 1)
     (map py [''emulatePDA.py'', ''A.pda'', ''ab.txt''] ! 2) = Inr (concat fileA, py ''ab'' @ [10]) \<and>
   cli_options (py_int (\<lambda>c. None)) (map py [''emulatePDA.py'', ''A.pda'', ''ab.txt''])
     (snd (snd ([], [], [], []))) = Inr (False, []) \<and>
   parseFile (py_readlines (concat fileA)) = Inr (Some pdaA) \<and>
   emulatePDA (\<lambda>c. None) (\<lambda>c. True) fsA (map py [''emulatePDA.py'', ''A.pda'', ''ab.txt'']) ([], [], [], []) =
     Inr (printPDADataStructures (\<lambda>c. True) pdaA @ [accepted_str])"
proof -
  have h1: "3 \<le> length (map py [''emulatePDA.py'', ''A.pda'', ''ab.txt''])" by simp
  have h2: "open_files fsA (map py [''emulatePDA.py'', ''A.pda'', ''ab.txt''] ! 1)
     (map py [''emulatePDA.py'', ''A.pda'', ''ab.txt''] ! 2) = Inr (concat fileA, py ''ab'' @ [10])"
    by (simp add: fsA_def open_files_def changeDirectory_def open_read_def
        PDADefinitionFolder_def inputFolder_def py_def)
  have h3: "cli_options (py_int (\<lambda>c. None)) (map py [''emulatePDA.py'', ''A.pda'', ''ab.txt''])
     (snd (snd ([], [], [], []))) = Inr (False, [])"
    by (simp add: cli_options_def)
  have h4: "parseFile (py_readlines (concat fileA)) = Inr (Some pdaA)"
    by (simp add: readlines_fileA parse_fileA)
  have acc: "isStringValid (py_strip (py_newlines (py ''ab'' @ [10]))) [] (sigma pdaA) \<and>
     accepts_spec (map_of (transitions (rules pdaA))) pdaA
       (splitIncludingNoSeparator (py_strip (py_newlines (py ''ab'' @ [10]))) [])"
    by (simp add: pda_eval engine_eval accepts_spec_def closure_spec_def
        step_spec_def move_def transitions_def flat_source_def)
  from Cli.emulatePDA_refines_spec [OF h1 h2 h3 h4, of "\<lambda>c. True"] acc h1 h2 h3 h4
  show ?thesis by (simp add: Let_def)
qed

theorem emulatePDA_error_order_witness:
  "emulatePDA (\<lambda>c. None) (\<lambda>c. True) fsA (map py [''emulatePDA.py'', ''A.pda'', ''ab.txt'', ''x'']) ([], [], [], []) =
     Inl VerbosityValueError \<and>
   fs_isdir fsA PDADefinitionFolder \<and> fs_isdir fsA inputFolder"
proof -
  have r: "emulatePDA (\<lambda>c. None) (\<lambda>c. True) fsA (map py [''emulatePDA.py'', ''A.pda'', ''ab.txt'', ''x'']) ([], [], [], []) =
     Inl VerbosityValueError"
    by (simp add: emulatePDA_def fsA_def open_files_def changeDirectory_def open_read_def
        PDADefinitionFolder_def inputFolder_def cli_options_def verbosityOption_def py_int_def
        read_decimal_def digit_value_def py_def py_strip_def py_isspace_def)
  from Cli.emulatePDA_error_order [OF r] r show ?thesis by simp
qed

theorem emulate_refines_spec_witness:
  "parseFile fileA = Inr (Some pdaA) \<and> (\<exists>out. emulate fileA (py ''ab'') [] False = Inr (out @ [accepted_str]))"
proof -
  have "isStringValid (py_strip (py ''ab'')) [] (sigma pdaA) \<and>
     accepts_spec (map_of (transitions (rules pdaA))) pdaA
       (splitIncludingNoSeparator (py_strip (py ''ab'')) [])"
    by (simp add: pda_eval engine_eval accepts_spec_def closure_spec_def
        step_spec_def move_def transitions_def flat_source_def)
  with Cli.emulate_refines_spec [OF parse_fileA] parse_fileA show ?thesis by blast
qed

theorem emulate_errors_witness:
  "emulate fileA (py ''ac'') [] False = Inl InputStringError \<and>
   (\<exists>P. parseFile fileA = Inr (Some P) \<and> \<not> isStringValid (py_strip (py ''ac'')) [] (sigma P))"
proof -
  have r: "emulate fileA (py ''ac'') [] False = Inl InputStringError"
    by (simp add: emulate_def parse_fileA pda_eval validator_eval engine_eval)
  from Cli.emulate_errors [OF r] r show ?thesis by simp
qed

theorem cli_options_separator_drops_verbosity_witness:
  "cli_options (\<lambda>s. Some 1) (map py [''emulatePDA.py'', ''a.pda'', ''in.txt'', ''1'', ''space''])
     ([], []) = Inr (False, py '' '') \<and> \<not> False \<and>
   py '' '' = separatorOption (py ''space'')"
proof -
  have r: "cli_options (\<lambda>s. Some 1) (map py [''emulatePDA.py'', ''a.pda'', ''in.txt'', ''1'', ''space''])
     ([], []) = Inr (False, py '' '')"
    by (simp add: cli_options_def separatorOption_def py_upper_def py_def)
  from Cli.cli_options_separator_drops_verbosity [OF _ r] r show ?thesis by simp
qed

theorem clean_lines_ref_witness:
  "list_all (\<lambda>l. \<not> py_in comment_open l) fileHash \<and>
   clean_lines False fileHash = [py ''q0'', py ''a'']"
proof -
  have h: "list_all (\<lambda>l. \<not> py_in comment_open l) fileHash"
    by (simp add: fileHash_def nl_lines_def comment_eval)
  have "clean_ref fileHash = [py ''q0'', py ''a'']"
    by (simp add: clean_ref_def fileHash_def nl_lines_def comment_eval)
  with Preprocess.clean_lines_ref [OF h] h show ?thesis by simp
qed

theorem runPDA_empty_input_separator_witness:
  "pda_wf pdaA \<and> py_strip [10] = [] \<and> runPDA pdaA [10] (py '','') False = Inl InputStringError"
proof -
  have h: "pda_wf pdaA" "py_strip [10] = []" by (simp_all add: pda_eval validator_eval engine_eval)
  have "py '','' \<noteq> [] \<and> [] \<notin> set (sigma pdaA)" by (simp add: pda_eval)
  with Engine.runPDA_empty_input_separator [OF h, of "py '',''" False] h show ?thesis by simp
qed

section \<open>The printer\<close>

text \<open>
  Scenario A with two accept states, one of them a name holding a quote, a newline and
  U+03B5, and no character taken as printable.
\<close>

theorem printPDADataStructures_roundtrip_witness:
  "pda_strs_ok (pdaA\<lparr>accept := [[39, 10, 949], py ''q1'']\<rparr>) \<and>
   read_printout (printPDADataStructures (\<lambda>c. False) (pdaA\<lparr>accept := [[39, 10, 949], py ''q1'']\<rparr>)) =
     Some (pdaA\<lparr>accept := [[39, 10, 949], py ''q1'']\<rparr>)"
proof -
  have h: "pda_strs_ok (pdaA\<lparr>accept := [[39, 10, 949], py ''q1'']\<rparr>)"
    by (simp add: pda_eval pda_strs_ok_def py_str_ok_def)
  from Printer.printPDADataStructures_roundtrip [OF h, of "\<lambda>c. False"] h show ?thesis by simp
qed

theorem parseFile_prints_before_validation_witness:
  "parseFile fileNone = Inl UndefinedStartStateError \<and> is_PDAError UndefinedStartStateError \<and>
   length (parseFile_output (\<lambda>c. True) fileNone) = 6"
proof -
  have r: "parseFile fileNone = Inl UndefinedStartStateError"
    by (simp add: fileNone_def parse_eval validator_eval)
  from Printer.parseFile_prints_before_validation [OF r, of "\<lambda>c. True"] r show ?thesis by simp
qed

theorem parseFile_clean_names_witness:
  "parseFile fileA = Inr (Some pdaA) \<and> clean_name (start pdaA) \<and>
   list_all clean_name (states pdaA @ sigma pdaA @ stackSigma pdaA @ accept pdaA)"
  using Parser.parseFile_clean_names [OF parse_fileA] parse_fileA by simp

end
